(* ===== verification/Prelude.thy ===== *)
theory Prelude
  imports Main "HOL-Library.Word"
begin

text \<open>
  Shared vocabulary of the development: Go's 64-bit signed arithmetic, the
  \<open>error + value\<close> result type, UUIDs with their canonical rendering, decimal
  rendering and parsing (\<open>%d\<close>), \<open>strings.Split\<close> on one separator, byte-wise
  string comparison, and the generic list lemmas the components use.

  Conventions.  A Go \<open>int\<close>/\<open>int64\<close> is an \<open>int\<close>; where an operation of the source can
  leave the 64-bit range it is written with \<open>go_add\<close>, \<open>go_sub\<close>, \<open>go_mul\<close>, which wrap as
  Go does.  A Go string is a \<open>string\<close> (a list of bytes).  An error is identified by
  the sentinel it wraps (what \<open>errors.Is\<close> sees); message texts are not modelled.
\<close>

unbundle bit_operations_syntax

named_theorems fleet_simps \<open>rewrite rules that unfold the small helpers of the model\<close>

section \<open>Go integers\<close>

definition min_int64 :: int where "min_int64 = - (2 ^ 63)"

definition max_int64 :: int where "max_int64 = 2 ^ 63 - 1"

definition in_int64 :: "int \<Rightarrow> bool" where
  "in_int64 x \<longleftrightarrow> min_int64 \<le> x \<and> x \<le> max_int64"

definition wrap64 :: "int \<Rightarrow> int" where
  "wrap64 x = (x + 2 ^ 63) mod 2 ^ 64 - 2 ^ 63"

definition go_add :: "int \<Rightarrow> int \<Rightarrow> int" where "go_add a b = wrap64 (a + b)"

definition go_sub :: "int \<Rightarrow> int \<Rightarrow> int" where "go_sub a b = wrap64 (a - b)"

definition go_mul :: "int \<Rightarrow> int \<Rightarrow> int" where "go_mul a b = wrap64 (a * b)"

lemma wrap64_id [simp]: "in_int64 x \<Longrightarrow> wrap64 x = x"
  by (simp add: in_int64_def min_int64_def max_int64_def wrap64_def)

lemma wrap64_range: "in_int64 (wrap64 x)"
proof -
  have "(x + 2 ^ 63) mod 2 ^ 64 < (2 ^ 64 :: int)" and "0 \<le> (x + 2 ^ 63) mod (2 ^ 64 :: int)"
    by simp_all
  then show ?thesis
    by (simp add: in_int64_def min_int64_def max_int64_def wrap64_def)
qed

lemma wrap64_congr: "wrap64 x = wrap64 y \<longleftrightarrow> x mod 2 ^ 64 = y mod 2 ^ 64"
proof -
  have "(x + 2 ^ 63) mod 2 ^ 64 = (y + 2 ^ 63) mod 2 ^ 64 \<longleftrightarrow> (2 ^ 64 :: int) dvd (x + 2 ^ 63) - (y + 2 ^ 63)"
    by (rule mod_eq_dvd_iff)
  also have "\<dots> \<longleftrightarrow> (2 ^ 64 :: int) dvd x - y" by simp
  also have "\<dots> \<longleftrightarrow> x mod 2 ^ 64 = y mod 2 ^ 64" by (rule mod_eq_dvd_iff [symmetric])
  finally show ?thesis by (simp add: wrap64_def)
qed

lemma wrap64_mod: "wrap64 x mod 2 ^ 64 = x mod 2 ^ 64"
  by (metis wrap64_congr wrap64_id wrap64_range)

lemma in_int64_small: "\<bar>x\<bar> \<le> 2 ^ 62 \<Longrightarrow> in_int64 x"
  unfolding in_int64_def min_int64_def max_int64_def by (auto simp: abs_le_iff)

lemma go_add_id: "in_int64 (a + b) \<Longrightarrow> go_add a b = a + b"
  by (simp add: go_add_def)

lemma go_sub_id: "in_int64 (a - b) \<Longrightarrow> go_sub a b = a - b"
  by (simp add: go_sub_def)

lemma go_mul_id: "in_int64 (a * b) \<Longrightarrow> go_mul a b = a * b"
  by (simp add: go_mul_def)

lemma go_arith_range [simp]:
  "in_int64 (go_add a b)" "in_int64 (go_sub a b)" "in_int64 (go_mul a b)"
  by (simp_all add: go_add_def go_sub_def go_mul_def wrap64_range)

section \<open>Results\<close>

text \<open>A Go pair \<open>(value, error)\<close> is \<open>Inl e\<close> for a non-nil error, \<open>Inr v\<close> otherwise.\<close>

definition is_ok :: "'e + 'a \<Rightarrow> bool" where
  "is_ok r = (case r of Inl _ \<Rightarrow> False | Inr _ \<Rightarrow> True)"

lemma is_ok_simps [simp]: "is_ok (Inr v)" "\<not> is_ok (Inl e)"
  by (simp_all add: is_ok_def)

lemma is_ok_iff: "is_ok r \<longleftrightarrow> (\<exists>v. r = Inr v)"
  by (cases r) simp_all

section \<open>Decimal rendering and parsing\<close>

definition digit_char :: "nat \<Rightarrow> char" where "digit_char d = char_of (48 + d)"

definition is_digit :: "char \<Rightarrow> bool" where
  "is_digit c \<longleftrightarrow> 48 \<le> (of_char c :: nat) \<and> (of_char c :: nat) \<le> 57"

definition digit_val :: "char \<Rightarrow> nat" where "digit_val c = of_char c - 48"

fun dec :: "nat \<Rightarrow> string" where
  "dec n = (if n < 10 then [digit_char n] else dec (n div 10) @ [digit_char (n mod 10)])"

declare dec.simps [simp del]

text \<open>\<open>fmt.Sprintf("%d", i)\<close> and \<open>strconv.Itoa\<close>.\<close>

definition show_int :: "int \<Rightarrow> string" where
  "show_int i = (if i < 0 then CHR ''-'' # dec (nat (- i)) else dec (nat i))"

definition dec_val :: "string \<Rightarrow> nat" where
  "dec_val s = foldl (\<lambda>v c. v * 10 + digit_val c) 0 s"

lemma digit_char_facts:
  assumes "d < 10"
  shows "is_digit (digit_char d)" "digit_val (digit_char d) = d"
proof -
  have "(of_char (char_of (48 + d) :: char) :: nat) = 48 + d"
    using assms by (simp add: of_char_of)
  then show "is_digit (digit_char d)" "digit_val (digit_char d) = d"
    using assms by (simp_all add: is_digit_def digit_char_def digit_val_def)
qed

lemma dec_digits: "c \<in> set (dec n) \<Longrightarrow> is_digit c"
proof (induction n rule: dec.induct)
  case (1 n)
  then show ?case
    by (cases "n < 10") (auto simp: dec.simps [of n] digit_char_facts)
qed

lemma dec_nonempty [simp]: "dec n \<noteq> []"
  by (subst dec.simps) simp

lemma dec_val_dec [simp]: "dec_val (dec n) = n"
proof (induction n rule: dec.induct)
  case (1 n)
  show ?case
  proof (cases "n < 10")
    case True
    then show ?thesis by (simp add: dec.simps [of n] dec_val_def digit_char_facts)
  next
    case False
    with 1 have "dec_val (dec (n div 10)) = n div 10" by simp
    with False show ?thesis
      by (simp add: dec.simps [of n] dec_val_def digit_char_facts)
  qed
qed

lemma dec_inj: "dec m = dec n \<longleftrightarrow> m = n"
  by (metis dec_val_dec)

lemma dec_leading: "hd (dec n) = CHR ''0'' \<longleftrightarrow> n = 0"
proof (induction n rule: dec.induct)
  case (1 n)
  have z: "digit_char d = CHR ''0'' \<longleftrightarrow> d = 0" if "d < 10" for d
  proof
    assume "digit_char d = CHR ''0''"
    then have "digit_val (digit_char d) = digit_val (CHR ''0'')" by simp
    with digit_char_facts(2) [OF that] show "d = 0" by (simp add: digit_val_def)
  next
    have "digit_char 0 = CHR ''0''" by code_simp
    moreover assume "d = 0"
    ultimately show "digit_char d = CHR ''0''" by simp
  qed
  show ?case
  proof (cases "n < 10")
    case True
    then show ?thesis by (simp add: dec.simps [of n] z)
  next
    case False
    with 1 show ?thesis by (simp add: dec.simps [of n])
  qed
qed

lemma not_digit_dec: "\<not> is_digit c \<Longrightarrow> c \<notin> set (dec n)"
  using dec_digits by blast

lemma is_digit_examples [simp]:
  "\<not> is_digit (CHR ''.'')" "\<not> is_digit (CHR ''-'')" "\<not> is_digit (CHR ''/'')" "\<not> is_digit (CHR '':'')"
  by (simp_all add: is_digit_def)

section \<open>Splitting and joining\<close>

text \<open>\<open>strings.Split(s, sep)\<close> for a one-byte separator: always at least one part.\<close>

fun split_on :: "char \<Rightarrow> string \<Rightarrow> string list" where
  "split_on c [] = [[]]"
| "split_on c (x # xs) =
     (if x = c then [] # split_on c xs
      else (case split_on c xs of [] \<Rightarrow> [[x]] | p # ps \<Rightarrow> (x # p) # ps))"

fun join_with :: "char \<Rightarrow> string list \<Rightarrow> string" where
  "join_with c [] = []"
| "join_with c [p] = p"
| "join_with c (p # q # ps) = p @ c # join_with c (q # ps)"

lemma split_on_nonempty [simp]: "split_on c s \<noteq> []"
  by (induction s) (auto split: list.splits)

lemma split_on_no_sep: "c \<notin> set p \<Longrightarrow> split_on c p = [p]"
  by (induction p) auto

lemma split_on_append:
  "c \<notin> set p \<Longrightarrow> split_on c (p @ c # s) = p # split_on c s"
  by (induction p) auto

lemma split_join:
  "ps \<noteq> [] \<Longrightarrow> (\<forall>p \<in> set ps. c \<notin> set p) \<Longrightarrow> split_on c (join_with c ps) = ps"
  by (induction c ps rule: join_with.induct) (auto simp: split_on_no_sep split_on_append)

lemma join_split: "join_with c (split_on c s) = s"
proof (induction s)
  case (Cons x xs)
  obtain p ps where "split_on c xs = p # ps"
    by (cases "split_on c xs") auto
  with Cons show ?case by (cases ps) auto
qed simp

lemma split_on_parts: "p \<in> set (split_on c s) \<Longrightarrow> c \<notin> set p"
proof (induction s arbitrary: p)
  case (Cons x xs)
  obtain q qs where q: "split_on c xs = q # qs"
    by (cases "split_on c xs") auto
  with Cons show ?case by (auto split: if_splits)
qed simp

section \<open>Letter case\<close>

definition ascii_lower :: "char \<Rightarrow> char" where
  "ascii_lower c = (if (65::nat) \<le> of_char c \<and> of_char c \<le> (90::nat) then char_of (of_char c + 32 :: nat) else c)"

section \<open>White space\<close>

text \<open>The length in bytes of the white-space rune a string starts with (\<open>unicode.IsSpace\<close> on its
  UTF-8 encoding), 0 when it starts with none.\<close>

definition space_len :: "string \<Rightarrow> nat" where
  "space_len s =
     (let b = map (of_char :: char \<Rightarrow> nat) (take 3 s) in
      if b \<noteq> [] \<and> (hd b = 0x20 \<or> 9 \<le> hd b \<and> hd b \<le> 13) then 1
      else if take 2 b = [0xC2, 0x85] \<or> take 2 b = [0xC2, 0xA0] then 2
      else if length b = 3 \<and> (b = [0xE1, 0x9A, 0x80] \<or> b = [0xE3, 0x80, 0x80] \<or> b = [0xE2, 0x81, 0x9F] \<or>
          take 2 b = [0xE2, 0x80] \<and> (0x80 \<le> b ! 2 \<and> b ! 2 \<le> 0x8A \<or> b ! 2 \<in> {0xA8, 0xA9, 0xAF})) then 3
      else 0)"

text \<open>\<open>strings.TrimSpace(s) == ""\<close>.\<close>

function blank :: "string \<Rightarrow> bool" where
  "blank s = (if s = [] then True else if space_len s = 0 then False else blank (drop (space_len s) s))"
  by auto
termination by (relation "measure length") auto

declare blank.simps [simp del]

lemma blank_Nil [simp]: "blank []"
  by (simp add: blank.simps)

lemma not_blank_head:
  assumes "c \<notin> {CHR '' '', CHR 0x09, CHR 0x0A, CHR 0x0B, CHR 0x0C, CHR 0x0D}" "(of_char c :: nat) < 128"
  shows "\<not> blank (c # s)"
proof -
  have "(of_char c :: nat) \<noteq> 0x20" "\<not> (9 \<le> (of_char c :: nat) \<and> (of_char c :: nat) \<le> 13)"
  proof -
    have ne: "(of_char c :: nat) \<noteq> of_char d" if "c \<noteq> d" for d using that by simp
    have "(of_char c :: nat) \<noteq> 0x20" using ne [of "CHR '' ''"] assms(1) by simp
    moreover have "(of_char c :: nat) \<noteq> 9" "(of_char c :: nat) \<noteq> 10" "(of_char c :: nat) \<noteq> 11"
      "(of_char c :: nat) \<noteq> 12" "(of_char c :: nat) \<noteq> 13"
      using ne [of "CHR 0x09"] ne [of "CHR 0x0A"] ne [of "CHR 0x0B"] ne [of "CHR 0x0C"] ne [of "CHR 0x0D"] assms(1)
      by simp_all
    ultimately show "(of_char c :: nat) \<noteq> 0x20" "\<not> (9 \<le> (of_char c :: nat) \<and> (of_char c :: nat) \<le> 13)" by linarith+
  qed
  moreover have "(of_char c :: nat) \<noteq> 0xC2" "(of_char c :: nat) \<noteq> 0xE1" "(of_char c :: nat) \<noteq> 0xE2" "(of_char c :: nat) \<noteq> 0xE3"
    using assms(2) by simp_all
  ultimately have "space_len (c # s) = 0"
    by (auto simp: space_len_def Let_def)
  then show ?thesis by (simp add: blank.simps [of "c # s"])
qed

section \<open>String order\<close>

text \<open>Go's \<open><\<close> on strings: byte-wise lexicographic.\<close>

fun string_less :: "string \<Rightarrow> string \<Rightarrow> bool" where
  "string_less xs [] = False"
| "string_less [] (y # ys) = True"
| "string_less (x # xs) (y # ys) =
     ((of_char x :: nat) < of_char y \<or> (x = y \<and> string_less xs ys))"

lemma string_less_irrefl [simp]: "\<not> string_less s s"
  by (induction s) auto

lemma string_less_trans: "string_less a b \<Longrightarrow> string_less b c \<Longrightarrow> string_less a c"
proof (induction a b arbitrary: c rule: string_less.induct)
  case (2 y ys)
  then show ?case by (cases c) auto
next
  case (3 x xs y ys)
  then show ?case by (cases c) auto
qed simp

lemma string_less_total: "a \<noteq> b \<Longrightarrow> string_less a b \<or> string_less b a"
proof (induction a b rule: string_less.induct)
  case (1 xs)
  then show ?case by (cases xs) auto
next
  case (3 x xs y ys)
  show ?case
  proof (cases "x = y")
    case False
    then have "(of_char x :: nat) \<noteq> of_char y" by simp
    then have "(of_char x :: nat) < of_char y \<or> (of_char y :: nat) < of_char x"
      by (rule linorder_neq_iff [THEN iffD1])
    then show ?thesis by auto
  qed (use 3 in auto)
qed simp

section \<open>Arithmetic\<close>

lemma div_eq_bounds: "0 < d \<Longrightarrow> x div d = q \<longleftrightarrow> q * d \<le> x \<and> x < Suc q * d" for d x q :: nat
proof
  assume d: "0 < d" and q: "x div d = q"
  have "x < d + x div d * d"
    using div_mult_mod_eq [of x d] mod_less_divisor [OF d, of x] by linarith
  with q show "q * d \<le> x \<and> x < Suc q * d" by auto
next
  assume "q * d \<le> x \<and> x < Suc q * d"
  then show "x div d = q" by (intro div_nat_eqI) (simp_all add: mult.commute)
qed

end
