(* ===== verification/Netip.thy ===== *)
theory Netip
  imports Prelude
begin

text \<open>
  The part of Go's \<open>net/netip\<close> the service uses, for IPv4: parsing and rendering of
  addresses and prefixes, masking, containment and overlap.  An address or prefix
  string that Go parses as IPv6 is \<open>None\<close> here: every caller in the service follows the
  parse by \<open>Is4()\<close> and treats both outcomes alike.
\<close>

type_synonym ipv4 = "32 word"

section \<open>Addresses\<close>

text \<open>A canonical decimal: digits only, no leading zero (what both \<open>parseIPv4Fields\<close> and
  the bit count of \<open>ParsePrefix\<close> accept).\<close>

definition canon_dec :: "string \<Rightarrow> nat option" where
  "canon_dec s =
     (if s \<noteq> [] \<and> list_all is_digit s \<and> (length s > 1 \<longrightarrow> hd s \<noteq> CHR ''0'')
      then Some (dec_val s) else None)"

definition addr_of_octets :: "nat \<Rightarrow> nat \<Rightarrow> nat \<Rightarrow> nat \<Rightarrow> ipv4" where
  "addr_of_octets a b c d = word_of_nat (a * 2 ^ 24 + b * 2 ^ 16 + c * 2 ^ 8 + d)"

definition dotted :: "nat \<Rightarrow> nat \<Rightarrow> nat \<Rightarrow> nat \<Rightarrow> string" where
  "dotted a b c d = join_with (CHR ''.'') [dec a, dec b, dec c, dec d]"

definition Addr_String :: "ipv4 \<Rightarrow> string" where
  "Addr_String a = (let n = unat a in
     dotted (n div 2 ^ 24) (n div 2 ^ 16 mod 256) (n div 2 ^ 8 mod 256) (n mod 256))"

definition ParseAddr4 :: "string \<Rightarrow> ipv4 option" where
  "ParseAddr4 s =
     (case map canon_dec (split_on (CHR ''.'') s) of
        [Some a, Some b, Some c, Some d] \<Rightarrow>
          (if a \<le> 255 \<and> b \<le> 255 \<and> c \<le> 255 \<and> d \<le> 255 then Some (addr_of_octets a b c d) else None)
      | _ \<Rightarrow> None)"

lemma canon_dec_dec [simp]: "canon_dec (dec n) = Some n"
proof -
  have "length (dec n) > 1 \<Longrightarrow> n \<noteq> 0" by (cases "n = 0") (simp_all add: dec.simps)
  then show ?thesis by (auto simp: canon_dec_def list_all_iff dec_digits dec_leading)
qed

lemma split_dotted: "split_on (CHR ''.'') (dotted a b c d) = [dec a, dec b, dec c, dec d]"
  unfolding dotted_def by (rule split_join) (auto simp: not_digit_dec)

lemma ParseAddr4_dotted:
  assumes "a \<le> 255" "b \<le> 255" "c \<le> 255" "d \<le> 255"
  shows "ParseAddr4 (dotted a b c d) = Some (addr_of_octets a b c d)"
  using assms by (simp add: ParseAddr4_def split_dotted)

lemma dotted_inj:
  "dotted a b c d = dotted a' b' c' d' \<longleftrightarrow> a = a' \<and> b = b' \<and> c = c' \<and> d = d'"
proof
  assume "dotted a b c d = dotted a' b' c' d'"
  then have "split_on (CHR ''.'') (dotted a b c d) = split_on (CHR ''.'') (dotted a' b' c' d')"
    by simp
  then show "a = a' \<and> b = b' \<and> c = c' \<and> d = d'" by (simp add: split_dotted dec_inj)
qed simp

lemma unat_addr_of_octets:
  assumes "a \<le> 255" "b \<le> 255" "c \<le> 255" "d \<le> 255"
  shows "unat (addr_of_octets a b c d) = a * 2 ^ 24 + b * 2 ^ 16 + c * 2 ^ 8 + d"
proof -
  have "a * 2 ^ 24 + b * 2 ^ 16 + c * 2 ^ 8 + d < 2 ^ 32" using assms by simp
  then have "(a * 2 ^ 24 + b * 2 ^ 16 + c * 2 ^ 8 + d) mod 2 ^ 32 = a * 2 ^ 24 + b * 2 ^ 16 + c * 2 ^ 8 + d"
    by (rule mod_less)
  then show ?thesis unfolding addr_of_octets_def
    by (simp only: unat_of_nat len_num1 len_bit0 len_bit1 take_bit_eq_mod) simp
qed

lemma ParseAddr4_Addr_String: "ParseAddr4 (Addr_String a) = Some a"
proof -
  define n where "n = unat a"
  have n: "n < 2 ^ 32" using unsigned_less [of a] by (simp add: n_def)
  have bounds: "n div 2 ^ 24 \<le> 255" "n div 2 ^ 16 mod 256 \<le> 255" "n div 2 ^ 8 mod 256 \<le> 255" "n mod 256 \<le> 255"
    using n by auto
  have split: "n div 2 ^ 24 * 2 ^ 24 + n div 2 ^ 16 mod 256 * 2 ^ 16 + n div 2 ^ 8 mod 256 * 2 ^ 8 + n mod 256 = n"
  proof -
    have "n = n div 256 * 256 + n mod 256" by simp
    moreover have "n div 256 = n div 65536 * 256 + n div 256 mod 256"
      using div_mult_mod_eq [of "n div 256" 256] by (simp add: div_mult2_eq [symmetric])
    moreover have "n div 65536 = n div 16777216 * 256 + n div 65536 mod 256"
      using div_mult_mod_eq [of "n div 65536" 256] by (simp add: div_mult2_eq [symmetric])
    ultimately have "n div 16777216 * 16777216 + n div 65536 mod 256 * 65536 + n div 256 mod 256 * 256 + n mod 256 = n"
      by linarith
    then show ?thesis by simp
  qed
  have "ParseAddr4 (Addr_String a) =
      Some (addr_of_octets (n div 2 ^ 24) (n div 2 ^ 16 mod 256) (n div 2 ^ 8 mod 256) (n mod 256))"
    unfolding Addr_String_def Let_def n_def [symmetric] by (rule ParseAddr4_dotted [OF bounds])
  also have "\<dots> = Some a"
    unfolding addr_of_octets_def split by (simp add: n_def)
  finally show ?thesis .
qed

lemma Addr_String_inj: "Addr_String a = Addr_String b \<longleftrightarrow> a = b"
  by (metis ParseAddr4_Addr_String option.inject)

section \<open>Prefixes\<close>

record prefix =
  pf_addr :: ipv4
  pf_bits :: nat

definition Prefix_String :: "prefix \<Rightarrow> string" where
  "Prefix_String p = Addr_String (pf_addr p) @ CHR ''/'' # dec (pf_bits p)"

definition ParsePrefix4 :: "string \<Rightarrow> prefix option" where
  "ParsePrefix4 s =
     (case split_on (CHR ''/'') s of
        [a, b] \<Rightarrow> (case (ParseAddr4 a, canon_dec b) of
           (Some ip, Some n) \<Rightarrow> if n \<le> 32 then Some \<lparr>pf_addr = ip, pf_bits = n\<rparr> else None
         | _ \<Rightarrow> None)
      | _ \<Rightarrow> None)"

definition Masked :: "prefix \<Rightarrow> prefix" where
  "Masked p = p\<lparr>pf_addr := push_bit (32 - pf_bits p) (drop_bit (32 - pf_bits p) (pf_addr p))\<rparr>"

definition Contains :: "prefix \<Rightarrow> ipv4 \<Rightarrow> bool" where
  "Contains p a \<longleftrightarrow> drop_bit (32 - pf_bits p) a = drop_bit (32 - pf_bits p) (pf_addr p)"

definition Overlaps_prefix :: "prefix \<Rightarrow> prefix \<Rightarrow> bool" where
  "Overlaps_prefix p q \<longleftrightarrow>
     (let n = min (pf_bits p) (pf_bits q)
      in drop_bit (32 - n) (pf_addr p) = drop_bit (32 - n) (pf_addr q))"

lemma slash_not_in_Addr_String: "CHR ''/'' \<notin> set (Addr_String a)"
  by (simp add: Addr_String_def dotted_def Let_def not_digit_dec)

lemma ParsePrefix4_String:
  assumes "pf_bits p \<le> 32"
  shows "ParsePrefix4 (Prefix_String p) = Some p"
  using assms
  by (simp add: ParsePrefix4_def Prefix_String_def split_on_append [OF slash_not_in_Addr_String]
      split_on_no_sep not_digit_dec ParseAddr4_Addr_String)

lemma Prefix_String_inj:
  assumes "pf_bits p \<le> 32" "pf_bits q \<le> 32" "Prefix_String p = Prefix_String q"
  shows "p = q"
  using assms by (metis ParsePrefix4_String option.inject)

lemma unat_drop_bit: "unat (drop_bit k (a :: ipv4)) = unat a div 2 ^ k"
  by (simp add: unat_drop_bit_eq flip: drop_bit_eq_div)

lemma Contains_iff:
  "Contains p a \<longleftrightarrow> unat a div 2 ^ (32 - pf_bits p) = unat (pf_addr p) div 2 ^ (32 - pf_bits p)"
  unfolding Contains_def by (simp add: word_unat_eq_iff unat_drop_bit)

lemma drop_bit_mono_eq:
  assumes "drop_bit k (a :: ipv4) = drop_bit k b" "k \<le> m"
  shows "drop_bit m a = drop_bit m b"
proof -
  obtain d where m: "m = d + k" using assms(2) by (metis le_add_diff_inverse2)
  have "drop_bit d (drop_bit k a) = drop_bit d (drop_bit k b)" using assms(1) by simp
  then show ?thesis by (simp add: m)
qed

text \<open>Two prefixes overlap exactly when some address lies in both.\<close>

lemma Overlaps_prefix_iff:
  assumes "pf_bits p \<le> 32" "pf_bits q \<le> 32"
  shows "Overlaps_prefix p q \<longleftrightarrow> (\<exists>a. Contains p a \<and> Contains q a)"
proof
  assume ov: "Overlaps_prefix p q"
  show "\<exists>a. Contains p a \<and> Contains q a"
  proof (cases "pf_bits p \<le> pf_bits q")
    case True
    with ov have "Contains p (pf_addr q)" by (auto simp: Overlaps_prefix_def Contains_def Let_def)
    moreover have "Contains q (pf_addr q)" by (simp add: Contains_def)
    ultimately show ?thesis by blast
  next
    case False
    with ov have "Contains q (pf_addr p)" by (auto simp: Overlaps_prefix_def Contains_def Let_def)
    moreover have "Contains p (pf_addr p)" by (simp add: Contains_def)
    ultimately show ?thesis by blast
  qed
next
  assume "\<exists>a. Contains p a \<and> Contains q a"
  then obtain a where a: "Contains p a" "Contains q a" by blast
  let ?k = "32 - min (pf_bits p) (pf_bits q)"
  have "drop_bit ?k a = drop_bit ?k (pf_addr p)"
    by (rule drop_bit_mono_eq [of "32 - pf_bits p"]) (use a in \<open>auto simp: Contains_def\<close>)
  moreover have "drop_bit ?k a = drop_bit ?k (pf_addr q)"
    by (rule drop_bit_mono_eq [of "32 - pf_bits q"]) (use a in \<open>auto simp: Contains_def\<close>)
  ultimately show "Overlaps_prefix p q" by (simp add: Overlaps_prefix_def Let_def)
qed

end
