(* ===== verification/Errors.thy ===== *)
theory Errors
  imports Prelude
begin

text \<open>
  The sentinel errors of \<open>internal/domain\<close>.  One constructor per sentinel, in the order
  of the source; \<open>ErrOther\<close> is any error that wraps none of them (a failed database
  round trip, a cancelled context).
\<close>

datatype (plugins only: code size) fleet_error =
    ErrFleetHostNotFound | ErrFleetAppNotFound | ErrFleetAppOwnerOrgRequired
  | ErrAppBacksDurableResource | ErrReplicaNotFound | ErrPlacementNotFound | ErrRouteNotFound
  | ErrIngressHostTaken | ErrVolumeNotFound | ErrInvalidHostHealth | ErrHostCapacityUnmeasured
  | ErrHostCapacityOverAdvertised | ErrHostDiskReserveInvalid | ErrHostFailureDomainRequired
  | ErrHostFailureDomainInvalid | ErrHostRegionRequired | ErrHAHostsInsufficient
  | ErrHAFailureDomainUnattested | ErrHAFailureDomainShared | ErrHARegionSplit
  | ErrHAAvailabilityClassInvalid | ErrHAPlacementUnknowable | ErrNoSchedulableHost
  | ErrVolumeBackendUnavailable | ErrVolumeAppNotScalable | ErrVolumeRestoreInProgress
  | ErrVolumesNotSupported | ErrVolumeOwnedByLiveResource | ErrVolumeClaimConflict
  | ErrStatefulHostUnavailable | ErrActivationTimeout | ErrAnonymousWakeRefused
  | ErrPauseUnsafeForResidentVM | ErrVMClassUndeclared | ErrNetCoordinateOutOfRange
  | ErrNetLeaseExhausted | ErrNetLeaseConflict | ErrNetLeaseNotFound | ErrHostNetOrdinalUnset
  | ErrNetOrdinalExhausted | ErrNetPlaneUnreconciled | ErrReplicaHostMismatch
  | ErrVolumeHostMismatch | ErrVMTerminationUnproven
  | ErrOther

type_synonym 'a fleet_result = "fleet_error + 'a"

datatype (plugins only: code size) resource_error =
    ErrResourceNotFound | ErrResourceConvergeNotSupported | ErrResourceSecretsRequired
  | ErrResourceClassUnsupported | ErrResourceTierUnsupported | ErrResourceOwnerOrgRequired
  | ErrResourceClaimKeyRequired | ErrResourceVaultTokenRequired | ErrResourceFinalSnapshotRequired
  | ErrResourceSharedPasswordAmbiguous | ErrRecoveryPointNotFound | ErrRestoreInProgress
  | ErrRestoreNoBackingApp | ErrRestoreVolumeAmbiguous | ErrRestoreStoreUnavailable
  | ErrRestoreIntegrity | ErrRestoreEngineNotAdmitting | ErrRestoreNoPrerestoreAnchor
  | ErrSnapshotNotQuiescible | ErrVolumeBackingFileMissing | ErrVolumeBackingPathUnset
  | ErrVolumeIdentityMismatch | ErrVolumeBackingFileUndersized | ErrResourceDurabilityInvalid
  | ErrProtectionUnattachable | ErrProtectionCadenceUnavailable | ErrProtectionOffsiteUnproven
  | ErrProtectionWaiverIncomplete | ErrProtectionHeartbeatNotFound | ErrEndpointZoneRequired
  | ErrEndpointRegionRequired | ErrEndpointZoneInvalid | ErrEndpointRegionInvalid | ErrEndpointIDInvalid
  | ErrEndpointHostTooLong | ErrEndpointMintFailed | ErrEndpointTaken | ErrEndpointMintExhausted

text \<open>What a volume operation wraps.\<close>

datatype volume_error = VolFleet fleet_error | VolResource resource_error | VolOther

type_synonym 'a vol_result = "volume_error + 'a"

datatype image_workload_error =
    ErrWorkloadNotFound | ErrUnsupportedClass | ErrSecretsNotSupported | ErrSecretResolverUnavailable
  | ErrSecretOwnerOrgMissing | ErrImageRefIncomplete | ErrResidentPortRequired | ErrImageBootUnavailable
  | ErrGuestControlUnavailable | ErrScaleNotSupported | ErrTestCommandNotSupported | ErrJobCommandNotSupported
  | ErrIdempotencyKeyNotSupported | ErrIdempotencyOwnerOrgMissing
  | ErrWorkloadOther

type_synonym 'a workload_result = "image_workload_error + 'a"

text \<open>What a boot seam returns wraps a fleet or an image-workload sentinel.\<close>

datatype boot_error = BootFleet fleet_error | BootWorkload image_workload_error

type_synonym 'a boot_result = "boot_error + 'a"

datatype network_error =
    ErrFleetNetworkNotFound | ErrInvalidNetworkPolicy | ErrUnsupportedPolicyProtocol | ErrNetworkOwnerOrgRequired
  | ErrNetworkEnforcerUnavailable | ErrNetworkPostureUnproven | ErrNetworkPolicyEgressOverlap

datatype (plugins only: size) domain_error =
    ErrInvalidID | ErrInvalidData
  | ErrExecutionNotFound | ErrExecutionAlreadyDone | ErrInvalidLanguage | ErrEmptyCode
  | ErrResourceLimitExceeded | ErrTimeoutExceeded
  | ErrVMNotFound | ErrVMNotReady | ErrVMAlreadyTerminated | ErrVMPoolExhausted | ErrVMStartFailed
  | ErrSnapshotNotFound | ErrSnapshotCreateFail | ErrSnapshotRestoreFail
  | ErrInvalidVCPU | ErrInvalidMemory | ErrInvalidTimeout | ErrInvalidNetworkMode
  | ErrVMInstanceNotFound | ErrInvalidVMState | ErrNoHostAvailable | ErrHostNotFound
  | ErrGraphNotFound | ErrGraphNotActive | ErrGraphHasCycle | ErrGraphNodeNotFound
  | ErrGraphEdgeNotFound | ErrGraphExecutionNotFound | ErrNodeExecutionNotFound
  | ErrDebugSessionNotFound | ErrDebugSessionNotPaused
  | ErrTraceNotFound | ErrTracesNotComparable | ErrReplaySessionNotFound | ErrReplayIndexOutOfBounds
  | ErrTerminalSessionNotFound | ErrTerminalSessionClosed | ErrTerminalVMNotReady
  | ErrLegacyGraph | ErrNodeRefRequired | ErrLegacyNodeInput | ErrInvalidNodeRef | ErrInvalidPortSpec
  | ErrInvalidSecretSpec | ErrInvalidRole | ErrInvalidEgressPattern | ErrPlanInvalid
  | ErrSeededOutputsRetired | ErrSecretTokenRequired | ErrSecretTokenUnexpected
  | ErrEnvironmentRequired | ErrEnvironmentInvalid | ErrEnvironmentUnexpected | ErrRequiredSecretAbsent
  | ErrTriggerInputInvalid | ErrNodeConfigInvalid | ErrNodeFailed | ErrNoResponse | ErrMultipleResponses
  | ErrGraphDebugRetired | ErrBundlePullFailed | ErrNodeRunnerNotReady | ErrNodeRunnerBusy
  | ErrEgressAuditBlind | ErrEgressAuditGap | ErrEgressAuditMalformed | ErrHashMismatch
  | ErrUnclassified

type_synonym 'a domain_result = "domain_error + 'a"

end
