(* ===== verification/Subnet_Pool.thy ===== *)
theory Subnet_Pool
  imports Netip Errors
begin

text \<open>
  The pool of per-invocation bridge subnets, \<open>internal/usecase/subnet_pool.go\<close>.  Go's
  iteration order over the free set is unspecified, so \<open>Acquire\<close> takes the choice as an
  argument; every result below holds for every choice.  The mutex makes each operation
  atomic, so a history is a sequence of operations.
\<close>

record SubnetPool =
  sp_base :: prefix
  sp_prefix :: nat
  sp_next :: nat
  sp_total :: nat
  sp_free :: "string list"
  sp_taken :: "string list"

definition NewSubnetPool :: "string \<Rightarrow> int \<Rightarrow> SubnetPool domain_result" where
  "NewSubnetPool cidr prefixLen =
     (case ParsePrefix4 cidr of
        None \<Rightarrow> Inl ErrInvalidData
      | Some p0 \<Rightarrow> let p = Masked p0 in
          if prefixLen < int (pf_bits p) \<or> prefixLen > 32 then Inl ErrInvalidData
          else Inr \<lparr>sp_base = p, sp_prefix = nat prefixLen, sp_next = 0,
                    sp_total = 2 ^ (nat prefixLen - pf_bits p), sp_free = [], sp_taken = []\<rparr>)"

definition slice_prefix :: "SubnetPool \<Rightarrow> nat \<Rightarrow> prefix" where
  "slice_prefix p i =
     \<lparr>pf_addr = pf_addr (sp_base p) + push_bit (32 - sp_prefix p) (word_of_nat i), pf_bits = sp_prefix p\<rparr>"

definition slice_cidr :: "SubnetPool \<Rightarrow> nat \<Rightarrow> string" where
  "slice_cidr p i = Prefix_String (slice_prefix p i)"

definition SubnetPool_Acquire :: "nat \<Rightarrow> SubnetPool \<Rightarrow> string domain_result \<times> SubnetPool" where
  "SubnetPool_Acquire choice p =
     (if sp_free p \<noteq> [] then
        let cidr = sp_free p ! (choice mod length (sp_free p)) in
        (Inr cidr, p\<lparr>sp_free := removeAll cidr (sp_free p), sp_taken := cidr # sp_taken p\<rparr>)
      else if sp_next p \<ge> sp_total p then (Inl ErrNodeRunnerBusy, p)
      else let cidr = slice_cidr p (sp_next p) in
        (Inr cidr, p\<lparr>sp_next := sp_next p + 1, sp_taken := cidr # sp_taken p\<rparr>))"

definition SubnetPool_Release :: "string \<Rightarrow> SubnetPool \<Rightarrow> SubnetPool" where
  "SubnetPool_Release subnet p =
     (if subnet \<notin> set (sp_taken p) then p
      else p\<lparr>sp_taken := removeAll subnet (sp_taken p), sp_free := subnet # sp_free p\<rparr>)"

definition SubnetPool_Overlaps :: "SubnetPool \<Rightarrow> string \<Rightarrow> bool" where
  "SubnetPool_Overlaps p other =
     (case ParsePrefix4 other of None \<Rightarrow> False | Some q \<Rightarrow> Overlaps_prefix (sp_base p) (Masked q))"

section \<open>Slices are disjoint\<close>

text \<open>The shape every pool has from its construction on.\<close>

definition pool_shape :: "SubnetPool \<Rightarrow> bool" where
  "pool_shape p \<longleftrightarrow> pf_bits (sp_base p) \<le> sp_prefix p \<and> sp_prefix p \<le> 32 \<and>
     sp_total p = 2 ^ (sp_prefix p - pf_bits (sp_base p)) \<and>
     unat (pf_addr (sp_base p)) mod 2 ^ (32 - pf_bits (sp_base p)) = 0"

lemma Masked_addr:
  assumes "pf_bits p \<le> 32"
  shows "unat (pf_addr (Masked p)) mod 2 ^ (32 - pf_bits p) = 0"
proof -
  let ?k = "32 - pf_bits p"
  have "take_bit ?k (push_bit ?k (drop_bit ?k (pf_addr p))) = 0"
    by (simp add: take_bit_push_bit)
  then have "take_bit ?k (unat (push_bit ?k (drop_bit ?k (pf_addr p)))) = 0"
    by (metis unsigned_0 unsigned_take_bit_eq)
  then show ?thesis by (simp add: Masked_def take_bit_eq_mod)
qed

lemma NewSubnetPool_shape: "NewSubnetPool cidr n = Inr p \<Longrightarrow> pool_shape p"
proof -
  assume a: "NewSubnetPool cidr n = Inr p"
  then obtain q where q: "ParsePrefix4 cidr = Some q" by (auto simp: NewSubnetPool_def split: option.splits)
  have b: "pf_bits q \<le> 32" using q by (auto simp: ParsePrefix4_def split: list.splits option.splits if_splits)
  from a q Masked_addr [OF b] show ?thesis
    by (auto simp: NewSubnetPool_def pool_shape_def Let_def Masked_def split: if_splits)
qed

lemma slice_unat:
  assumes "pool_shape p" "i < sp_total p"
  shows "unat (pf_addr (slice_prefix p i)) = unat (pf_addr (sp_base p)) + i * 2 ^ (32 - sp_prefix p)"
    and "unat (pf_addr (sp_base p)) + i * 2 ^ (32 - sp_prefix p) + 2 ^ (32 - sp_prefix p) \<le>
      unat (pf_addr (sp_base p)) + 2 ^ (32 - pf_bits (sp_base p))"
    and "unat (pf_addr (sp_base p)) + 2 ^ (32 - pf_bits (sp_base p)) \<le> 2 ^ 32"
proof -
  let ?n = "unat (pf_addr (sp_base p))" and ?b = "pf_bits (sp_base p)" and ?k = "32 - sp_prefix p"
  have s: "?b \<le> sp_prefix p" "sp_prefix p \<le> 32" "i < 2 ^ (sp_prefix p - ?b)" "?n mod 2 ^ (32 - ?b) = 0"
    using assms by (auto simp: pool_shape_def)
  have pow: "2 ^ (sp_prefix p - ?b) * 2 ^ ?k = (2 ^ (32 - ?b) :: nat)"
    using s(1,2) by (simp flip: power_add)
  have "Suc i * 2 ^ ?k \<le> 2 ^ (sp_prefix p - ?b) * (2 ^ ?k :: nat)"
    using s(3) by (intro mult_le_mono1) simp
  then show inside: "?n + i * 2 ^ ?k + 2 ^ ?k \<le> ?n + 2 ^ (32 - ?b)" by (simp add: pow)
  have "?n < 2 ^ ?b * 2 ^ (32 - ?b)"
  proof -
    have "?n < 2 ^ 32" using unsigned_less [of "pf_addr (sp_base p)"] by simp
    also have "(2 ^ 32 :: nat) = 2 ^ ?b * 2 ^ (32 - ?b)" using s(1,2) by (simp flip: power_add)
    finally show ?thesis .
  qed
  then have "?n div 2 ^ (32 - ?b) < 2 ^ ?b" by (simp add: less_mult_imp_div_less)
  then have "Suc (?n div 2 ^ (32 - ?b)) * 2 ^ (32 - ?b) \<le> 2 ^ ?b * 2 ^ (32 - ?b)"
    by (intro mult_le_mono1) simp
  then show top: "?n + 2 ^ (32 - ?b) \<le> 2 ^ 32"
    using s(1,2,4) by (simp add: minus_mod_eq_div_mult [symmetric] flip: power_add)
  have pos: "(0 :: nat) < 2 ^ ?k" by simp
  have lt: "?n + i * 2 ^ ?k < 2 ^ 32" using inside top pos by linarith
  have "pf_addr (slice_prefix p i) = word_of_nat (?n + i * 2 ^ ?k)"
    by (simp add: slice_prefix_def push_bit_eq_mult mult.commute)
  then show "unat (pf_addr (slice_prefix p i)) = ?n + i * 2 ^ ?k"
    using lt by (simp only: unat_of_nat len_bit0 len_num1 take_bit_eq_mod) simp
qed

lemma slice_Contains:
  assumes "pool_shape p" "i < sp_total p"
  shows "Contains (slice_prefix p i) a \<longleftrightarrow>
    unat (pf_addr (sp_base p)) + i * 2 ^ (32 - sp_prefix p) \<le> unat a \<and>
    unat a < unat (pf_addr (sp_base p)) + Suc i * 2 ^ (32 - sp_prefix p)"
proof -
  let ?k = "32 - sp_prefix p" and ?b = "32 - pf_bits (sp_base p)"
  have "2 ^ ?k dvd (2 ^ ?b :: nat)" using assms by (intro le_imp_power_dvd) (auto simp: pool_shape_def)
  moreover have "2 ^ ?b dvd unat (pf_addr (sp_base p))"
    using assms(1) by (simp add: pool_shape_def dvd_eq_mod_eq_0)
  ultimately have "2 ^ ?k dvd unat (pf_addr (sp_base p))" by (rule dvd_trans)
  then obtain m where m: "unat (pf_addr (sp_base p)) = 2 ^ ?k * m" by (auto elim: dvdE)
  have "Contains (slice_prefix p i) a \<longleftrightarrow> unat a div 2 ^ ?k = m + i"
    unfolding Contains_iff slice_unat(1) [OF assms] m by (simp add: slice_prefix_def add.commute)
  also have "\<dots> \<longleftrightarrow> (m + i) * 2 ^ ?k \<le> unat a \<and> unat a < Suc (m + i) * 2 ^ ?k"
    by (rule div_eq_bounds) simp
  finally show ?thesis unfolding m by (simp add: algebra_simps)
qed

lemma slice_cidr_inj:
  assumes "pool_shape p" "i < sp_total p" "j < sp_total p"
  shows "slice_cidr p i = slice_cidr p j \<longleftrightarrow> i = j"
proof
  assume e: "slice_cidr p i = slice_cidr p j"
  have "slice_prefix p i = slice_prefix p j"
    by (rule Prefix_String_inj) (use e assms(1) in \<open>auto simp: slice_cidr_def pool_shape_def slice_prefix_def\<close>)
  then show "i = j" using slice_unat(1) [OF assms(1)] assms(2,3) by (metis add_left_cancel mult_cancel2 power_not_zero zero_neq_numeral)
qed simp

lemma slices_disjoint:
  assumes "pool_shape p" "i < sp_total p" "j < sp_total p" "i \<noteq> j"
  shows "\<not> (Contains (slice_prefix p i) a \<and> Contains (slice_prefix p j) a)"
proof -
  have "Suc i * d \<le> j * d \<or> Suc j * d \<le> i * d" for d :: nat
    using assms(4) by (metis Suc_leI linorder_neqE_nat mult_le_mono1)
  from this [of "2 ^ (32 - sp_prefix p)"] show ?thesis
    using slice_Contains [OF assms(1,2)] slice_Contains [OF assms(1,3)] by auto
qed

lemma slice_in_base:
  assumes "pool_shape p" "i < sp_total p" "Contains (slice_prefix p i) a"
  shows "Contains (sp_base p) a"
proof -
  let ?n = "unat (pf_addr (sp_base p))" and ?b = "32 - pf_bits (sp_base p)"
  obtain m where m: "?n = 2 ^ ?b * m"
    using assms(1) by (auto simp: pool_shape_def elim: dvdE)
  have "?n \<le> unat a" "unat a < ?n + 2 ^ ?b"
    using assms(3) slice_unat(2) [OF assms(1,2)] unfolding slice_Contains [OF assms(1,2)] by auto
  then have "unat a div 2 ^ ?b = m" unfolding m by (intro div_nat_eqI) (auto simp: algebra_simps)
  moreover have "?n div 2 ^ ?b = m" unfolding m by simp
  ultimately show ?thesis by (simp add: Contains_iff)
qed

section \<open>Histories of a pool\<close>

datatype pool_op = OpAcquire nat | OpRelease string

fun pool_step :: "pool_op \<Rightarrow> SubnetPool \<Rightarrow> SubnetPool" where
  "pool_step (OpAcquire c) p = snd (SubnetPool_Acquire c p)"
| "pool_step (OpRelease s) p = SubnetPool_Release s p"

definition pool_run :: "pool_op list \<Rightarrow> SubnetPool \<Rightarrow> SubnetPool" where
  "pool_run ops p = fold pool_step ops p"

text \<open>The slices handed out so far are exactly the free and the taken ones, each once.\<close>

definition pool_inv :: "SubnetPool \<Rightarrow> bool" where
  "pool_inv p \<longleftrightarrow> pool_shape p \<and> sp_next p \<le> sp_total p \<and>
     distinct (sp_free p @ sp_taken p) \<and>
     set (sp_free p @ sp_taken p) = slice_cidr p ` {..<sp_next p}"

lemma slice_cidr_cong [simp]:
  "slice_cidr (p\<lparr>sp_free := f, sp_taken := t\<rparr>) = slice_cidr p"
  "slice_cidr (p\<lparr>sp_next := n, sp_taken := t\<rparr>) = slice_cidr p"
  "slice_cidr (p\<lparr>sp_taken := t, sp_free := f\<rparr>) = slice_cidr p"
  "pool_shape (p\<lparr>sp_free := f, sp_taken := t\<rparr>) = pool_shape p"
  "pool_shape (p\<lparr>sp_next := n, sp_taken := t\<rparr>) = pool_shape p"
  "pool_shape (p\<lparr>sp_taken := t, sp_free := f\<rparr>) = pool_shape p"
  by (simp_all add: slice_cidr_def slice_prefix_def pool_shape_def fun_eq_iff)

lemma Acquire_inv: "pool_inv p \<Longrightarrow> pool_inv (snd (SubnetPool_Acquire c p))"
proof (cases "sp_free p = []")
  case False
  assume inv: "pool_inv p"
  let ?x = "sp_free p ! (c mod length (sp_free p))"
  have x: "?x \<in> set (sp_free p)" using False by simp
  then have "?x \<notin> set (sp_taken p)" using inv by (auto simp: pool_inv_def)
  with inv False x show ?thesis
    by (auto simp: pool_inv_def SubnetPool_Acquire_def Let_def distinct_removeAll)
next
  case True
  assume inv: "pool_inv p"
  then have inj: "slice_cidr p (sp_next p) \<noteq> slice_cidr p i" if "sp_next p < sp_total p" "i < sp_next p" for i
    using that slice_cidr_inj [of p "sp_next p" i] by (auto simp: pool_inv_def)
  show ?thesis
  proof (cases "sp_next p < sp_total p")
    case lt: True
    then have "slice_cidr p (sp_next p) \<notin> slice_cidr p ` {..<sp_next p}" using inj by auto
    with inv True lt show ?thesis
      by (simp add: pool_inv_def SubnetPool_Acquire_def Let_def lessThan_Suc)
  qed (use inv True in \<open>simp add: SubnetPool_Acquire_def\<close>)
qed

lemma Release_inv: "pool_inv p \<Longrightarrow> pool_inv (SubnetPool_Release s p)"
  by (auto simp: pool_inv_def SubnetPool_Release_def distinct_removeAll)

lemma New_inv: "NewSubnetPool cidr n = Inr p \<Longrightarrow> pool_inv p"
  using NewSubnetPool_shape [of cidr n p]
  by (auto simp: pool_inv_def NewSubnetPool_def Let_def split: option.splits if_splits)

lemma pool_step_inv: "pool_inv p \<Longrightarrow> pool_inv (pool_step op p)"
  by (cases op) (simp_all add: Acquire_inv Release_inv)

lemma pool_run_inv: "pool_inv p \<Longrightarrow> pool_inv (pool_run ops p)"
  unfolding pool_run_def by (induction ops arbitrary: p) (simp_all add: pool_step_inv)

lemma pool_step_fixed [simp]:
  "sp_base (pool_step op p) = sp_base p" "sp_prefix (pool_step op p) = sp_prefix p"
  "sp_total (pool_step op p) = sp_total p"
  by (cases op; simp add: SubnetPool_Acquire_def SubnetPool_Release_def Let_def)+

lemma pool_run_fixed [simp]:
  "sp_base (pool_run ops p) = sp_base p" "sp_total (pool_run ops p) = sp_total p"
  unfolding pool_run_def by (induction ops arbitrary: p) simp_all

lemma taken_slice:
  assumes "pool_inv p" "s \<in> set (sp_taken p)"
  obtains i where "i < sp_total p" "s = slice_cidr p i" "ParsePrefix4 s = Some (slice_prefix p i)"
proof -
  from assms obtain i where i: "i < sp_next p" "s = slice_cidr p i"
    unfolding pool_inv_def by (metis UnCI imageE lessThan_iff set_append)
  moreover have "ParsePrefix4 (slice_cidr p i) = Some (slice_prefix p i)"
    unfolding slice_cidr_def by (rule ParsePrefix4_String) (use assms in \<open>simp add: pool_inv_def pool_shape_def slice_prefix_def\<close>)
  ultimately show ?thesis using assms that [of i] by (simp add: pool_inv_def)
qed

text \<open>Two subnets on loan never overlap: after any sequence of acquisitions and
  releases (in any order, with any free slice chosen) every taken entry parses as a prefix,
  any two different ones share no address, and each lies inside the pool's base range.\<close>

theorem subnet_pool_disjoint:
  assumes "NewSubnetPool cidr n = Inr p0" "p = pool_run ops p0"
    and "s \<in> set (sp_taken p)" "t \<in> set (sp_taken p)" "s \<noteq> t"
  shows "\<exists>ps pt. ParsePrefix4 s = Some ps \<and> ParsePrefix4 t = Some pt \<and>
    (\<forall>a. \<not> (Contains ps a \<and> Contains pt a)) \<and>
    (\<forall>a. Contains ps a \<or> Contains pt a \<longrightarrow> Contains (sp_base p0) a)"
proof -
  have inv: "pool_inv p" using assms(1,2) by (simp add: New_inv pool_run_inv)
  then have sh: "pool_shape p" by (simp add: pool_inv_def)
  obtain i where i: "i < sp_total p" "s = slice_cidr p i" "ParsePrefix4 s = Some (slice_prefix p i)"
    by (rule taken_slice [OF inv assms(3)])
  obtain j where j: "j < sp_total p" "t = slice_cidr p j" "ParsePrefix4 t = Some (slice_prefix p j)"
    by (rule taken_slice [OF inv assms(4)])
  have "i \<noteq> j" using i j assms(5) by auto
  moreover have "sp_base p = sp_base p0" by (simp add: assms(2))
  ultimately show ?thesis
    using i j slices_disjoint [OF sh i(1) j(1)] slice_in_base [OF sh i(1)] slice_in_base [OF sh j(1)] by auto
qed

lemma demo_pool:
  obtains p0 where "NewSubnetPool (Prefix_String \<lparr>pf_addr = 0, pf_bits = 24\<rparr>) 28 = Inr p0"
    "sp_total p0 = 16" "sp_prefix p0 = 28" "sp_next p0 = 0" "sp_free p0 = []" "sp_taken p0 = []" "pool_inv p0"
proof -
  have "\<exists>p0. NewSubnetPool (Prefix_String \<lparr>pf_addr = 0, pf_bits = 24\<rparr>) 28 = Inr p0 \<and>
    sp_total p0 = 16 \<and> sp_prefix p0 = 28 \<and> sp_next p0 = 0 \<and> sp_free p0 = [] \<and> sp_taken p0 = []"
    by (simp add: NewSubnetPool_def ParsePrefix4_String Masked_def Let_def)
  then show ?thesis using that New_inv by blast
qed

theorem subnet_pool_disjoint_witness:
  "\<exists>p0 s t. NewSubnetPool (Prefix_String \<lparr>pf_addr = 0, pf_bits = 24\<rparr>) 28 = Inr p0 \<and>
     set (sp_taken (pool_run [OpAcquire 0, OpAcquire 0] p0)) = {s, t} \<and>
     (\<exists>ps pt. ParsePrefix4 s = Some ps \<and> ParsePrefix4 t = Some pt \<and> (\<forall>a. \<not> (Contains ps a \<and> Contains pt a)))"
proof -
  obtain p0 where p0: "NewSubnetPool (Prefix_String \<lparr>pf_addr = 0, pf_bits = 24\<rparr>) 28 = Inr p0"
    "sp_total p0 = 16" "sp_prefix p0 = 28" "sp_next p0 = 0" "sp_free p0 = []" "sp_taken p0 = []" "pool_inv p0"
    by (rule demo_pool)
  let ?s = "slice_cidr p0 0" and ?t = "slice_cidr p0 1"
  have taken: "sp_taken (pool_run [OpAcquire 0, OpAcquire 0] p0) = [?t, ?s]"
    using p0 by (simp add: pool_run_def SubnetPool_Acquire_def Let_def)
  have "?s \<noteq> ?t" using slice_cidr_inj [of p0 0 1] p0 by (simp add: pool_inv_def)
  then obtain ps pt where "ParsePrefix4 ?s = Some ps" "ParsePrefix4 ?t = Some pt" "\<forall>a. \<not> (Contains ps a \<and> Contains pt a)"
    using subnet_pool_disjoint [OF p0(1) refl, where ops = "[OpAcquire 0, OpAcquire 0]" and s = ?s and t = ?t] taken by auto
  with p0 taken show ?thesis by (intro exI [of _ p0] exI [of _ ?s] exI [of _ ?t]) (auto intro!: exI)
qed

text \<open>Exhaustion is a refusal and nothing else is: after any history an acquisition
  fails exactly when as many slices are on loan as the range holds, then with
  \<open>ErrNodeRunnerBusy\<close> and an unchanged pool; otherwise it returns a slice that was not on
  loan, lends exactly that one, and releasing it makes it available again.\<close>

theorem subnet_pool_exhaustion:
  assumes "NewSubnetPool cidr n = Inr p0" "p = pool_run ops p0"
  shows "(case SubnetPool_Acquire choice p of
      (Inl e, p') \<Rightarrow> length (sp_taken p) = sp_total p0 \<and> e = ErrNodeRunnerBusy \<and> p' = p
    | (Inr s, p') \<Rightarrow> length (sp_taken p) < sp_total p0 \<and> s \<notin> set (sp_taken p) \<and>
        set (sp_taken p') = insert s (set (sp_taken p)) \<and>
        set (sp_taken (SubnetPool_Release s p')) = set (sp_taken p) \<and>
        s \<in> set (sp_free (SubnetPool_Release s p')))"
proof -
  have inv: "pool_inv p" using assms by (simp add: New_inv pool_run_inv)
  then have tot: "sp_total p = sp_total p0" by (simp add: assms(2))
  have inj: "inj_on (slice_cidr p) {..<sp_next p}"
    using inv slice_cidr_inj by (auto simp: pool_inv_def inj_on_def)
  have len: "length (sp_free p) + length (sp_taken p) = sp_next p"
  proof -
    have "length (sp_free p @ sp_taken p) = card (set (sp_free p @ sp_taken p))"
      using inv unfolding pool_inv_def by (intro distinct_card [symmetric]) blast
    also have "\<dots> = sp_next p" using inv card_image [OF inj] by (simp add: pool_inv_def)
    finally show ?thesis by simp
  qed
  have fresh: "slice_cidr p (sp_next p) \<notin> set (sp_taken p)" if "sp_next p < sp_total p"
  proof
    assume "slice_cidr p (sp_next p) \<in> set (sp_taken p)"
    then obtain i where "i < sp_next p" "slice_cidr p (sp_next p) = slice_cidr p i"
      using inv unfolding pool_inv_def by (metis UnCI imageE lessThan_iff set_append)
    then show False using slice_cidr_inj [of p "sp_next p" i] inv that by (auto simp: pool_inv_def)
  qed
  have "sp_free p ! (choice mod length (sp_free p)) \<notin> set (sp_taken p)" if "sp_free p \<noteq> []"
  proof -
    have "sp_free p ! (choice mod length (sp_free p)) \<in> set (sp_free p)" using that by simp
    then show ?thesis using inv by (auto simp: pool_inv_def)
  qed
  moreover have "length (sp_taken p) < sp_total p0" if "sp_free p \<noteq> []"
  proof -
    have "0 < length (sp_free p)" using that by simp
    then show ?thesis using len tot inv unfolding pool_inv_def by linarith
  qed
  ultimately show ?thesis
    using inv len tot fresh
    by (auto simp: SubnetPool_Acquire_def SubnetPool_Release_def Let_def pool_inv_def)
qed

theorem subnet_pool_exhaustion_witness:
  "\<exists>p0. NewSubnetPool (Prefix_String \<lparr>pf_addr = 0, pf_bits = 24\<rparr>) 28 = Inr p0 \<and>
     (case SubnetPool_Acquire 3 (pool_run [] p0) of (Inl e, p') \<Rightarrow> False
      | (Inr s, p') \<Rightarrow> s \<notin> set (sp_taken p0) \<and> s \<in> set (sp_free (SubnetPool_Release s p')))"
proof -
  obtain p0 where p0: "NewSubnetPool (Prefix_String \<lparr>pf_addr = 0, pf_bits = 24\<rparr>) 28 = Inr p0"
    "sp_total p0 = 16" "sp_taken p0 = []" by (rule demo_pool)
  have "pool_run [] p0 = p0" by (simp add: pool_run_def)
  with subnet_pool_exhaustion [OF p0(1) refl, of "[]" 3] p0 show ?thesis
    by (intro exI [of _ p0]) (auto split: prod.splits sum.splits)
qed

end
