(* ===== verification/Net_Lease.thy ===== *)
theory Net_Lease
  imports Netip Errors
begin

text \<open>
  The microVM addressing plane: \<open>internal/domain/fleet_net_lease.go\<close> (lease coordinates and
  their derivation) and the subnet predicates of \<open>internal/domain/fleet_network.go\<close>.
\<close>

section \<open>Identities and coordinates\<close>

text \<open>A \<open>uuid.UUID\<close> is 16 bytes; \<open>uuid.Nil\<close> is the all-zero one.\<close>

type_synonym uuid = "128 word"

abbreviation uuid_Nil :: uuid where "uuid_Nil \<equiv> 0"

text \<open>Instants are \<open>time.Time\<close> values in nanoseconds.\<close>

type_synonym instant = int

definition NetSlotStride :: int where "NetSlotStride = 1024"

definition NetMaxSlot :: int where "NetMaxSlot = NetSlotStride - 1"

definition NetMaxOrdinal :: int where "NetMaxOrdinal = 15"

definition NetMaxIndex :: int where "NetMaxIndex = (NetMaxOrdinal + 1) * NetSlotStride - 1"

definition netIndexIPStride :: int where "netIndexIPStride = 4"

definition netSubnetOctet1 :: nat where "netSubnetOctet1 = 10"

definition netSubnetOctet2 :: nat where "netSubnetOctet2 = 201"

lemmas net_consts = NetSlotStride_def NetMaxSlot_def NetMaxOrdinal_def NetMaxIndex_def
  netIndexIPStride_def netSubnetOctet1_def netSubnetOctet2_def

datatype NetLeaseOwnerKind = NetLeaseOwnerReplica | NetLeaseOwnerWorkload | NetLeaseOwnerUnknown string

fun NetLeaseOwnerKind_IsValid :: "NetLeaseOwnerKind \<Rightarrow> bool" where
  "NetLeaseOwnerKind_IsValid NetLeaseOwnerReplica = True"
| "NetLeaseOwnerKind_IsValid NetLeaseOwnerWorkload = True"
| "NetLeaseOwnerKind_IsValid (NetLeaseOwnerUnknown s) = False"

record NetLease =
  nl_ID :: uuid
  nl_HostID :: uuid
  nl_HostOrdinal :: int
  nl_LocalSlot :: int
  nl_NetIndex :: int
  nl_HostIP :: string
  nl_GuestIP :: string
  nl_TapName :: string
  nl_VMUID :: int
  nl_OwnerKind :: NetLeaseOwnerKind
  nl_OwnerID :: uuid
  nl_CreatedAt :: instant
  nl_UpdatedAt :: instant

section \<open>The fleet subnet\<close>

definition FleetSubnetCIDR :: string where "FleetSubnetCIDR = ''10.201.0.0/16''"

definition fleetSubnet :: "prefix option" where "fleetSubnet = ParsePrefix4 FleetSubnetCIDR"

definition InFleetSubnet :: "string \<Rightarrow> bool" where
  "InFleetSubnet ip =
     (case fleetSubnet of
        None \<Rightarrow> False
      | Some net \<Rightarrow> (case ParseAddr4 ip of None \<Rightarrow> False | Some addr \<Rightarrow> Contains net addr))"

definition CIDRWithinFleetSubnet :: "string \<Rightarrow> bool" where
  "CIDRWithinFleetSubnet cidr =
     (case fleetSubnet of
        None \<Rightarrow> False
      | Some net \<Rightarrow> (case ParsePrefix4 cidr of
          None \<Rightarrow> False
        | Some p \<Rightarrow> pf_bits p \<ge> pf_bits net \<and> Contains net (pf_addr p)))"

lemma FleetSubnetCIDR_eq: "FleetSubnetCIDR = dotted 10 201 0 0 @ CHR ''/'' # dec 16"
  unfolding FleetSubnetCIDR_def by code_simp

lemma fleetSubnet_eq: "fleetSubnet = Some \<lparr>pf_addr = addr_of_octets 10 201 0 0, pf_bits = 16\<rparr>"
proof -
  have "CHR ''/'' \<notin> set (dotted 10 201 0 0)" by (simp add: dotted_def not_digit_dec)
  then have "split_on (CHR ''/'') FleetSubnetCIDR = [dotted 10 201 0 0, dec 16]"
    by (simp add: FleetSubnetCIDR_eq split_on_append split_on_no_sep not_digit_dec)
  then show ?thesis by (simp add: fleetSubnet_def ParsePrefix4_def ParseAddr4_dotted)
qed

lemma InFleetSubnet_addr:
  "ParseAddr4 ip = Some a \<Longrightarrow> InFleetSubnet ip \<longleftrightarrow> unat a div 2 ^ 16 = 10 * 2 ^ 8 + 201"
  by (simp add: InFleetSubnet_def fleetSubnet_eq Contains_iff unat_addr_of_octets)

lemma InFleetSubnet_dotted:
  assumes "c \<le> 255" "d \<le> 255"
  shows "InFleetSubnet (dotted 10 201 c d)"
proof -
  have "unat (addr_of_octets 10 201 c d) = 10 * 2 ^ 24 + 201 * 2 ^ 16 + c * 2 ^ 8 + d"
    using assms by (intro unat_addr_of_octets) auto
  then have "unat (addr_of_octets 10 201 c d) = (10 * 2 ^ 8 + 201) * 2 ^ 16 + (c * 2 ^ 8 + d)"
    by simp
  then have "unat (addr_of_octets 10 201 c d) div 2 ^ 16 = 10 * 2 ^ 8 + 201"
    using assms by (simp only: div_mult_self3) simp
  then show ?thesis
    using assms by (subst InFleetSubnet_addr [OF ParseAddr4_dotted]) auto
qed

section \<open>Deriving a lease\<close>

text \<open>The zero value of the fields the allocator stamps after the derivation.\<close>

definition empty_lease :: NetLease where
  "empty_lease = \<lparr>nl_ID = uuid_Nil, nl_HostID = uuid_Nil, nl_HostOrdinal = 0, nl_LocalSlot = 0,
     nl_NetIndex = 0, nl_HostIP = '''', nl_GuestIP = '''', nl_TapName = '''', nl_VMUID = 0,
     nl_OwnerKind = NetLeaseOwnerUnknown '''', nl_OwnerID = uuid_Nil, nl_CreatedAt = 0,
     nl_UpdatedAt = 0\<rparr>"

definition DeriveNetLease :: "int \<Rightarrow> int \<Rightarrow> int \<Rightarrow> NetLease fleet_result" where
  "DeriveNetLease hostOrdinal localSlot uidBase =
    (if hostOrdinal < 0 \<or> hostOrdinal > NetMaxOrdinal then Inl ErrNetCoordinateOutOfRange
     else if localSlot < 1 \<or> localSlot > NetMaxSlot then Inl ErrNetCoordinateOutOfRange
     else if uidBase \<le> 0 then Inl ErrNetCoordinateOutOfRange
     else let netIndex = hostOrdinal * NetSlotStride + localSlot in
       if netIndex < 1 \<or> netIndex > NetMaxIndex then Inl ErrNetCoordinateOutOfRange
       else let base = netIndex * netIndexIPStride;
                o3 = drop_bit 8 base;
                o4 = base AND 255;
                lease = empty_lease\<lparr>
                  nl_HostOrdinal := hostOrdinal,
                  nl_LocalSlot := localSlot,
                  nl_NetIndex := netIndex,
                  nl_HostIP := dotted netSubnetOctet1 netSubnetOctet2 (nat o3) (nat (o4 + 1)),
                  nl_GuestIP := dotted netSubnetOctet1 netSubnetOctet2 (nat o3) (nat (o4 + 2)),
                  nl_TapName := ''img'' @ show_int localSlot,
                  nl_VMUID := go_add uidBase localSlot\<rparr>
            in if \<not> InFleetSubnet (nl_HostIP lease) \<or> \<not> InFleetSubnet (nl_GuestIP lease)
               then Inl ErrNetCoordinateOutOfRange
               else Inr lease)"

definition MatchesAddresses :: "NetLease \<Rightarrow> string \<Rightarrow> string \<Rightarrow> bool" where
  "MatchesAddresses l guestIP tapName \<longleftrightarrow> nl_GuestIP l = guestIP \<and> nl_TapName l = tapName"

text \<open>The specification the derivation meets: the coordinates as arithmetic.\<close>

definition in_plane :: "int \<Rightarrow> int \<Rightarrow> bool" where
  "in_plane ord slot \<longleftrightarrow> 0 \<le> ord \<and> ord \<le> NetMaxOrdinal \<and> 1 \<le> slot \<and> slot \<le> NetMaxSlot"

definition index_of :: "int \<Rightarrow> int \<Rightarrow> int" where
  "index_of ord slot = ord * NetSlotStride + slot"

definition lease_coords :: "int \<Rightarrow> int \<Rightarrow> int \<Rightarrow> NetLease \<Rightarrow> bool" where
  "lease_coords ord slot uidBase l \<longleftrightarrow>
     nl_HostOrdinal l = ord \<and> nl_LocalSlot l = slot \<and> nl_NetIndex l = index_of ord slot \<and>
     nl_HostIP l = dotted 10 201 (nat (index_of ord slot div 64)) (nat (index_of ord slot mod 64 * 4 + 1)) \<and>
     nl_GuestIP l = dotted 10 201 (nat (index_of ord slot div 64)) (nat (index_of ord slot mod 64 * 4 + 2)) \<and>
     nl_TapName l = ''img'' @ show_int slot \<and> nl_VMUID l = go_add uidBase slot"

lemma index_of_bounds:
  "in_plane ord slot \<Longrightarrow> 1 \<le> index_of ord slot \<and> index_of ord slot \<le> NetMaxIndex"
  by (auto simp: in_plane_def index_of_def net_consts)

lemma index_of_split:
  assumes "in_plane ord slot"
  shows "index_of ord slot div NetSlotStride = ord" "index_of ord slot mod NetSlotStride = slot"
  using assms by (auto simp: in_plane_def index_of_def net_consts)

lemma index_of_inj:
  "in_plane o1 s1 \<Longrightarrow> in_plane o2 s2 \<Longrightarrow> index_of o1 s1 = index_of o2 s2 \<longleftrightarrow> o1 = o2 \<and> s1 = s2"
  by (metis index_of_split)

lemma base_octets:
  fixes i :: int
  shows "drop_bit 8 (i * 4) = i div 64" "(i * 4) AND 255 = i mod 64 * 4"
proof -
  show "drop_bit 8 (i * 4) = i div 64"
    by (simp add: drop_bit_eq_div)
  have "(i * 4) AND 255 = take_bit 8 (i * 4)"
    by (simp add: take_bit_eq_mask mask_eq_exp_minus_1)
  also have "\<dots> = (i * 4) mod (64 * 4)" by (simp add: take_bit_eq_mod)
  also have "\<dots> = i mod 64 * 4" by (rule mult_mod_left [symmetric])
  finally show "(i * 4) AND 255 = i mod 64 * 4" .
qed

lemma DeriveNetLease_ok:
  assumes "in_plane ord slot" "0 < uidBase"
  obtains l where "DeriveNetLease ord slot uidBase = Inr l" "lease_coords ord slot uidBase l"
    "nl_OwnerKind l = NetLeaseOwnerUnknown ''''"
proof -
  let ?i = "index_of ord slot"
  have b: "1 \<le> ?i" "?i \<le> 16383"
    using index_of_bounds [OF assms(1)] by (auto simp: net_consts)
  have oct: "nat (?i div 64) \<le> 255" "nat (?i mod 64 * 4 + 1) \<le> 255" "nat (?i mod 64 * 4 + 2) \<le> 255"
    using b pos_mod_bound [of 64 ?i] by linarith+
  define l where "l = empty_lease\<lparr>nl_HostOrdinal := ord, nl_LocalSlot := slot, nl_NetIndex := ?i,
     nl_HostIP := dotted 10 201 (nat (?i div 64)) (nat (?i mod 64 * 4 + 1)),
     nl_GuestIP := dotted 10 201 (nat (?i div 64)) (nat (?i mod 64 * 4 + 2)),
     nl_TapName := ''img'' @ show_int slot, nl_VMUID := go_add uidBase slot\<rparr>"
  have sub: "InFleetSubnet (nl_HostIP l)" "InFleetSubnet (nl_GuestIP l)"
    using oct by (simp_all add: l_def InFleetSubnet_dotted)
  have lim: "\<not> (ord < 0 \<or> ord > NetMaxOrdinal)" "\<not> (slot < 1 \<or> slot > NetMaxSlot)" "\<not> uidBase \<le> 0"
    "\<not> (?i < 1 \<or> ?i > NetMaxIndex)"
    using assms index_of_bounds [OF assms(1)] by (auto simp: in_plane_def)
  have "DeriveNetLease ord slot uidBase = Inr l"
    unfolding DeriveNetLease_def Let_def index_of_def [symmetric] netIndexIPStride_def base_octets
      netSubnetOctet1_def netSubnetOctet2_def l_def [symmetric]
    using lim sub by simp
  moreover have "lease_coords ord slot uidBase l"
    by (simp add: lease_coords_def l_def)
  moreover have "nl_OwnerKind l = NetLeaseOwnerUnknown ''''" by (simp add: l_def empty_lease_def)
  ultimately show ?thesis by (rule that)
qed

lemma DeriveNetLease_ex:
  "in_plane ord slot \<Longrightarrow> 0 < uidBase \<Longrightarrow> \<exists>l. DeriveNetLease ord slot uidBase = Inr l"
  by (elim DeriveNetLease_ok) blast+

lemma DeriveNetLease_err:
  assumes "\<not> (in_plane ord slot \<and> 0 < uidBase)"
  shows "DeriveNetLease ord slot uidBase = Inl ErrNetCoordinateOutOfRange"
  using assms unfolding DeriveNetLease_def in_plane_def Let_def by auto

lemma DeriveNetLease_coords:
  assumes "DeriveNetLease ord slot uidBase = Inr l"
  shows "in_plane ord slot" "0 < uidBase" "lease_coords ord slot uidBase l"
proof -
  have "in_plane ord slot \<and> 0 < uidBase"
    using assms DeriveNetLease_err [of ord slot uidBase] by fastforce
  then show *: "in_plane ord slot" "0 < uidBase" by blast+
  show "lease_coords ord slot uidBase l"
    using DeriveNetLease_ok [OF *] assms by (metis sum.inject(2))
qed


section \<open>Addresses of a lease\<close>

lemma show_int_inj: "show_int i = show_int j \<longleftrightarrow> i = j"
proof -
  have "CHR ''-'' # xs \<noteq> dec n" for xs n
  proof
    assume "CHR ''-'' # xs = dec n"
    then have "CHR ''-'' \<in> set (dec n)" by (metis list.set_intros(1))
    then show False by (simp add: not_digit_dec)
  qed
  then show ?thesis by (auto simp: show_int_def dec_inj) metis
qed

text \<open>The /30 of a net index: network, gateway and guest address.\<close>

definition net_base :: "int \<Rightarrow> ipv4" where
  "net_base i = addr_of_octets 10 201 0 0 + 4 * word_of_int i"

lemma plane_octets:
  assumes "1 \<le> i" "i \<le> NetMaxIndex"
  shows "nat (i div 64) \<le> 255" "nat (i mod 64 * 4 + 1) \<le> 255" "nat (i mod 64 * 4 + 2) \<le> 255"
  using assms pos_mod_bound [of 64 i] by (auto simp: net_consts)

lemma addr_of_index:
  assumes "1 \<le> i" "i \<le> NetMaxIndex" "k \<le> 2"
  shows "addr_of_octets 10 201 (nat (i div 64)) (nat (i mod 64 * 4) + k) = net_base i + of_nat k"
proof -
  have e: "nat (i div 64) * 2 ^ 8 + nat (i mod 64 * 4) = nat (4 * i)"
  proof -
    have "i div 64 * 256 + i mod 64 * 4 = 4 * i"
      using div_mult_mod_eq [of i 64] by linarith
    moreover have "0 \<le> i div 64" "0 \<le> i mod 64 * 4" using assms by simp_all
    ultimately show ?thesis by (simp add: nat_mult_distrib flip: nat_add_distrib)
  qed
  have "addr_of_octets 10 201 (nat (i div 64)) (nat (i mod 64 * 4) + k) =
      word_of_nat ((10 * 2 ^ 24 + 201 * 2 ^ 16) + (nat (i div 64) * 2 ^ 8 + nat (i mod 64 * 4)) + k)"
    by (simp add: addr_of_octets_def)
  also have "\<dots> = word_of_nat ((10 * 2 ^ 24 + 201 * 2 ^ 16) + nat (4 * i) + k)" by (simp only: e)
  also have "\<dots> = net_base i + of_nat k"
    using assms by (simp add: net_base_def addr_of_octets_def of_nat_nat)
  finally show ?thesis .
qed

lemma lease_addresses:
  assumes "DeriveNetLease ord slot uidBase = Inr l"
  shows "ParseAddr4 (nl_HostIP l) = Some (net_base (nl_NetIndex l) + 1)"
    and "ParseAddr4 (nl_GuestIP l) = Some (net_base (nl_NetIndex l) + 2)"
proof -
  note c = DeriveNetLease_coords [OF assms]
  let ?i = "index_of ord slot"
  have b: "1 \<le> ?i" "?i \<le> NetMaxIndex" using index_of_bounds [OF c(1)] by auto
  have i: "nl_NetIndex l = ?i" using c(3) by (simp add: lease_coords_def)
  have n: "nat (?i mod 64 * 4 + 1) = nat (?i mod 64 * 4) + 1" "nat (?i mod 64 * 4 + 2) = nat (?i mod 64 * 4) + 2"
    by (simp_all add: nat_add_distrib)
  have "ParseAddr4 (nl_HostIP l) = Some (addr_of_octets 10 201 (nat (?i div 64)) (nat (?i mod 64 * 4 + 1)))"
    using c(3) plane_octets [OF b] by (simp add: lease_coords_def ParseAddr4_dotted)
  then show "ParseAddr4 (nl_HostIP l) = Some (net_base (nl_NetIndex l) + 1)"
    using addr_of_index [OF b, of 1] by (simp add: n i)
  have "ParseAddr4 (nl_GuestIP l) = Some (addr_of_octets 10 201 (nat (?i div 64)) (nat (?i mod 64 * 4 + 2)))"
    using c(3) plane_octets [OF b] by (simp add: lease_coords_def ParseAddr4_dotted)
  then show "ParseAddr4 (nl_GuestIP l) = Some (net_base (nl_NetIndex l) + 2)"
    using addr_of_index [OF b, of 2] by (simp add: n i)
qed

lemma stride4_cancel: "x * 4 + k = y * 4 + m \<Longrightarrow> k \<in> {1, 2} \<Longrightarrow> m \<in> {1, 2} \<Longrightarrow> x = y" for x y k m :: int
  by (elim insertE emptyE; simp; presburger)

lemma dotted_indices_distinct:
  assumes "i \<noteq> j" "0 \<le> i" "0 \<le> j" "k \<in> {1, 2}" "m \<in> {1, 2}"
  shows "dotted 10 201 (nat (i div 64)) (nat (i mod 64 * 4 + k)) \<noteq>
    dotted 10 201 (nat (j div 64)) (nat (j mod 64 * 4 + m))"
proof
  assume "dotted 10 201 (nat (i div 64)) (nat (i mod 64 * 4 + k)) =
    dotted 10 201 (nat (j div 64)) (nat (j mod 64 * 4 + m))"
  then have "nat (i div 64) = nat (j div 64)" "nat (i mod 64 * 4 + k) = nat (j mod 64 * 4 + m)"
    by (simp_all only: dotted_inj)
  moreover have "0 \<le> i div 64" "0 \<le> j div 64" "0 \<le> i mod 64 * 4 + k" "0 \<le> j mod 64 * 4 + m"
    using assms by (simp_all add: pos_imp_zdiv_nonneg_iff) (elim disjE; simp)+
  ultimately have "i div 64 = j div 64" "i mod 64 * 4 + k = j mod 64 * 4 + m"
    by (simp_all only: eq_nat_nat_iff)
  moreover have "i mod 64 = j mod 64"
    by (rule stride4_cancel [OF calculation(2) assms(4,5)])
  ultimately have "i = j" by (metis div_mult_mod_eq)
  with assms(1) show False by simp
qed

section \<open>Correctness of the derivation\<close>

text \<open>Claim C7.  \<open>DeriveNetLease\<close> refuses exactly the coordinates outside the plane (host
  ordinal outside \<open>[0,15]\<close>, slot outside \<open>[1,1023]\<close>, non-positive uid base), always with
  \<open>ErrNetCoordinateOutOfRange\<close> and never by clamping; inside the plane it always succeeds (the
  later index and subnet assertions cannot fire), the net index splits back into the
  ordinal and the slot, and both addresses are the first two usable ones of the /30 at
  \<open>10.201.0.0 + 4 * index\<close>, inside the fleet subnet.\<close>

theorem DeriveNetLease_spec:
  "(case DeriveNetLease ord slot uidBase of
      Inl e \<Rightarrow> e = ErrNetCoordinateOutOfRange \<and>
        (ord < 0 \<or> 15 < ord \<or> slot < 1 \<or> 1023 < slot \<or> uidBase \<le> 0)
    | Inr l \<Rightarrow> 0 \<le> ord \<and> ord \<le> 15 \<and> 1 \<le> slot \<and> slot \<le> 1023 \<and> 0 < uidBase \<and>
        nl_NetIndex l div 1024 = ord \<and> nl_NetIndex l mod 1024 = slot \<and>
        nl_HostOrdinal l = ord \<and> nl_LocalSlot l = slot \<and>
        nl_TapName l = ''img'' @ show_int slot \<and> nl_VMUID l = go_add uidBase slot \<and>
        ParseAddr4 (nl_HostIP l) = Some (net_base (nl_NetIndex l) + 1) \<and>
        ParseAddr4 (nl_GuestIP l) = Some (net_base (nl_NetIndex l) + 2) \<and>
        InFleetSubnet (nl_HostIP l) \<and> InFleetSubnet (nl_GuestIP l))"
proof (cases "DeriveNetLease ord slot uidBase")
  case (Inl e)
  then have "\<not> (in_plane ord slot \<and> 0 < uidBase)"
    using DeriveNetLease_ok by force
  with Inl DeriveNetLease_err [OF this] show ?thesis by (auto simp: in_plane_def net_consts)
next
  case (Inr l)
  note c = DeriveNetLease_coords [OF Inr]
  note sp = index_of_split [OF c(1)]
  have "InFleetSubnet (nl_HostIP l)" "InFleetSubnet (nl_GuestIP l)"
    using c(3) plane_octets index_of_bounds [OF c(1)]
    by (simp_all add: lease_coords_def InFleetSubnet_dotted)
  with Inr c sp lease_addresses [OF Inr] show ?thesis
    by (auto simp: in_plane_def lease_coords_def net_consts)
qed



end
