(* ===== verification/Fleet_Entities.thy ===== *)
theory Fleet_Entities
  imports Net_Lease
begin

text \<open>
  The rows of the fleet's control plane (\<open>internal/domain/fleet_*.go\<close>, \<open>image_workload.go\<close>):
  one record per struct, one datatype per string-typed enumeration.  A stored or received string
  outside the enumeration is the last constructor of the datatype.  A Go pointer is an option.
\<close>

datatype HostHealth = HostHealthUnknown | HostHealthHealthy | HostHealthDegraded | HostHealthUnhealthy
  | HostHealthOther string

fun HostHealth_IsValid :: "HostHealth \<Rightarrow> bool" where
  "HostHealth_IsValid (HostHealthOther s) = False"
| "HostHealth_IsValid _ = True"

datatype HostStatus = HostStatusActive | HostStatusDraining | HostStatusCordoned | HostStatusDecommissioned
  | HostStatusOther string

fun HostStatus_IsValid :: "HostStatus \<Rightarrow> bool" where
  "HostStatus_IsValid (HostStatusOther s) = False"
| "HostStatus_IsValid _ = True"

record Host =
  ho_ID :: uuid
  ho_Region :: string
  ho_FailureDomain :: string
  ho_Labels :: "string \<rightharpoonup> string"
  ho_CapacityVCPU :: int
  ho_CapacityMemMB :: int
  ho_CapacityDiskMB :: int
  ho_AllocatableVCPU :: int
  ho_AllocatableMemMB :: int
  ho_AllocatableDiskMB :: int
  ho_Health :: HostHealth
  ho_Status :: HostStatus
  ho_Endpoint :: string
  ho_NetOrdinal :: "int option"
  ho_LastHeartbeat :: "instant option"
  ho_CreatedAt :: instant
  ho_UpdatedAt :: instant

datatype RestartPolicy = RestartPolicyAlways | RestartPolicyOnFailure | RestartPolicyNever | RestartPolicyOther string

fun RestartPolicy_IsValid :: "RestartPolicy \<Rightarrow> bool" where
  "RestartPolicy_IsValid (RestartPolicyOther s) = False"
| "RestartPolicy_IsValid _ = True"

record FleetApp =
  fa_ID :: uuid
  fa_ComponentID :: string
  fa_Env :: string
  fa_ImageRepository :: string
  fa_ImageDigest :: string
  fa_OwnerOrg :: string
  fa_SystemID :: string
  fa_DesiredReplicas :: int
  fa_MinReplicas :: int
  fa_MaxReplicas :: int
  fa_ScaleToZero :: bool
  fa_Port :: int
  fa_ResourcesVCPU :: int
  fa_ResourcesMemMB :: int
  fa_RestartPolicy :: RestartPolicy
  fa_SecretRefs :: "string list"
  fa_IdleTTLSeconds :: int
  fa_LastActiveAt :: instant
  fa_CreatedAt :: instant
  fa_UpdatedAt :: instant

datatype ReplicaState = ReplicaStateScheduled | ReplicaStateBooting | ReplicaStateResident
  | ReplicaStatePaused | ReplicaStateDraining | ReplicaStateDead | ReplicaStateOther string

fun ReplicaState_IsValid :: "ReplicaState \<Rightarrow> bool" where
  "ReplicaState_IsValid (ReplicaStateOther s) = False"
| "ReplicaState_IsValid _ = True"

text \<open>The string behind a state, \<open>string(replica.State)\<close>.\<close>

fun ReplicaState_string :: "ReplicaState \<Rightarrow> string" where
  "ReplicaState_string ReplicaStateScheduled = ''scheduled''"
| "ReplicaState_string ReplicaStateBooting = ''booting''"
| "ReplicaState_string ReplicaStateResident = ''resident''"
| "ReplicaState_string ReplicaStatePaused = ''paused''"
| "ReplicaState_string ReplicaStateDraining = ''draining''"
| "ReplicaState_string ReplicaStateDead = ''dead''"
| "ReplicaState_string (ReplicaStateOther s) = s"

record Replica =
  re_ID :: uuid
  re_AppID :: uuid
  re_HostID :: "uuid option"
  re_ImageRepository :: string
  re_ImageDigest :: string
  re_State :: ReplicaState
  re_Endpoint :: string
  re_GuestIP :: string
  re_HostPort :: int
  re_NetIndex :: int
  re_RootfsPath :: string
  re_SocketPath :: string
  re_TapName :: string
  re_Port :: int
  re_PID :: "int option"
  re_ExitCode :: "int option"
  re_RestartPolicy :: RestartPolicy
  re_Message :: string
  re_CreatedAt :: instant
  re_UpdatedAt :: instant

datatype ImageWorkloadClass = ImageWorkloadClassTest | ImageWorkloadClassResident | ImageWorkloadClassJob
  | ImageWorkloadClassOther string

fun ImageWorkloadClass_IsValid :: "ImageWorkloadClass \<Rightarrow> bool" where
  "ImageWorkloadClass_IsValid (ImageWorkloadClassOther s) = False"
| "ImageWorkloadClass_IsValid _ = True"

definition ImageWorkloadClass_IsOneShot :: "ImageWorkloadClass \<Rightarrow> bool" where
  "ImageWorkloadClass_IsOneShot c \<longleftrightarrow> c = ImageWorkloadClassTest \<or> c = ImageWorkloadClassJob"

datatype ImageWorkloadState = ImageWorkloadStateBooting | ImageWorkloadStateRunning
  | ImageWorkloadStateExited | ImageWorkloadStateFailed | ImageWorkloadStateOther string

fun ImageWorkloadState_string :: "ImageWorkloadState \<Rightarrow> string" where
  "ImageWorkloadState_string ImageWorkloadStateBooting = ''booting''"
| "ImageWorkloadState_string ImageWorkloadStateRunning = ''running''"
| "ImageWorkloadState_string ImageWorkloadStateExited = ''exited''"
| "ImageWorkloadState_string ImageWorkloadStateFailed = ''failed''"
| "ImageWorkloadState_string (ImageWorkloadStateOther s) = s"

record ImageWorkload =
  iw_ID :: uuid
  iw_ComponentID :: string
  iw_Env :: string
  iw_OwnerOrg :: string
  iw_IdempotencyKey :: "string option"
  iw_JobCommand :: "string list"
  iw_EgressAllow :: "string list"
  iw_ImageRepository :: string
  iw_ImageDigest :: string
  iw_Class :: ImageWorkloadClass
  iw_State :: ImageWorkloadState
  iw_GuestIP :: string
  iw_HostPort :: int
  iw_Port :: int
  iw_RootfsPath :: string
  iw_SocketPath :: string
  iw_TapName :: string
  iw_NetIndex :: int
  iw_PID :: "int option"
  iw_ExitCode :: "int option"
  iw_StdoutTail :: string
  iw_StderrTail :: string
  iw_URL :: string
  iw_Message :: string
  iw_CreatedAt :: instant
  iw_UpdatedAt :: instant

datatype VolumeStatus = VolumeStatusAvailable | VolumeStatusAttached | VolumeStatusDegraded
  | VolumeStatusRestoring | VolumeStatusOther string

fun VolumeStatus_IsValid :: "VolumeStatus \<Rightarrow> bool" where
  "VolumeStatus_IsValid (VolumeStatusOther s) = False"
| "VolumeStatus_IsValid _ = True"

record Volume =
  vo_ID :: uuid
  vo_AppID :: "uuid option"
  vo_ResourceID :: "uuid option"
  vo_SizeMB :: int
  vo_HostAffinity :: "uuid option"
  vo_SnapshotRef :: string
  vo_MountPath :: string
  vo_BackingPath :: string
  vo_AttachedReplica :: "uuid option"
  vo_Status :: VolumeStatus
  vo_DeviceName :: string
  vo_CreatedAt :: instant
  vo_UpdatedAt :: instant

datatype PlacementConstraint = PlacementConstraintBinPack | PlacementConstraintSpread
  | PlacementConstraintAffinity | PlacementConstraintOther string

fun PlacementConstraint_IsValid :: "PlacementConstraint \<Rightarrow> bool" where
  "PlacementConstraint_IsValid (PlacementConstraintOther s) = False"
| "PlacementConstraint_IsValid _ = True"

end
