(* ===== verification/Net_Lease_Repo.thy ===== *)
theory Net_Lease_Repo
  imports Net_Lease
begin

text \<open>
  The lease store.  \<open>NetLeaseRepository\<close> is the interface of
  \<open>internal/repository/interfaces.go\<close> as a record of operations over an abstract database
  state; the locale \<open>net_lease_store\<close> states what its clients rely on; the functions
  \<open>netLeaseRepository_*\<close> are the Postgres implementation
  (\<open>internal/repository/postgres/fleet_net_lease_repo.go\<close>) over the table of migration 0020,
  and the interpretation \<open>pg\<close> discharges the laws for them.

  A database state carries, beside the rows, a script: one event per statement this
  process issues.  An event holds the statements other processes commit before it (run
  through the same fences) and whether the statement itself is lost before it executes or
  executes with its reply lost.  With an exhausted script the database is quiet and
  fault-free, so every interleaving of concurrent allocators is one script.
\<close>

section \<open>The table and its fences\<close>

text \<open>The unique indexes of \<open>fleet_net_leases\<close> (and its primary key): a row that agrees with
  another one on any of them is rejected.\<close>

definition fence_conflict :: "NetLease \<Rightarrow> NetLease \<Rightarrow> bool" where
  "fence_conflict a b \<longleftrightarrow>
     nl_ID a = nl_ID b \<or>
     nl_NetIndex a = nl_NetIndex b \<or>
     (nl_HostID a = nl_HostID b \<and> nl_LocalSlot a = nl_LocalSlot b) \<or>
     (nl_HostID a = nl_HostID b \<and> nl_VMUID a = nl_VMUID b) \<or>
     (nl_HostID a = nl_HostID b \<and> nl_TapName a = nl_TapName b) \<or>
     (nl_OwnerKind a = nl_OwnerKind b \<and> nl_OwnerID a = nl_OwnerID b)"

definition in_int32 :: "int \<Rightarrow> bool" where
  "in_int32 x \<longleftrightarrow> - (2 ^ 31) \<le> x \<and> x < 2 ^ 31"

text \<open>The column types and CHECK constraints of the table.\<close>

definition row_checks :: "NetLease \<Rightarrow> bool" where
  "row_checks l \<longleftrightarrow>
     NetLeaseOwnerKind_IsValid (nl_OwnerKind l) \<and> nl_LocalSlot l > 0 \<and>
     nl_NetIndex l > 0 \<and> nl_NetIndex l \<le> 16383 \<and> nl_VMUID l > 0 \<and>
     in_int32 (nl_HostOrdinal l) \<and> in_int32 (nl_LocalSlot l) \<and> in_int32 (nl_VMUID l) \<and>
     length (nl_HostIP l) \<le> 45 \<and> length (nl_GuestIP l) \<le> 45 \<and> length (nl_TapName l) \<le> 15"

fun fenced :: "NetLease list \<Rightarrow> bool" where
  "fenced [] = True"
| "fenced (r # rs) = ((\<forall>s \<in> set rs. \<not> fence_conflict r s) \<and> fenced rs)"

definition insert_row :: "NetLease \<Rightarrow> NetLease list \<Rightarrow> NetLease list fleet_result" where
  "insert_row l rs =
     (if \<not> row_checks l then Inl ErrOther
      else if \<exists>r \<in> set rs. fence_conflict r l then Inl ErrNetLeaseConflict
      else Inr (rs @ [l]))"

definition owned_by :: "NetLeaseOwnerKind \<Rightarrow> uuid \<Rightarrow> NetLease \<Rightarrow> bool" where
  "owned_by k i l \<longleftrightarrow> nl_OwnerKind l = k \<and> nl_OwnerID l = i"

definition delete_rows :: "NetLeaseOwnerKind \<Rightarrow> uuid \<Rightarrow> NetLease list \<Rightarrow> NetLease list" where
  "delete_rows k i rs = filter (\<lambda>r. \<not> owned_by k i r) rs"

datatype fault = NoFault | LostCall | LostReply

datatype lease_stmt = InsertLease NetLease | DeleteLease NetLeaseOwnerKind uuid

record pg_event =
  ev_before :: "lease_stmt list"
  ev_fault :: fault

record lease_db =
  rows :: "NetLease list"
  script :: "pg_event list"

fun exec_stmt :: "lease_stmt \<Rightarrow> NetLease list \<Rightarrow> NetLease list" where
  "exec_stmt (InsertLease l) rs = (case insert_row l rs of Inl _ \<Rightarrow> rs | Inr rs' \<Rightarrow> rs')"
| "exec_stmt (DeleteLease k i) rs = delete_rows k i rs"

definition next_event :: "lease_db \<Rightarrow> fault \<times> lease_db" where
  "next_event db =
     (case script db of
        [] \<Rightarrow> (NoFault, db)
      | e # es \<Rightarrow> (ev_fault e, db\<lparr>rows := fold exec_stmt (ev_before e) (rows db), script := es\<rparr>))"

section \<open>The repository\<close>

record 'db NetLeaseRepository =
  lr_Acquire :: "NetLease \<Rightarrow> 'db \<Rightarrow> unit fleet_result \<times> 'db"
  lr_UsedSlots :: "uuid \<Rightarrow> 'db \<Rightarrow> int list fleet_result \<times> 'db"
  lr_FindByOwner :: "NetLeaseOwnerKind \<Rightarrow> uuid \<Rightarrow> 'db \<Rightarrow> NetLease fleet_result \<times> 'db"
  lr_ListByHost :: "uuid \<Rightarrow> 'db \<Rightarrow> NetLease list fleet_result \<times> 'db"
  lr_Release :: "NetLeaseOwnerKind \<Rightarrow> uuid \<Rightarrow> 'db \<Rightarrow> unit fleet_result \<times> 'db"

definition netLeaseRepository_Acquire :: "NetLease \<Rightarrow> lease_db \<Rightarrow> unit fleet_result \<times> lease_db" where
  "netLeaseRepository_Acquire lease db0 =
     (case next_event db0 of (f, db) \<Rightarrow>
        (case f of
           LostCall \<Rightarrow> (Inl ErrOther, db)
         | _ \<Rightarrow> (case insert_row lease (rows db) of
             Inl e \<Rightarrow> (Inl (if f = NoFault then e else ErrOther), db)
           | Inr rs \<Rightarrow> (if f = NoFault then Inr () else Inl ErrOther, db\<lparr>rows := rs\<rparr>))))"

definition read_rows :: "(NetLease list \<Rightarrow> 'a fleet_result) \<Rightarrow> lease_db \<Rightarrow> 'a fleet_result \<times> lease_db" where
  "read_rows q db0 =
     (case next_event db0 of (f, db) \<Rightarrow> (if f = NoFault then q (rows db) else Inl ErrOther, db))"

definition netLeaseRepository_UsedSlots :: "uuid \<Rightarrow> lease_db \<Rightarrow> int list fleet_result \<times> lease_db" where
  "netLeaseRepository_UsedSlots hostID =
     read_rows (\<lambda>rs. Inr (sort (map nl_LocalSlot (filter (\<lambda>r. nl_HostID r = hostID) rs))))"

definition netLeaseRepository_FindByOwner ::
  "NetLeaseOwnerKind \<Rightarrow> uuid \<Rightarrow> lease_db \<Rightarrow> NetLease fleet_result \<times> lease_db" where
  "netLeaseRepository_FindByOwner kind ownerID =
     read_rows (\<lambda>rs. case find (owned_by kind ownerID) rs of
        None \<Rightarrow> Inl ErrNetLeaseNotFound
      | Some l \<Rightarrow> Inr l)"

definition netLeaseRepository_ListByHost :: "uuid \<Rightarrow> lease_db \<Rightarrow> NetLease list fleet_result \<times> lease_db" where
  "netLeaseRepository_ListByHost hostID =
     read_rows (\<lambda>rs. Inr (sort_key nl_LocalSlot (filter (\<lambda>r. nl_HostID r = hostID) rs)))"

definition netLeaseRepository_Release ::
  "NetLeaseOwnerKind \<Rightarrow> uuid \<Rightarrow> lease_db \<Rightarrow> unit fleet_result \<times> lease_db" where
  "netLeaseRepository_Release kind ownerID db0 =
     (case next_event db0 of (f, db) \<Rightarrow>
        (case f of
           LostCall \<Rightarrow> (Inl ErrOther, db)
         | _ \<Rightarrow> (if f = NoFault then Inr () else Inl ErrOther,
                 db\<lparr>rows := delete_rows kind ownerID (rows db)\<rparr>)))"

definition pg_repo :: "lease_db NetLeaseRepository" where
  "pg_repo = \<lparr>lr_Acquire = netLeaseRepository_Acquire, lr_UsedSlots = netLeaseRepository_UsedSlots,
     lr_FindByOwner = netLeaseRepository_FindByOwner, lr_ListByHost = netLeaseRepository_ListByHost,
     lr_Release = netLeaseRepository_Release\<rparr>"

lemmas repo_defs = netLeaseRepository_Acquire_def netLeaseRepository_UsedSlots_def
  netLeaseRepository_FindByOwner_def netLeaseRepository_ListByHost_def
  netLeaseRepository_Release_def read_rows_def

section \<open>The fences hold\<close>

lemma fence_conflict_sym: "fence_conflict a b \<longleftrightarrow> fence_conflict b a"
  by (auto simp: fence_conflict_def)

lemma fenced_append:
  "fenced (rs @ [l]) \<longleftrightarrow> fenced rs \<and> (\<forall>r \<in> set rs. \<not> fence_conflict r l)"
  by (induction rs) auto

lemma fenced_filter: "fenced rs \<Longrightarrow> fenced (filter P rs)"
  by (induction rs) auto

lemma fenced_members:
  "fenced rs \<Longrightarrow> a \<in> set rs \<Longrightarrow> b \<in> set rs \<Longrightarrow> a \<noteq> b \<Longrightarrow> \<not> fence_conflict a b"
  by (induction rs) (auto simp: fence_conflict_sym)

lemma insert_row_ok:
  "insert_row l rs = Inr rs' \<longleftrightarrow> row_checks l \<and> (\<forall>r \<in> set rs. \<not> fence_conflict r l) \<and> rs' = rs @ [l]"
  by (auto simp: insert_row_def)

lemma insert_row_fenced: "fenced rs \<Longrightarrow> insert_row l rs = Inr rs' \<Longrightarrow> fenced rs'"
  by (auto simp: insert_row_ok fenced_append)

lemma exec_stmt_fenced: "fenced rs \<Longrightarrow> fenced (exec_stmt st rs)"
  by (cases st) (auto simp: delete_rows_def fenced_filter insert_row_fenced split: sum.splits)

lemma fold_exec_fenced: "fenced rs \<Longrightarrow> fenced (fold exec_stmt sts rs)"
  by (induction sts arbitrary: rs) (auto simp: exec_stmt_fenced)

lemma next_event_fenced: "fenced (rows db) \<Longrightarrow> next_event db = (f, db') \<Longrightarrow> fenced (rows db')"
  by (auto simp: next_event_def fold_exec_fenced split: list.splits)

lemma next_event_quiet [simp]: "script db = [] \<Longrightarrow> next_event db = (NoFault, db)"
  by (simp add: next_event_def)

section \<open>The contract of the store\<close>

locale net_lease_store =
  fixes repo :: "'db NetLeaseRepository"
    and held :: "'db \<Rightarrow> NetLease list"
    and store_inv :: "'db \<Rightarrow> bool"
  assumes inv_fenced: "store_inv db \<Longrightarrow> fenced (held db)"
    and inv_Acquire: "store_inv db \<Longrightarrow> lr_Acquire repo l db = (r, db') \<Longrightarrow> store_inv db'"
    and inv_UsedSlots: "store_inv db \<Longrightarrow> lr_UsedSlots repo h db = (r', db') \<Longrightarrow> store_inv db'"
    and inv_FindByOwner: "store_inv db \<Longrightarrow> lr_FindByOwner repo k i db = (r'', db') \<Longrightarrow> store_inv db'"
    and inv_ListByHost: "store_inv db \<Longrightarrow> lr_ListByHost repo h db = (rl, db') \<Longrightarrow> store_inv db'"
    and inv_Release: "store_inv db \<Longrightarrow> lr_Release repo k i db = (r, db') \<Longrightarrow> store_inv db'"
    and Acquire_held: "lr_Acquire repo l db = (Inr (), db') \<Longrightarrow> l \<in> set (held db')"
    and FindByOwner_held:
      "lr_FindByOwner repo k i db = (Inr l, db') \<Longrightarrow> l \<in> set (held db') \<and> owned_by k i l"
    and Release_gone:
      "lr_Release repo k i db = (Inr (), db') \<Longrightarrow> \<forall>l \<in> set (held db'). \<not> owned_by k i l"
begin

lemma held_isolated:
  assumes "store_inv db" "a \<in> set (held db)" "b \<in> set (held db)" "a \<noteq> b"
  shows "nl_NetIndex a \<noteq> nl_NetIndex b"
    and "nl_HostID a = nl_HostID b \<Longrightarrow>
      nl_LocalSlot a \<noteq> nl_LocalSlot b \<and> nl_VMUID a \<noteq> nl_VMUID b \<and> nl_TapName a \<noteq> nl_TapName b"
    and "(nl_OwnerKind a, nl_OwnerID a) \<noteq> (nl_OwnerKind b, nl_OwnerID b)"
  using fenced_members [OF inv_fenced [OF assms(1)] assms(2-4)]
  by (auto simp: fence_conflict_def)

lemma owner_unique:
  assumes "store_inv db" "a \<in> set (held db)" "b \<in> set (held db)" "owned_by k i a" "owned_by k i b"
  shows "a = b"
  using held_isolated(3) [OF assms(1-3)] assms(4,5) by (auto simp: owned_by_def)

end

definition pg_inv :: "lease_db \<Rightarrow> bool" where "pg_inv db \<longleftrightarrow> fenced (rows db)"

lemma pg_Acquire_inv:
  "pg_inv db \<Longrightarrow> netLeaseRepository_Acquire l db = (r, db') \<Longrightarrow> pg_inv db'"
  by (auto simp: pg_inv_def netLeaseRepository_Acquire_def insert_row_fenced dest: next_event_fenced
      split: prod.splits fault.splits sum.splits)

lemma pg_Release_inv:
  "pg_inv db \<Longrightarrow> netLeaseRepository_Release k i db = (r, db') \<Longrightarrow> pg_inv db'"
  by (auto simp: pg_inv_def netLeaseRepository_Release_def delete_rows_def fenced_filter
      dest: next_event_fenced split: prod.splits fault.splits)

lemma pg_read_inv: "pg_inv db \<Longrightarrow> read_rows q db = (r, db') \<Longrightarrow> pg_inv db'"
  by (auto simp: pg_inv_def read_rows_def dest: next_event_fenced split: prod.splits)

lemma pg_Acquire_held:
  "netLeaseRepository_Acquire l db = (Inr (), db') \<Longrightarrow> l \<in> set (rows db')"
  by (auto simp: netLeaseRepository_Acquire_def insert_row_ok
      split: prod.splits fault.splits sum.splits if_splits)

lemma pg_FindByOwner_held:
  "netLeaseRepository_FindByOwner k i db = (Inr l, db') \<Longrightarrow> l \<in> set (rows db') \<and> owned_by k i l"
  by (auto simp: netLeaseRepository_FindByOwner_def read_rows_def find_Some_iff
      split: prod.splits option.splits if_splits)

lemma pg_Release_gone:
  "netLeaseRepository_Release k i db = (Inr (), db') \<Longrightarrow> \<forall>l \<in> set (rows db'). \<not> owned_by k i l"
  by (auto simp: netLeaseRepository_Release_def delete_rows_def split: prod.splits fault.splits if_splits)

lemmas pg_repo_ops = pg_repo_def netLeaseRepository_UsedSlots_def netLeaseRepository_ListByHost_def

interpretation pg: net_lease_store pg_repo rows pg_inv
proof
  show "fenced (rows db)" if "pg_inv db" for db
    using that by (simp add: pg_inv_def)
  show "pg_inv db'" if "pg_inv db" "lr_Acquire pg_repo l db = (r, db')" for db l r db'
    using that by (simp add: pg_repo_def pg_Acquire_inv)
  show "pg_inv db'" if "pg_inv db" "lr_UsedSlots pg_repo h db = (r, db')" for db h r db'
    using that pg_read_inv by (simp add: pg_repo_ops)
  show "pg_inv db'" if "pg_inv db" "lr_FindByOwner pg_repo k i db = (r, db')" for db k i r db'
    using that pg_read_inv by (simp add: pg_repo_def netLeaseRepository_FindByOwner_def)
  show "pg_inv db'" if "pg_inv db" "lr_ListByHost pg_repo h db = (r, db')" for db h r db'
    using that pg_read_inv by (simp add: pg_repo_ops)
  show "pg_inv db'" if "pg_inv db" "lr_Release pg_repo k i db = (r, db')" for db k i r db'
    using that by (simp add: pg_repo_def pg_Release_inv)
  show "l \<in> set (rows db')" if "lr_Acquire pg_repo l db = (Inr (), db')" for l db db'
    using that by (simp add: pg_repo_def pg_Acquire_held)
  show "l \<in> set (rows db') \<and> owned_by k i l" if "lr_FindByOwner pg_repo k i db = (Inr l, db')" for k i l db db'
    using that by (simp add: pg_repo_def pg_FindByOwner_held)
  show "\<forall>l \<in> set (rows db'). \<not> owned_by k i l" if "lr_Release pg_repo k i db = (Inr (), db')" for k i db db'
    using that by (simp add: pg_repo_def pg_Release_gone)
qed

end
