(* ===== verification/Paths.thy ===== *)
theory Paths
  imports Prelude
begin

text \<open>
  Go's \<open>path/filepath\<close> on Unix, as far as the service uses it: \<open>Clean\<close>, \<open>Join\<close> and \<open>Base\<close>.
\<close>

abbreviation slash :: char where "slash \<equiv> CHR ''/''"

text \<open>The component stack of \<open>Clean\<close>, innermost component first.\<close>

fun clean_comps :: "bool \<Rightarrow> string list \<Rightarrow> string list \<Rightarrow> string list" where
  "clean_comps rooted st [] = rev st"
| "clean_comps rooted st (c # cs) =
     (if c = '''' \<or> c = ''.'' then clean_comps rooted st cs
      else if c = ''..'' then
        (case st of
           [] \<Rightarrow> clean_comps rooted (if rooted then [] else [c]) cs
         | t # ts \<Rightarrow> if t = ''..'' then clean_comps rooted (c # st) cs else clean_comps rooted ts cs)
      else clean_comps rooted (c # st) cs)"

definition path_Clean :: "string \<Rightarrow> string" where
  "path_Clean s =
     (if s = [] then ''.''
      else let rooted = (hd s = slash); comps = clean_comps rooted [] (split_on slash s) in
        if rooted then slash # join_with slash comps
        else if comps = [] then ''.'' else join_with slash comps)"

definition path_Join :: "string list \<Rightarrow> string" where
  "path_Join es =
     (case dropWhile (\<lambda>e. e = []) es of [] \<Rightarrow> [] | es' \<Rightarrow> path_Clean (join_with slash es'))"

definition path_Base :: "string \<Rightarrow> string" where
  "path_Base s =
     (if s = [] then ''.''
      else case rev (dropWhile (\<lambda>c. c = slash) (rev s)) of
          [] \<Rightarrow> [slash]
        | t \<Rightarrow> last (split_on slash t))"

text \<open>A component that \<open>Clean\<close> leaves alone.\<close>

definition normal_comp :: "string \<Rightarrow> bool" where
  "normal_comp c \<longleftrightarrow> c \<noteq> '''' \<and> c \<noteq> ''.'' \<and> c \<noteq> ''..'' \<and> slash \<notin> set c"

lemma clean_comps_normal:
  "\<forall>c \<in> set cs. normal_comp c \<Longrightarrow> clean_comps rooted st cs = rev st @ cs"
  by (induction cs arbitrary: st) (auto simp: normal_comp_def)

text \<open>The shape of a cleaned path: leading \<open>..\<close> components (none when rooted), then normal ones.\<close>

definition clean_shape :: "bool \<Rightarrow> string list \<Rightarrow> bool" where
  "clean_shape rooted cs \<longleftrightarrow>
     (\<exists>n ns. cs = replicate n ''..'' @ ns \<and> (rooted \<longrightarrow> n = 0) \<and> (\<forall>c \<in> set ns. normal_comp c))"

lemma clean_shape_push: "clean_shape rooted cs \<Longrightarrow> normal_comp c \<Longrightarrow> clean_shape rooted (cs @ [c])"
proof -
  assume "clean_shape rooted cs" and c: "normal_comp c"
  then obtain n ns where n: "cs = replicate n ''..'' @ ns" "rooted \<longrightarrow> n = 0" "\<forall>c \<in> set ns. normal_comp c"
    by (auto simp: clean_shape_def)
  with c show ?thesis unfolding clean_shape_def by (intro exI [of _ n] exI [of _ "ns @ [c]"]) auto
qed

lemma clean_shape_pop: "clean_shape rooted (cs @ [t]) \<Longrightarrow> clean_shape rooted cs"
proof -
  assume "clean_shape rooted (cs @ [t])"
  then obtain n ns where n: "cs @ [t] = replicate n ''..'' @ ns" "rooted \<longrightarrow> n = 0" "\<forall>c \<in> set ns. normal_comp c"
    by (auto simp: clean_shape_def)
  show ?thesis
  proof (cases ns rule: rev_cases)
    case Nil
    then have "cs = replicate (n - 1) ''..''"
      using n(1) by (metis append_Nil2 butlast_snoc length_replicate butlast_conv_take take_replicate
          length_butlast min.absorb2 diff_le_self)
    with n(2) show ?thesis unfolding clean_shape_def by (intro exI [of _ "n - 1"] exI [of _ "[]"]) auto
  next
    case (snoc ms m)
    with n have "cs = replicate n ''..'' @ ms" by simp
    with n snoc show ?thesis unfolding clean_shape_def by auto
  qed
qed

lemma clean_shape_dots:
  "clean_shape rooted (cs @ [''..'']) \<Longrightarrow> \<not> rooted \<Longrightarrow> clean_shape rooted (cs @ [''..'', ''..''])"
proof -
  assume sh: "clean_shape rooted (cs @ [''..''])" and nr: "\<not> rooted"
  then obtain n ns where n: "cs @ [''..''] = replicate n ''..'' @ ns" "\<forall>c \<in> set ns. normal_comp c"
    by (auto simp: clean_shape_def)
  have "ns = []" using n by (cases ns rule: rev_cases) (auto simp: normal_comp_def)
  with n have "cs @ [''..'', ''..''] = replicate (Suc n) ''..'' @ []"
    by (metis append.assoc append_Cons append_Nil append_Nil2 replicate_Suc replicate_append_same)
  then show ?thesis unfolding clean_shape_def using nr by (intro exI [of _ "Suc n"] exI [of _ "[]"]) simp
qed

text \<open>The stack after one component.\<close>

definition clean_push :: "bool \<Rightarrow> string list \<Rightarrow> string \<Rightarrow> string list" where
  "clean_push rooted st c =
     (if c = '''' \<or> c = ''.'' then st
      else if c = ''..'' then
        (case st of [] \<Rightarrow> if rooted then [] else [c] | t # ts \<Rightarrow> if t = ''..'' then c # st else ts)
      else c # st)"

lemma clean_comps_push: "clean_comps rooted st (c # cs) = clean_comps rooted (clean_push rooted st c) cs"
  by (simp only: clean_comps.simps clean_push_def split: if_split list.split) simp

lemma clean_push_shape:
  assumes "clean_shape rooted (rev st)" "slash \<notin> set c"
  shows "clean_shape rooted (rev (clean_push rooted st c))"
proof (cases "c = '''' \<or> c = ''.''")
  case True
  with assms(1) show ?thesis by (simp only: clean_push_def if_True)
next
  case nd: False
  show ?thesis
  proof (cases "c = ''..''")
    case dots: True
    show ?thesis
    proof (cases st)
      case Nil
      have "clean_shape rooted (rev (if rooted then [] else [c]))"
        using dots by (cases rooted) (auto simp: clean_shape_def intro: exI [of _ "Suc 0"])
      with dots nd Nil show ?thesis by (simp only: clean_push_def if_False if_True list.case simp_thms)
    next
      case (Cons t ts)
      have sh: "clean_shape rooted (rev ts @ [t])" using assms(1) Cons by simp
      have "\<not> rooted" if "t = ''..''"
        using sh that by (cases rooted) (simp_all add: clean_shape_def normal_comp_def)
      then have "clean_shape rooted (rev (if t = ''..'' then c # st else ts))"
        using clean_shape_pop [OF sh] clean_shape_dots [of rooted "rev ts"] sh dots Cons by (cases "t = ''..''") simp_all
      with dots nd Cons show ?thesis by (simp only: clean_push_def if_False if_True list.case simp_thms)
    qed
  next
    case ndots: False
    then have "normal_comp c" using nd assms(2) unfolding normal_comp_def by blast
    with clean_shape_push [OF assms(1)] nd ndots show ?thesis by (simp only: clean_push_def if_False rev.simps)
  qed
qed

lemma clean_comps_shape:
  "clean_shape rooted (rev st) \<Longrightarrow> \<forall>c \<in> set cs. slash \<notin> set c \<Longrightarrow> clean_shape rooted (clean_comps rooted st cs)"
proof (induction cs arbitrary: st)
  case (Cons c cs)
  then have "clean_shape rooted (rev (clean_push rooted st c))" by (intro clean_push_shape) simp_all
  from Cons.IH [OF this] Cons.prems(2) show ?case by (simp add: clean_comps_push del: clean_comps.simps)
qed simp


lemma split_on_join_rooted:
  "\<forall>c \<in> set cs. slash \<notin> set c \<Longrightarrow> cs \<noteq> [] \<Longrightarrow> split_on slash (slash # join_with slash cs) = [] # cs"
  by (simp add: split_join)

lemma path_Clean_normal:
  assumes "cs \<noteq> []" "\<forall>c \<in> set cs. normal_comp c"
  shows "path_Clean (slash # join_with slash cs) = slash # join_with slash cs"
proof -
  have "split_on slash (slash # join_with slash cs) = [] # cs"
    by (rule split_on_join_rooted) (use assms in \<open>auto simp: normal_comp_def\<close>)
  then show ?thesis using clean_comps_normal [OF assms(2)] by (simp add: path_Clean_def)
qed

lemma join_with_append:
  "xs \<noteq> [] \<Longrightarrow> ys \<noteq> [] \<Longrightarrow> join_with c (xs @ ys) = join_with c xs @ c # join_with c ys"
proof (induction c xs rule: join_with.induct)
  case (2 c p)
  then show ?case by (cases ys) auto
qed auto

lemma path_Join_normal:
  assumes "cs \<noteq> []" "\<forall>c \<in> set (cs @ ds). normal_comp c"
  shows "path_Join ((slash # join_with slash cs) # ds) = slash # join_with slash (cs @ ds)"
proof (cases "ds = []")
  case True
  with assms show ?thesis by (simp add: path_Join_def path_Clean_normal)
next
  case False
  have "path_Join ((slash # join_with slash cs) # ds) = path_Clean (slash # join_with slash (cs @ ds))"
    using False assms(1) by (cases ds) (simp_all add: path_Join_def join_with_append)
  then show ?thesis using path_Clean_normal [of "cs @ ds"] assms by simp
qed

lemma path_Base_no_slash: "slash \<notin> set (path_Base s) \<or> path_Base s = [slash]"
proof -
  have "slash \<notin> set (last (split_on slash t))" for t
    using split_on_parts [OF last_in_set [OF split_on_nonempty]] .
  moreover have "path_Base s = ''.'' \<or> path_Base s = [slash] \<or> (\<exists>t. path_Base s = last (split_on slash t))"
    by (cases "s = []"; cases "rev (dropWhile (\<lambda>c. c = slash) (rev s))"; simp only: path_Base_def if_True if_False list.case refl; blast)
  moreover have "slash \<notin> set ''.''" by simp
  ultimately show ?thesis by metis
qed

end
