(* ===== verification/Fleet_Volumes.thy ===== *)
theory Fleet_Volumes
  imports Fleet_Entities Net_Lease_Repo Paths
begin

text \<open>
  Persistent volumes: the backing files of \<open>internal/infrastructure/volume/backing.go\<close>, the rows of
  \<open>internal/repository/postgres/fleet_volume_repository.go\<close> (migrations 0017 and 0024) and the manager
  of \<open>internal/usecase/fleet_volume_manager.go\<close>.

  The state holds the volume rows, this host's files, and a script: before each statement of this
  process, the statements other processes commit, and whether the statement itself is lost.  What the
  file system answers to each call is a parameter.  Fresh identifiers and the clock are arguments.
\<close>

section \<open>Backing files\<close>

text \<open>A file: its size, what \<open>blkid\<close> reads from its superblock (filesystem uuid and label), and its
  contents.\<close>

record backing_file =
  bf_bytes :: int
  bf_ident :: "(string \<times> string) option"
  bf_data :: nat

type_synonym host_files = "(string \<times> backing_file) list"

record backing_env =
  be_uuidString :: "uuid \<Rightarrow> string"
  be_mkdirAll :: bool
  be_statable :: "string \<Rightarrow> bool"
  be_create :: bool
  be_truncate :: bool
  be_close :: bool
  be_mkfs :: bool
  be_remove :: "string \<Rightarrow> bool"
  be_readDir :: "string \<Rightarrow> bool"

datatype VolumeEnsureMode = VolumeEnsureCreate | VolumeEnsureAdopt | VolumeEnsureModeOther string

record VolumeEnsureInput =
  ve_VolumeID :: uuid
  ve_SizeMB :: int
  ve_Dir :: string
  ve_Mode :: VolumeEnsureMode

record VolumeEnsureOutput =
  vx_BackingPath :: string
  vx_Created :: bool

definition minBackingMB :: int where "minBackingMB = 32"

definition stampLabel :: string where "stampLabel = ''sentiae-vol''"

definition failedRestoreInfix :: string where "failedRestoreInfix = ''.failed-''"

definition prerestoreSuffix :: string where "prerestoreSuffix = ''.prerestore''"

definition path_Dir :: "string \<Rightarrow> string" where
  "path_Dir s = path_Clean (rev (dropWhile (\<lambda>c. c \<noteq> slash) (rev s)))"

definition put_file :: "string \<Rightarrow> backing_file \<Rightarrow> host_files \<Rightarrow> host_files" where
  "put_file p f fs = (p, f) # filter (\<lambda>e. fst e \<noteq> p) fs"

text \<open>\<open>os.Remove\<close>: a removal the host refuses leaves the file.\<close>

definition remove_file :: "backing_env \<Rightarrow> string \<Rightarrow> host_files \<Rightarrow> host_files" where
  "remove_file env p fs = (if be_remove env p then filter (\<lambda>e. fst e \<noteq> p) fs else fs)"

definition backingBytes :: "int \<Rightarrow> int" where
  "backingBytes sizeMB = go_mul (go_mul (if sizeMB < minBackingMB then minBackingMB else sizeMB) 1024) 1024"

definition equal_fold :: "string \<Rightarrow> string \<Rightarrow> bool" where
  "equal_fold a b \<longleftrightarrow> map ascii_lower a = map ascii_lower b"

text \<open>A probe that reports no filesystem uuid is an error.\<close>

definition probeExtIdentity :: "backing_file \<Rightarrow> (string \<times> string) option" where
  "probeExtIdentity f = (case bf_ident f of None \<Rightarrow> None | Some (u, l) \<Rightarrow> if u = '''' then None else Some (u, l))"

definition verifyAdopted :: "backing_env \<Rightarrow> VolumeEnsureInput \<Rightarrow> backing_file \<Rightarrow> unit vol_result" where
  "verifyAdopted env inp f =
     (if bf_bytes f < backingBytes (ve_SizeMB inp) then Inl (VolResource ErrVolumeBackingFileUndersized)
      else (case probeExtIdentity f of
          None \<Rightarrow> Inr ()
        | Some (u, label) \<Rightarrow>
            if label \<noteq> stampLabel then Inr ()
            else if \<not> equal_fold u (be_uuidString env (ve_VolumeID inp)) then Inl (VolResource ErrVolumeIdentityMismatch)
            else Inr ()))"

definition backing_path :: "backing_env \<Rightarrow> string \<Rightarrow> uuid \<Rightarrow> string" where
  "backing_path env dir i = path_Join [dir, be_uuidString env i @ ''.ext4'']"

definition BackingStore_Ensure ::
  "backing_env \<Rightarrow> VolumeEnsureInput \<Rightarrow> host_files \<Rightarrow> VolumeEnsureOutput vol_result \<times> host_files" where
  "BackingStore_Ensure env inp fs =
     (if ve_Dir inp = '''' then (Inl VolOther, fs)
      else if ve_Mode inp \<noteq> VolumeEnsureCreate \<and> ve_Mode inp \<noteq> VolumeEnsureAdopt then (Inl VolOther, fs)
      else if \<not> be_mkdirAll env then (Inl VolOther, fs)
      else let path = backing_path env (ve_Dir inp) (ve_VolumeID inp) in
        if \<not> be_statable env path then (Inl VolOther, fs)
        else (case map_of fs path of
            Some f \<Rightarrow>
              (case (if ve_Mode inp = VolumeEnsureAdopt then verifyAdopted env inp f else Inr ()) of
                 Inl e \<Rightarrow> (Inl e, fs)
               | Inr _ \<Rightarrow> (Inr \<lparr>vx_BackingPath = path, vx_Created = False\<rparr>, fs))
          | None \<Rightarrow>
              if ve_Mode inp = VolumeEnsureAdopt then (Inl (VolResource ErrVolumeBackingFileMissing), fs)
              else if \<not> be_create env then (Inl VolOther, fs)
              else let empty = \<lparr>bf_bytes = 0, bf_ident = None, bf_data = 0\<rparr> in
                if \<not> be_truncate env then (Inl VolOther, remove_file env path (put_file path empty fs))
                else let sized = empty\<lparr>bf_bytes := backingBytes (ve_SizeMB inp)\<rparr> in
                  if \<not> be_close env then (Inl VolOther, remove_file env path (put_file path sized fs))
                  else if \<not> be_mkfs env then (Inl VolOther, remove_file env path (put_file path sized fs))
                  else (Inr \<lparr>vx_BackingPath = path, vx_Created = True\<rparr>,
                    put_file path (sized\<lparr>bf_ident := Some (be_uuidString env (ve_VolumeID inp), stampLabel)\<rparr>) fs)))"

definition siblingOf :: "string \<Rightarrow> string \<Rightarrow> string \<Rightarrow> bool \<Rightarrow> bool" where
  "siblingOf name failedPrefix prerestore livePresent =
     (if length name > length failedPrefix \<and> take (length failedPrefix) name = failedPrefix then True
      else livePresent \<and> name = prerestore)"

text \<open>The removal loop over the directory listing; \<open>False\<close> of the flag is the first error kept.\<close>

fun remove_siblings :: "backing_env \<Rightarrow> string \<Rightarrow> (string \<Rightarrow> bool) \<Rightarrow> string list \<Rightarrow> bool \<Rightarrow> host_files \<Rightarrow> bool \<times> host_files" where
  "remove_siblings env dir sib [] ok fs = (ok, fs)"
| "remove_siblings env dir sib (name # names) ok fs =
     (if \<not> sib name then remove_siblings env dir sib names ok fs
      else let p = path_Join [dir, name] in
        remove_siblings env dir sib names (ok \<and> (be_remove env p \<or> map_of fs p = None)) (remove_file env p fs))"

definition removeRestoreSiblings ::
  "backing_env \<Rightarrow> string \<Rightarrow> bool \<Rightarrow> host_files \<Rightarrow> unit vol_result \<times> host_files" where
  "removeRestoreSiblings env backingPath livePresent fs =
     (let dir = path_Dir backingPath; base = path_Base backingPath;
          failedPrefix = base @ failedRestoreInfix; prerestore = base @ prerestoreSuffix;
          entries = map path_Base (filter (\<lambda>p. path_Dir p = dir) (map fst fs))
      in if \<not> be_readDir env dir then (Inl VolOther, fs)
         else (case remove_siblings env dir (\<lambda>n. siblingOf n failedPrefix prerestore livePresent) entries True fs of
             (ok, fs') \<Rightarrow> (if ok then Inr () else Inl VolOther, fs')))"

definition BackingStore_Delete :: "backing_env \<Rightarrow> string \<Rightarrow> host_files \<Rightarrow> unit vol_result \<times> host_files" where
  "BackingStore_Delete env backingPath fs =
     (if backingPath = '''' then (Inr (), fs)
      else if \<not> be_statable env backingPath then (Inl VolOther, fs)
      else let livePresent = (map_of fs backingPath \<noteq> None) in
        if livePresent \<and> \<not> be_remove env backingPath then (Inl VolOther, fs)
        else removeRestoreSiblings env backingPath livePresent (remove_file env backingPath fs))"

text \<open>The backend port of the manager.\<close>

record 'f VolumeBackend =
  vb_Ensure :: "VolumeEnsureInput \<Rightarrow> 'f \<Rightarrow> VolumeEnsureOutput vol_result \<times> 'f"
  vb_Delete :: "string \<Rightarrow> 'f \<Rightarrow> unit vol_result \<times> 'f"

definition BackingStore :: "backing_env \<Rightarrow> host_files VolumeBackend" where
  "BackingStore env = \<lparr>vb_Ensure = BackingStore_Ensure env, vb_Delete = BackingStore_Delete env\<rparr>"

definition FailLoudVolumeBackend :: "'f VolumeBackend" where
  "FailLoudVolumeBackend = \<lparr>vb_Ensure = (\<lambda>inp fs. (Inl (VolFleet ErrVolumeBackendUnavailable), fs)),
     vb_Delete = (\<lambda>p fs. (Inl (VolFleet ErrVolumeBackendUnavailable), fs))\<rparr>"

section \<open>Volume rows\<close>

text \<open>The primary key, the unique index on (app, mount) and the owner check; a null app is never equal to
  another one.\<close>

definition volume_conflict :: "Volume \<Rightarrow> Volume \<Rightarrow> bool" where
  "volume_conflict a b \<longleftrightarrow> vo_ID a = vo_ID b \<or>
     (vo_AppID a \<noteq> None \<and> vo_AppID a = vo_AppID b \<and> vo_MountPath a = vo_MountPath b)"

definition volume_checks :: "Volume \<Rightarrow> bool" where
  "volume_checks v \<longleftrightarrow> vo_ResourceID v \<noteq> None \<or> vo_AppID v \<noteq> None"

definition insert_volume :: "Volume \<Rightarrow> Volume list \<Rightarrow> Volume list option" where
  "insert_volume v rs =
     (if volume_checks v \<and> (\<forall>r \<in> set rs. \<not> volume_conflict r v) then Some (rs @ [v]) else None)"

definition save_volume :: "Volume \<Rightarrow> Volume list \<Rightarrow> Volume list option" where
  "save_volume v rs =
     (if \<exists>r \<in> set rs. vo_ID r = vo_ID v then
        (if volume_checks v \<and> (\<forall>r \<in> set rs. vo_ID r \<noteq> vo_ID v \<longrightarrow> \<not> volume_conflict r v)
         then Some (map (\<lambda>r. if vo_ID r = vo_ID v then v else r) rs) else None)
      else insert_volume v rs)"

definition delete_volume :: "uuid \<Rightarrow> Volume list \<Rightarrow> Volume list" where
  "delete_volume i rs = filter (\<lambda>r. vo_ID r \<noteq> i) rs"

definition app_volumes :: "uuid \<Rightarrow> Volume list \<Rightarrow> Volume list" where
  "app_volumes appID rs = sort_key vo_CreatedAt (filter (\<lambda>r. vo_AppID r = Some appID) rs)"

datatype VolumeBindOutcome = VolumeBindNoVolumes | VolumeBindBound | VolumeBindAlreadyBound | VolumeBindConflict

datatype VolumeHostBindOutcome = VolumeHostBindBound | VolumeHostBindAlreadyBound | VolumeHostBindConflict

text \<open>The two transactions: the row locks make each one statement.\<close>

definition bind_resource :: "uuid \<Rightarrow> uuid \<Rightarrow> instant \<Rightarrow> Volume list \<Rightarrow> VolumeBindOutcome \<times> Volume list" where
  "bind_resource appID resourceID now rs =
     (let vols = app_volumes appID rs in
      if vols = [] then (VolumeBindNoVolumes, rs)
      else if \<exists>v \<in> set vols. vo_ResourceID v \<noteq> None \<and> vo_ResourceID v \<noteq> Some resourceID then (VolumeBindConflict, rs)
      else if \<exists>v \<in> set vols. vo_ResourceID v = None then
        (VolumeBindBound, map (\<lambda>r. if vo_AppID r = Some appID \<and> vo_ResourceID r = None
           then r\<lparr>vo_ResourceID := Some resourceID, vo_UpdatedAt := now\<rparr> else r) rs)
      else (VolumeBindAlreadyBound, rs))"

definition bind_host :: "uuid \<Rightarrow> uuid \<Rightarrow> instant \<Rightarrow> Volume list \<Rightarrow> VolumeHostBindOutcome vol_result \<times> Volume list" where
  "bind_host volumeID hostID now rs =
     (case find (\<lambda>v. vo_ID v = volumeID) rs of
        None \<Rightarrow> (Inl (VolFleet ErrVolumeNotFound), rs)
      | Some v \<Rightarrow> (case vo_HostAffinity v of
          Some h \<Rightarrow> (Inr (if h = hostID then VolumeHostBindAlreadyBound else VolumeHostBindConflict), rs)
        | None \<Rightarrow> (Inr VolumeHostBindBound,
            map (\<lambda>r. if vo_ID r = volumeID \<and> vo_HostAffinity r = None
              then r\<lparr>vo_HostAffinity := Some hostID, vo_UpdatedAt := now\<rparr> else r) rs)))"

datatype volume_stmt = InsertVolume Volume | SaveVolume Volume | DeleteVolume uuid
  | BindResource uuid uuid instant | BindHost uuid uuid instant

fun exec_volume_stmt :: "volume_stmt \<Rightarrow> Volume list \<Rightarrow> Volume list" where
  "exec_volume_stmt (InsertVolume v) rs = (case insert_volume v rs of None \<Rightarrow> rs | Some rs' \<Rightarrow> rs')"
| "exec_volume_stmt (SaveVolume v) rs = (case save_volume v rs of None \<Rightarrow> rs | Some rs' \<Rightarrow> rs')"
| "exec_volume_stmt (DeleteVolume i) rs = delete_volume i rs"
| "exec_volume_stmt (BindResource a r now) rs = snd (bind_resource a r now rs)"
| "exec_volume_stmt (BindHost v h now) rs = snd (bind_host v h now rs)"

record volume_event =
  vv_before :: "volume_stmt list"
  vv_fault :: fault

record 'f vol_world =
  vw_rows :: "Volume list"
  vw_script :: "volume_event list"
  vw_files :: 'f

definition next_volume_event :: "'f vol_world \<Rightarrow> fault \<times> 'f vol_world" where
  "next_volume_event w =
     (case vw_script w of
        [] \<Rightarrow> (NoFault, w)
      | e # es \<Rightarrow> (vv_fault e, w\<lparr>vw_rows := fold exec_volume_stmt (vv_before e) (vw_rows w), vw_script := es\<rparr>))"

definition vread :: "(Volume list \<Rightarrow> 'a vol_result) \<Rightarrow> 'f vol_world \<Rightarrow> 'a vol_result \<times> 'f vol_world" where
  "vread q w0 =
     (case next_volume_event w0 of (f, w) \<Rightarrow> (if f = NoFault then q (vw_rows w) else Inl VolOther, w))"

text \<open>A write statement answers and yields the rows it leaves.\<close>

definition vwrite ::
  "(Volume list \<Rightarrow> 'a vol_result \<times> Volume list) \<Rightarrow> 'f vol_world \<Rightarrow> 'a vol_result \<times> 'f vol_world" where
  "vwrite stmt w0 =
     (case next_volume_event w0 of (f, w) \<Rightarrow>
        if f = LostCall then (Inl VolOther, w)
        else (case stmt (vw_rows w) of (r, rs) \<Rightarrow> (if f = NoFault then r else Inl VolOther, w\<lparr>vw_rows := rs\<rparr>)))"

definition or_violation :: "Volume list \<Rightarrow> Volume list option \<Rightarrow> unit vol_result \<times> Volume list" where
  "or_violation rs r = (case r of None \<Rightarrow> (Inl VolOther, rs) | Some rs' \<Rightarrow> (Inr (), rs'))"

definition volumeRepository_Create :: "Volume \<Rightarrow> 'f vol_world \<Rightarrow> unit vol_result \<times> 'f vol_world" where
  "volumeRepository_Create v = vwrite (\<lambda>rs. or_violation rs (insert_volume v rs))"

definition volumeRepository_ListByApp :: "uuid \<Rightarrow> 'f vol_world \<Rightarrow> Volume list vol_result \<times> 'f vol_world" where
  "volumeRepository_ListByApp appID = vread (\<lambda>rs. Inr (app_volumes appID rs))"

definition volumeRepository_FindByID :: "uuid \<Rightarrow> 'f vol_world \<Rightarrow> Volume vol_result \<times> 'f vol_world" where
  "volumeRepository_FindByID i =
     vread (\<lambda>rs. case find (\<lambda>v. vo_ID v = i) rs of None \<Rightarrow> Inl (VolFleet ErrVolumeNotFound) | Some v \<Rightarrow> Inr v)"

definition volumeRepository_Update :: "Volume \<Rightarrow> 'f vol_world \<Rightarrow> unit vol_result \<times> 'f vol_world" where
  "volumeRepository_Update v = vwrite (\<lambda>rs. or_violation rs (save_volume v rs))"

definition volumeRepository_Delete :: "uuid \<Rightarrow> 'f vol_world \<Rightarrow> unit vol_result \<times> 'f vol_world" where
  "volumeRepository_Delete i = vwrite (\<lambda>rs. (Inr (), delete_volume i rs))"

definition volumeRepository_BindVolumesToResource ::
  "uuid \<Rightarrow> uuid \<Rightarrow> instant \<Rightarrow> 'f vol_world \<Rightarrow> VolumeBindOutcome vol_result \<times> 'f vol_world" where
  "volumeRepository_BindVolumesToResource appID resourceID now =
     vwrite (\<lambda>rs. case bind_resource appID resourceID now rs of (r, rs') \<Rightarrow> (Inr r, rs'))"

definition volumeRepository_BindHostAffinity ::
  "uuid \<Rightarrow> uuid \<Rightarrow> instant \<Rightarrow> 'f vol_world \<Rightarrow> VolumeHostBindOutcome vol_result \<times> 'f vol_world" where
  "volumeRepository_BindHostAffinity volumeID hostID now = vwrite (bind_host volumeID hostID now)"

definition volumeRepository_HasUnstampedVolumes :: "uuid \<Rightarrow> 'f vol_world \<Rightarrow> bool vol_result \<times> 'f vol_world" where
  "volumeRepository_HasUnstampedVolumes appID =
     vread (\<lambda>rs. Inr (\<exists>v \<in> set rs. vo_AppID v = Some appID \<and> vo_ResourceID v = None))"

definition volumeRepository_ListByResource :: "uuid \<Rightarrow> 'f vol_world \<Rightarrow> Volume list vol_result \<times> 'f vol_world" where
  "volumeRepository_ListByResource i =
     vread (\<lambda>rs. Inr (sort_key vo_CreatedAt (filter (\<lambda>r. vo_ResourceID r = Some i) rs)))"

definition volumeRepository_ListByHost :: "uuid \<Rightarrow> 'f vol_world \<Rightarrow> Volume list vol_result \<times> 'f vol_world" where
  "volumeRepository_ListByHost i =
     vread (\<lambda>rs. Inr (sort_key vo_CreatedAt (filter (\<lambda>r. vo_HostAffinity r = Some i) rs)))"

section \<open>The manager\<close>

definition defaultVolumeMount :: string where "defaultVolumeMount = ''/data''"

record VolumeSpecInput =
  vs_ID :: uuid
  vs_SizeMB :: int
  vs_MountPath :: string

text \<open>Of a resource claim the manager reads whether it is retired: \<open>ClaimRow\<close> carries the claim's
  \<open>DecommissionedAt\<close>.  The ledger is a read-only port.\<close>

datatype claim_reply = ClaimMissing | ClaimUnreadable | ClaimRow "instant option"

record 'f FleetVolumeManager =
  vm_backend :: "'f VolumeBackend"
  vm_dir :: string
  vm_resources :: "(uuid \<Rightarrow> claim_reply) option"
  vm_selfHost :: uuid

definition on_files :: "('f \<Rightarrow> 'a \<times> 'f) \<Rightarrow> 'f vol_world \<Rightarrow> 'a \<times> 'f vol_world" where
  "on_files op w = (case op (vw_files w) of (r, fs) \<Rightarrow> (r, w\<lparr>vw_files := fs\<rparr>))"

definition ownedVolumes :: "'f FleetVolumeManager \<Rightarrow> uuid \<Rightarrow> 'f vol_world \<Rightarrow> Volume list vol_result \<times> 'f vol_world" where
  "ownedVolumes m appID w =
     (case volumeRepository_ListByApp appID w of
        (Inl e, w1) \<Rightarrow> (Inl e, w1)
      | (Inr vols, w1) \<Rightarrow>
          (if \<exists>v \<in> set vols. vo_HostAffinity v = None \<or> vo_HostAffinity v \<noteq> Some (vm_selfHost m)
           then Inl (VolFleet ErrVolumeHostMismatch) else Inr vols, w1))"

definition deleteOwnAttempt ::
  "'f FleetVolumeManager \<Rightarrow> Volume \<Rightarrow> VolumeEnsureOutput \<Rightarrow> 'f vol_world \<Rightarrow> 'f vol_world" where
  "deleteOwnAttempt m attempt out w =
     (if \<not> vx_Created out \<or> vo_BackingPath attempt = '''' then w
      else snd (on_files (vb_Delete (vm_backend m) (vo_BackingPath attempt)) w))"

definition compensateCreate ::
  "'f FleetVolumeManager \<Rightarrow> uuid \<Rightarrow> string \<Rightarrow> Volume \<Rightarrow> VolumeEnsureOutput \<Rightarrow> volume_error \<Rightarrow> 'f vol_world \<Rightarrow>
   Volume vol_result \<times> 'f vol_world" where
  "compensateCreate m appID mount attempt out cause w =
     (case volumeRepository_ListByApp appID w of
        (Inl lerr, w1) \<Rightarrow> (Inl lerr, w1)
      | (Inr after, w1) \<Rightarrow>
        (case find (\<lambda>v. vo_MountPath v = mount) after of
           None \<Rightarrow> (Inl cause, deleteOwnAttempt m attempt out w1)
         | Some winner \<Rightarrow>
             if vo_ID winner = vo_ID attempt \<and> vo_BackingPath winner = vo_BackingPath attempt \<and>
                vo_HostAffinity winner = Some (vm_selfHost m)
             then (Inr winner, w1)
             else (if vo_HostAffinity winner = None \<or> vo_HostAffinity winner \<noteq> Some (vm_selfHost m)
                   then Inl (VolFleet ErrVolumeHostMismatch) else Inl cause, deleteOwnAttempt m attempt out w1)))"

text \<open>One spec whose (app, mount) the ledger already records.\<close>

definition adopt_volume ::
  "'f FleetVolumeManager \<Rightarrow> Volume \<Rightarrow> instant \<Rightarrow> 'f vol_world \<Rightarrow> Volume vol_result \<times> 'f vol_world" where
  "adopt_volume m vol now w =
     (if vo_HostAffinity vol \<noteq> None \<and> vo_HostAffinity vol \<noteq> Some (vm_selfHost m)
      then (Inl (VolFleet ErrVolumeHostMismatch), w)
      else (case on_files (vb_Ensure (vm_backend m) \<lparr>ve_VolumeID = vo_ID vol, ve_SizeMB = vo_SizeMB vol,
                 ve_Dir = vm_dir m, ve_Mode = VolumeEnsureAdopt\<rparr>) w of
          (Inl e, w1) \<Rightarrow> (Inl e, w1)
        | (Inr out, w1) \<Rightarrow>
            if vo_BackingPath vol = '''' then (Inl (VolResource ErrVolumeBackingPathUnset), w1)
            else if vo_BackingPath vol \<noteq> vx_BackingPath out then (Inl VolOther, w1)
            else if vo_HostAffinity vol = None then
              (case volumeRepository_BindHostAffinity (vo_ID vol) (vm_selfHost m) now w1 of
                 (Inl e, w2) \<Rightarrow> (Inl e, w2)
               | (Inr outcome, w2) \<Rightarrow>
                   if outcome = VolumeHostBindConflict then (Inl (VolFleet ErrVolumeHostMismatch), w2)
                   else (Inr (vol\<lparr>vo_HostAffinity := Some (vm_selfHost m)\<rparr>), w2))
            else (Inr vol, w1)))"

definition create_volume ::
  "'f FleetVolumeManager \<Rightarrow> uuid \<Rightarrow> VolumeSpecInput \<Rightarrow> string \<Rightarrow> uuid \<Rightarrow> instant \<Rightarrow> 'f vol_world \<Rightarrow>
   Volume vol_result \<times> 'f vol_world" where
  "create_volume m appID spec mount freshID now w =
     (let vid = (if vs_ID spec = uuid_Nil then freshID else vs_ID spec) in
      case on_files (vb_Ensure (vm_backend m) \<lparr>ve_VolumeID = vid, ve_SizeMB = vs_SizeMB spec,
                 ve_Dir = vm_dir m, ve_Mode = VolumeEnsureCreate\<rparr>) w of
        (Inl e, w1) \<Rightarrow> (Inl e, w1)
      | (Inr out, w1) \<Rightarrow>
          let vol = \<lparr>vo_ID = vid, vo_AppID = Some appID, vo_ResourceID = None, vo_SizeMB = vs_SizeMB spec,
                vo_HostAffinity = Some (vm_selfHost m), vo_SnapshotRef = '''', vo_MountPath = mount,
                vo_BackingPath = vx_BackingPath out, vo_AttachedReplica = None, vo_Status = VolumeStatusAvailable,
                vo_DeviceName = ''/dev/vdb'', vo_CreatedAt = now, vo_UpdatedAt = now\<rparr> in
          (case volumeRepository_Create vol w1 of
             (Inl cerr, w2) \<Rightarrow> compensateCreate m appID mount vol out cerr w2
           | (Inr _, w2) \<Rightarrow> (Inr vol, w2)))"

text \<open>The loop over the specs; each comes with the identifier and the instant it would be stamped with.\<close>

fun ensure_specs ::
  "'f FleetVolumeManager \<Rightarrow> uuid \<Rightarrow> (VolumeSpecInput \<times> uuid \<times> instant) list \<Rightarrow> (string \<rightharpoonup> Volume) \<Rightarrow> Volume list \<Rightarrow>
   'f vol_world \<Rightarrow> Volume list vol_result \<times> 'f vol_world" where
  "ensure_specs m appID [] byMount result w = (Inr result, w)"
| "ensure_specs m appID ((spec, freshID, now) # specs) byMount result w =
     (let mount = (if vs_MountPath spec = '''' then defaultVolumeMount else vs_MountPath spec) in
      case (case byMount mount of
              Some vol \<Rightarrow> adopt_volume m vol now w
            | None \<Rightarrow> create_volume m appID spec mount freshID now w) of
        (Inl e, w1) \<Rightarrow> (Inl e, w1)
      | (Inr vol, w1) \<Rightarrow> ensure_specs m appID specs (byMount(mount \<mapsto> vol)) (result @ [vol]) w1)"

definition EnsureAppVolumes ::
  "'f FleetVolumeManager \<Rightarrow> uuid \<Rightarrow> (VolumeSpecInput \<times> uuid \<times> instant) list \<Rightarrow> 'f vol_world \<Rightarrow>
   Volume list vol_result \<times> 'f vol_world" where
  "EnsureAppVolumes m appID specs w =
     (case volumeRepository_ListByApp appID w of
        (Inl e, w1) \<Rightarrow> (Inl e, w1)
      | (Inr existing, w1) \<Rightarrow>
          ensure_specs m appID specs (fold (\<lambda>v mp. mp(vo_MountPath v \<mapsto> v)) existing Map.empty) [] w1)"

text \<open>The claim guard of a deletion: the first volume whose owner is not proven retired.\<close>

definition claim_refusal :: "'f FleetVolumeManager \<Rightarrow> Volume \<Rightarrow> volume_error option" where
  "claim_refusal m v =
     (case vo_ResourceID v of
        None \<Rightarrow> None
      | Some r \<Rightarrow> (case vm_resources m of
          None \<Rightarrow> Some (VolFleet ErrVolumeOwnedByLiveResource)
        | Some ledger \<Rightarrow> (case ledger r of
            ClaimMissing \<Rightarrow> Some (VolFleet ErrVolumeOwnedByLiveResource)
          | ClaimUnreadable \<Rightarrow> Some VolOther
          | ClaimRow None \<Rightarrow> Some (VolFleet ErrVolumeOwnedByLiveResource)
          | ClaimRow (Some _) \<Rightarrow> None)))"

fun delete_volumes ::
  "'f FleetVolumeManager \<Rightarrow> Volume list \<Rightarrow> volume_error option \<Rightarrow> 'f vol_world \<Rightarrow> volume_error option \<times> 'f vol_world" where
  "delete_volumes m [] firstErr w = (firstErr, w)"
| "delete_volumes m (v # vols) firstErr w =
     (case (if vo_BackingPath v \<noteq> '''' then on_files (vb_Delete (vm_backend m) (vo_BackingPath v)) w else (Inr (), w)) of
        (Inl derr, w1) \<Rightarrow> delete_volumes m vols (if firstErr = None then Some derr else firstErr) w1
      | (Inr _, w1) \<Rightarrow> (case volumeRepository_Delete (vo_ID v) w1 of
          (Inl derr, w2) \<Rightarrow> delete_volumes m vols (if firstErr = None then Some derr else firstErr) w2
        | (Inr _, w2) \<Rightarrow> delete_volumes m vols firstErr w2))"

definition DeleteAppVolumes :: "'f FleetVolumeManager \<Rightarrow> uuid \<Rightarrow> 'f vol_world \<Rightarrow> unit vol_result \<times> 'f vol_world" where
  "DeleteAppVolumes m appID w =
     (case ownedVolumes m appID w of
        (Inl e, w1) \<Rightarrow> (Inl e, w1)
      | (Inr vols, w1) \<Rightarrow>
        (case List.map_filter (claim_refusal m) vols of
           e # _ \<Rightarrow> (Inl e, w1)
         | [] \<Rightarrow> (case delete_volumes m vols None w1 of
             (Some e, w2) \<Rightarrow> (Inl e, w2)
           | (None, w2) \<Rightarrow> (Inr (), w2))))"

definition BindToResource ::
  "'f FleetVolumeManager \<Rightarrow> uuid \<Rightarrow> uuid \<Rightarrow> instant \<Rightarrow> 'f vol_world \<Rightarrow> unit vol_result \<times> 'f vol_world" where
  "BindToResource m appID resourceID now w =
     (case ownedVolumes m appID w of
        (Inl e, w1) \<Rightarrow> (Inl e, w1)
      | (Inr _, w1) \<Rightarrow> (case volumeRepository_BindVolumesToResource appID resourceID now w1 of
          (Inl e, w2) \<Rightarrow> (Inl e, w2)
        | (Inr outcome, w2) \<Rightarrow>
            (if outcome = VolumeBindConflict then Inl (VolFleet ErrVolumeClaimConflict) else Inr (), w2)))"

definition HasUnstampedVolumes :: "uuid \<Rightarrow> 'f vol_world \<Rightarrow> bool vol_result \<times> 'f vol_world" where
  "HasUnstampedVolumes = volumeRepository_HasUnstampedVolumes"

definition HasVolumes :: "uuid \<Rightarrow> 'f vol_world \<Rightarrow> bool vol_result \<times> 'f vol_world" where
  "HasVolumes appID w =
     (case volumeRepository_ListByApp appID w of (Inl e, w1) \<Rightarrow> (Inl e, w1) | (Inr vols, w1) \<Rightarrow> (Inr (vols \<noteq> []), w1))"

definition PrimaryVolume :: "uuid \<Rightarrow> 'f vol_world \<Rightarrow> Volume option vol_result \<times> 'f vol_world" where
  "PrimaryVolume appID w =
     (case volumeRepository_ListByApp appID w of
        (Inl e, w1) \<Rightarrow> (Inl e, w1)
      | (Inr [], w1) \<Rightarrow> (Inr None, w1)
      | (Inr (v # _), w1) \<Rightarrow> (Inr (Some v), w1))"

fun agreed_host :: "Volume list \<Rightarrow> uuid option \<Rightarrow> uuid option vol_result" where
  "agreed_host [] host = Inr host"
| "agreed_host (v # vols) host =
     (case vo_HostAffinity v of
        None \<Rightarrow> Inl (VolFleet ErrVolumeHostMismatch)
      | Some h \<Rightarrow> (case host of
          None \<Rightarrow> agreed_host vols (Some h)
        | Some h0 \<Rightarrow> if h \<noteq> h0 then Inl (VolFleet ErrVolumeHostMismatch) else agreed_host vols host))"

text \<open>The host and whether the app is pinned, as in the source.\<close>

definition AffinityHost :: "uuid \<Rightarrow> 'f vol_world \<Rightarrow> (uuid option \<times> bool) vol_result \<times> 'f vol_world" where
  "AffinityHost appID w =
     (case volumeRepository_ListByApp appID w of
        (Inl e, w1) \<Rightarrow> (Inl e, w1)
      | (Inr vols, w1) \<Rightarrow>
          if vols = [] then (Inr (None, False), w1)
          else (case agreed_host vols None of Inl e \<Rightarrow> (Inl e, w1) | Inr host \<Rightarrow> (Inr (host, True), w1)))"

fun save_all :: "(Volume \<Rightarrow> Volume) \<Rightarrow> Volume list \<Rightarrow> 'f vol_world \<Rightarrow> unit vol_result \<times> 'f vol_world" where
  "save_all upd [] w = (Inr (), w)"
| "save_all upd (v # vols) w =
     (case volumeRepository_Update (upd v) w of (Inl e, w1) \<Rightarrow> (Inl e, w1) | (Inr _, w1) \<Rightarrow> save_all upd vols w1)"

definition AttachTo :: "'f FleetVolumeManager \<Rightarrow> uuid \<Rightarrow> uuid \<Rightarrow> instant \<Rightarrow> 'f vol_world \<Rightarrow> unit vol_result \<times> 'f vol_world" where
  "AttachTo m appID replicaID now w =
     (case ownedVolumes m appID w of
        (Inl e, w1) \<Rightarrow> (Inl e, w1)
      | (Inr vols, w1) \<Rightarrow> save_all (\<lambda>v. v\<lparr>vo_AttachedReplica := Some replicaID, vo_Status := VolumeStatusAttached,
            vo_UpdatedAt := now\<rparr>) vols w1)"

definition DetachFrom :: "'f FleetVolumeManager \<Rightarrow> uuid \<Rightarrow> instant \<Rightarrow> 'f vol_world \<Rightarrow> unit vol_result \<times> 'f vol_world" where
  "DetachFrom m appID now w =
     (case ownedVolumes m appID w of
        (Inl e, w1) \<Rightarrow> (Inl e, w1)
      | (Inr vols, w1) \<Rightarrow> save_all (\<lambda>v. v\<lparr>vo_AttachedReplica := None,
            vo_Status := (if vo_Status v \<noteq> VolumeStatusDegraded \<and> vo_Status v \<noteq> VolumeStatusRestoring
              then VolumeStatusAvailable else vo_Status v), vo_UpdatedAt := now\<rparr>) vols w1)"

definition MarkDegraded :: "uuid \<Rightarrow> instant \<Rightarrow> 'f vol_world \<Rightarrow> unit vol_result \<times> 'f vol_world" where
  "MarkDegraded appID now w =
     (case volumeRepository_ListByApp appID w of
        (Inl e, w1) \<Rightarrow> (Inl e, w1)
      | (Inr vols, w1) \<Rightarrow> save_all (\<lambda>v. v\<lparr>vo_Status := VolumeStatusDegraded, vo_UpdatedAt := now\<rparr>) vols w1)"

definition IsDegraded :: "uuid \<Rightarrow> 'f vol_world \<Rightarrow> bool vol_result \<times> 'f vol_world" where
  "IsDegraded appID w =
     (case volumeRepository_ListByApp appID w of
        (Inl e, w1) \<Rightarrow> (Inl e, w1)
      | (Inr vols, w1) \<Rightarrow> (Inr (\<exists>v \<in> set vols. vo_Status v = VolumeStatusDegraded), w1))"

section \<open>What the backend may touch\<close>

text \<open>The files beside a backing file that a delete of it may reclaim.\<close>

definition restore_sibling :: "string \<Rightarrow> string \<Rightarrow> bool" where
  "restore_sibling path p \<longleftrightarrow>
     (\<exists>name. slash \<notin> set name \<and> p = path_Join [path_Dir path, name] \<and>
        siblingOf name (path_Base path @ failedRestoreInfix) (path_Base path @ prerestoreSuffix) True)"

lemma map_of_filter_key: "map_of (filter (\<lambda>e. fst e \<noteq> p) fs) q = (if q = p then None else map_of fs q)"
  by (induction fs) auto

lemma map_of_put_file: "map_of (put_file p f fs) q = (if q = p then Some f else map_of fs q)"
  by (auto simp: put_file_def map_of_filter_key)

lemma map_of_remove_file:
  "map_of (remove_file env p fs) q = (if q = p \<and> be_remove env p then None else map_of fs q)"
  by (auto simp: remove_file_def map_of_filter_key)

lemma remove_siblings_only:
  assumes "remove_siblings env dir sib names ok fs = (ok', fs')"
  shows "map_of fs' q = map_of fs q \<or> (\<exists>name \<in> set names. sib name \<and> q = path_Join [dir, name])"
  using assms
proof (induction names arbitrary: ok fs)
  case (Cons name names)
  show ?case
  proof (cases "sib name")
    case True
    let ?p = "path_Join [dir, name]"
    from Cons.prems True have "remove_siblings env dir sib names (ok \<and> (be_remove env ?p \<or> map_of fs ?p = None))
        (remove_file env ?p fs) = (ok', fs')" by (simp add: Let_def)
    from Cons.IH [OF this] True show ?thesis by (auto simp: map_of_remove_file split: if_splits)
  next
    case False
    with Cons.prems have "remove_siblings env dir sib names ok fs = (ok', fs')" by simp
    from Cons.IH [OF this] show ?thesis by auto
  qed
qed simp

lemma siblingOf_live: "siblingOf name a b live \<Longrightarrow> siblingOf name a b True"
  by (auto simp: siblingOf_def split: if_splits)

lemma removeRestoreSiblings_only:
  assumes "removeRestoreSiblings env path live fs = (r, fs')" "map_of fs' q \<noteq> map_of fs q"
  shows "restore_sibling path q"
proof -
  let ?sib = "\<lambda>n. siblingOf n (path_Base path @ failedRestoreInfix) (path_Base path @ prerestoreSuffix) live"
  let ?names = "map path_Base (filter (\<lambda>p. path_Dir p = path_Dir path) (map fst fs))"
  obtain ok fs1 where s: "remove_siblings env (path_Dir path) ?sib ?names True fs = (ok, fs1)" by force
  have "fs' = fs \<or> fs' = fs1"
    using assms(1) s by (auto simp: removeRestoreSiblings_def Let_def split: if_splits)
  with assms(2) have "map_of fs1 q \<noteq> map_of fs q" by auto
  with remove_siblings_only [OF s, of q] obtain name where n: "name \<in> set ?names" "?sib name" "q = path_Join [path_Dir path, name]"
    by blast
  from n(2) have "length name > 1"
    by (auto simp: siblingOf_def failedRestoreInfix_def prerestoreSuffix_def split: if_splits)
  with n(1) have "slash \<notin> set name" using path_Base_no_slash by fastforce
  with n show ?thesis unfolding restore_sibling_def using siblingOf_live by blast
qed

lemma Delete_only:
  assumes "BackingStore_Delete env path fs = (r, fs')" "map_of fs' q \<noteq> map_of fs q"
  shows "q = path \<or> restore_sibling path q"
proof (cases "fs' = fs \<or> q = path")
  case True
  with assms(2) show ?thesis by auto
next
  case False
  then obtain live where "removeRestoreSiblings env path live (remove_file env path fs) = (r, fs')"
    using assms(1) by (auto simp: BackingStore_Delete_def Let_def split: if_splits)
  from removeRestoreSiblings_only [OF this] False assms(2) show ?thesis by (auto simp: map_of_remove_file)
qed

lemma Ensure_keeps:
  assumes "BackingStore_Ensure env inp fs = (r, fs')" "map_of fs q = Some f"
  shows "map_of fs' q = Some f"
  using assms
  by (auto simp: BackingStore_Ensure_def Let_def map_of_put_file map_of_remove_file
      split: if_splits option.splits sum.splits)

lemma Ensure_adopt_pure: "ve_Mode inp = VolumeEnsureAdopt \<Longrightarrow> snd (BackingStore_Ensure env inp fs) = fs"
  by (auto simp: BackingStore_Ensure_def Let_def split: option.splits sum.splits)

lemma Ensure_created_fresh:
  assumes "BackingStore_Ensure env inp fs = (Inr out, fs')"
  shows "vx_BackingPath out = backing_path env (ve_Dir inp) (ve_VolumeID inp)"
    and "vx_Created out \<Longrightarrow> map_of fs (vx_BackingPath out) = None"
  using assms
  by (auto simp: BackingStore_Ensure_def Let_def split: if_splits option.splits sum.splits)

text \<open>The backend contract the manager is proved against.\<close>

lemma next_volume_event_files: "next_volume_event w = (f, w') \<Longrightarrow> vw_files w' = vw_files w"
  by (auto simp: next_volume_event_def split: list.splits)

lemma vread_files: "vread q w = (r, w') \<Longrightarrow> vw_files w' = vw_files w"
  by (auto simp: vread_def dest: next_volume_event_files split: prod.splits)

lemma vwrite_files: "vwrite st w = (r, w') \<Longrightarrow> vw_files w' = vw_files w"
  by (auto simp: vwrite_def dest: next_volume_event_files split: prod.splits if_splits)

lemma repo_files:
  "volumeRepository_ListByApp a w = (rl, w') \<Longrightarrow> vw_files w' = vw_files w"
  "volumeRepository_Create v w = (r, w') \<Longrightarrow> vw_files w' = vw_files w"
  "volumeRepository_Update v w = (r, w') \<Longrightarrow> vw_files w' = vw_files w"
  "volumeRepository_Delete i w = (r, w') \<Longrightarrow> vw_files w' = vw_files w"
  "volumeRepository_BindHostAffinity i h t w = (rb, w') \<Longrightarrow> vw_files w' = vw_files w"
  by (simp_all add: volumeRepository_ListByApp_def volumeRepository_Create_def volumeRepository_Update_def
      volumeRepository_Delete_def volumeRepository_BindHostAffinity_def vread_files vwrite_files)

lemma compensateCreate_files:
  assumes "compensateCreate m appID mount attempt out cause w = (r, w')"
  obtains w1 where "vw_files w1 = vw_files w" "w' = w1 \<or> w' = deleteOwnAttempt m attempt out w1"
proof -
  obtain rl w1 where l: "volumeRepository_ListByApp appID w = (rl, w1)" by force
  have "w' = w1 \<or> w' = deleteOwnAttempt m attempt out w1"
    using assms l by (auto simp: compensateCreate_def split: sum.splits option.splits if_splits)
  with repo_files(1) [OF l] show ?thesis by (rule that)
qed

locale volume_backend =
  fixes backend :: "'f VolumeBackend"
    and file_at :: "'f \<Rightarrow> string \<Rightarrow> backing_file option"
    and path_of :: "string \<Rightarrow> uuid \<Rightarrow> string"
  assumes ensure_keeps: "vb_Ensure backend inp fs = (r, fs') \<Longrightarrow> file_at fs q = Some f \<Longrightarrow> file_at fs' q = Some f"
    and ensure_fresh: "vb_Ensure backend inp fs = (Inr out, fs') \<Longrightarrow>
      vx_BackingPath out = path_of (ve_Dir inp) (ve_VolumeID inp) \<and>
      (vx_Created out \<longrightarrow> file_at fs (vx_BackingPath out) = None)"
    and delete_only: "vb_Delete backend path fs = (r', fs') \<Longrightarrow> file_at fs' q \<noteq> file_at fs q \<Longrightarrow>
      q = path \<or> restore_sibling path q"
begin

text \<open>Every file survives unless it is a restore sibling of a volume's backing path.\<close>

definition keeps :: "string \<Rightarrow> 'f \<Rightarrow> 'f \<Rightarrow> bool" where
  "keeps dir fs fs' \<longleftrightarrow> (\<forall>q f. file_at fs q = Some f \<longrightarrow> (\<exists>i. restore_sibling (path_of dir i) q) \<or> file_at fs' q = Some f)"

lemma keeps_ensure:
  assumes "keeps dir fs0 fs" "vb_Ensure backend inp fs = (r, fs')"
  shows "keeps dir fs0 fs'"
  using assms ensure_keeps unfolding keeps_def by blast

lemma keeps_delete_own:
  assumes "keeps dir fs0 fs" "vm_backend m = backend" "file_at fs0 path = None \<or> (\<exists>i. restore_sibling (path_of dir i) path)"
    and "path = path_of dir i" "vo_BackingPath attempt = path" "vw_files w = fs"
  shows "keeps dir fs0 (vw_files (deleteOwnAttempt m attempt out w))"
proof -
  obtain r fs' where d: "vb_Delete backend path fs = (r, fs')" by force
  have "keeps dir fs0 fs'"
    unfolding keeps_def
  proof (intro allI impI)
    fix q f assume q: "file_at fs0 q = Some f"
    show "(\<exists>i. restore_sibling (path_of dir i) q) \<or> file_at fs' q = Some f"
    proof (cases "file_at fs' q = file_at fs q")
      case True
      with assms(1) q show ?thesis by (auto simp: keeps_def)
    next
      case False
      with delete_only [OF d] have "q = path \<or> restore_sibling path q" by blast
      with q assms(3,4) show ?thesis by auto
    qed
  qed
  with assms d show ?thesis by (simp add: deleteOwnAttempt_def on_files_def)
qed

lemma keeps_create:
  assumes "keeps (vm_dir m) fs0 (vw_files w)" "vm_backend m = backend"
    and "create_volume m appID spec mount freshID now w = (r, w')"
  shows "keeps (vm_dir m) fs0 (vw_files w')"
proof -
  define vid where "vid = (if vs_ID spec = uuid_Nil then freshID else vs_ID spec)"
  let ?in = "\<lparr>ve_VolumeID = vid, ve_SizeMB = vs_SizeMB spec, ve_Dir = vm_dir m, ve_Mode = VolumeEnsureCreate\<rparr>"
  obtain r1 fs1 where e: "vb_Ensure backend ?in (vw_files w) = (r1, fs1)" by force
  note k1 = keeps_ensure [OF assms(1) e]
  let ?w1 = "w\<lparr>vw_files := fs1\<rparr>"
  show ?thesis
  proof (cases r1)
    case (Inl x)
    with e assms(2,3) k1 show ?thesis by (auto simp: create_volume_def on_files_def Let_def vid_def)
  next
    case (Inr out)
    define vol where "vol = \<lparr>vo_ID = vid, vo_AppID = Some appID, vo_ResourceID = None, vo_SizeMB = vs_SizeMB spec,
                vo_HostAffinity = Some (vm_selfHost m), vo_SnapshotRef = [], vo_MountPath = mount,
                vo_BackingPath = vx_BackingPath out, vo_AttachedReplica = None, vo_Status = VolumeStatusAvailable,
                vo_DeviceName = ''/dev/vdb'', vo_CreatedAt = now, vo_UpdatedAt = now\<rparr>"
    obtain rc w2 where c: "volumeRepository_Create vol ?w1 = (rc, w2)" by force
    have f2: "vw_files w2 = fs1" using repo_files(2) [OF c] by simp
    have fresh: "vx_BackingPath out = path_of (vm_dir m) vid" "vx_Created out \<Longrightarrow> file_at (vw_files w) (vx_BackingPath out) = None"
      using ensure_fresh [OF e [unfolded Inr]] by auto
    have r: "(r, w') = (case rc of Inl cerr \<Rightarrow> compensateCreate m appID mount vol out cerr w2 | Inr _ \<Rightarrow> (Inr vol, w2))"
      using assms(3) e Inr c assms(2)
      unfolding create_volume_def on_files_def Let_def vid_def [symmetric]
      by (simp add: vol_def split: sum.splits)
    have own: "keeps (vm_dir m) fs0 (vw_files (deleteOwnAttempt m vol out w3))" if "vw_files w3 = fs1" for w3
    proof (cases "vx_Created out")
      case True
      have "file_at fs0 (vx_BackingPath out) = None \<or> (\<exists>i. restore_sibling (path_of (vm_dir m) i) (vx_BackingPath out))"
        using assms(1) fresh(2) [OF True] unfolding keeps_def by (metis option.exhaust option.distinct(1))
      with keeps_delete_own [OF k1 assms(2) _ fresh(1) _ that] show ?thesis by (simp add: vol_def)
    next
      case False
      with that k1 show ?thesis by (simp add: deleteOwnAttempt_def)
    qed
    show ?thesis
    proof (cases rc)
      case (Inl cerr)
      with r have "compensateCreate m appID mount vol out cerr w2 = (r, w')" by simp
      then obtain w3 where "vw_files w3 = vw_files w2" "w' = w3 \<or> w' = deleteOwnAttempt m vol out w3"
        by (rule compensateCreate_files)
      with own f2 k1 show ?thesis by auto
    next
      case (Inr u)
      with r f2 k1 show ?thesis by simp
    qed
  qed
qed

lemma keeps_adopt:
  assumes "keeps (vm_dir m) fs0 (vw_files w)" "vm_backend m = backend" "adopt_volume m vol now w = (r, w')"
  shows "keeps (vm_dir m) fs0 (vw_files w')"
proof -
  let ?in = "\<lparr>ve_VolumeID = vo_ID vol, ve_SizeMB = vo_SizeMB vol, ve_Dir = vm_dir m, ve_Mode = VolumeEnsureAdopt\<rparr>"
  obtain r1 fs1 where e: "vb_Ensure backend ?in (vw_files w) = (r1, fs1)" by force
  note k1 = keeps_ensure [OF assms(1) e]
  have "vw_files w' = vw_files w \<or> vw_files w' = fs1"
    using assms(2,3) e
    by (auto simp: adopt_volume_def on_files_def dest: repo_files(5) split: sum.splits prod.splits if_splits)
  with k1 assms(1) show ?thesis by auto
qed

lemma keeps_specs:
  assumes "keeps (vm_dir m) fs0 (vw_files w)" "vm_backend m = backend"
    and "ensure_specs m appID specs byMount result w = (r, w')"
  shows "keeps (vm_dir m) fs0 (vw_files w')"
  using assms(1,3)
proof (induction specs arbitrary: byMount result w)
  case (Cons x specs)
  obtain spec freshID now where x: "x = (spec, freshID, now)" by (cases x) auto
  define mount where "mount = (if vs_MountPath spec = [] then defaultVolumeMount else vs_MountPath spec)"
  obtain r1 w1 where s: "(case byMount mount of Some vol \<Rightarrow> adopt_volume m vol now w
      | None \<Rightarrow> create_volume m appID spec mount freshID now w) = (r1, w1)" by force
  have k: "keeps (vm_dir m) fs0 (vw_files w1)"
    using s keeps_adopt [OF Cons.prems(1) assms(2)] keeps_create [OF Cons.prems(1) assms(2)]
    by (auto split: option.splits)
  show ?case
  proof (cases r1)
    case (Inl e)
    with Cons.prems(2) s k show ?thesis by (simp add: x Let_def mount_def [symmetric])
  next
    case (Inr vol)
    with Cons.prems(2) s have "ensure_specs m appID specs (byMount(mount \<mapsto> vol)) (result @ [vol]) w1 = (r, w')"
      by (simp add: x Let_def mount_def [symmetric])
    from Cons.IH [OF k this] show ?thesis .
  qed
qed simp

end

interpretation bs: volume_backend "BackingStore env" map_of "backing_path env" for env
proof
  show "map_of fs' q = Some f" if "vb_Ensure (BackingStore env) inp fs = (r, fs')" "map_of fs q = Some f" for inp fs r fs' q f
    using that by (simp add: BackingStore_def Ensure_keeps)
  show "vx_BackingPath out = backing_path env (ve_Dir inp) (ve_VolumeID inp) \<and>
      (vx_Created out \<longrightarrow> map_of fs (vx_BackingPath out) = None)"
    if "vb_Ensure (BackingStore env) inp fs = (Inr out, fs')" for inp fs out fs'
    using that Ensure_created_fresh by (simp add: BackingStore_def)
  show "q = path \<or> restore_sibling path q"
    if "vb_Delete (BackingStore env) path fs = (r, fs')" "map_of fs' q \<noteq> map_of fs q" for path fs r fs' q
    using that Delete_only by (simp add: BackingStore_def)
qed

section \<open>Data safety\<close>

text \<open>Claim C19.  Providing an app's volumes never loses data on this host: whatever rows other processes
  commit meanwhile, whichever statements are lost and whatever the file system refuses, every file that
  was there before is there afterwards with its size, identity and contents, unless it is a restore sibling
  (a .failed- copy or the .prerestore original) of a volume's backing path.  In particular no existing
  backing file is reformatted, and the clean-up of a failed row insert deletes no file that was there before.\<close>

theorem ensure_keeps_every_file:
  assumes "EnsureAppVolumes m appID specs w = (r, w')" "vm_backend m = BackingStore env"
    and "map_of (vw_files w) p = Some f" "\<not> (\<exists>i. restore_sibling (backing_path env (vm_dir m) i) p)"
  shows "map_of (vw_files w') p = Some f"
proof -
  have refl: "bs.keeps env (vm_dir m) fs fs" for fs by (simp add: bs.keeps_def)
  obtain rl w1 where l: "volumeRepository_ListByApp appID w = (rl, w1)" by force
  note f = repo_files(1) [OF l]
  have "bs.keeps env (vm_dir m) (vw_files w) (vw_files w')"
  proof (cases rl)
    case (Inl e)
    with assms(1) l f refl show ?thesis by (simp add: EnsureAppVolumes_def)
  next
    case (Inr vols)
    with assms(1) l have "ensure_specs m appID specs (fold (\<lambda>v mp. mp(vo_MountPath v \<mapsto> v)) vols Map.empty) [] w1 = (r, w')"
      by (simp add: EnsureAppVolumes_def)
    from bs.keeps_specs [OF _ assms(2) this] refl [of "vw_files w"] f show ?thesis by metis
  qed
  with assms(3,4) show ?thesis by (auto simp: bs.keeps_def)
qed

lemma next_volume_event_quiet [simp]: "vw_script w = [] \<Longrightarrow> next_volume_event w = (NoFault, w)"
  by (simp add: next_volume_event_def)

lemma ListByApp_quiet:
  "vw_script w = [] \<Longrightarrow> volumeRepository_ListByApp appID w = (Inr (app_volumes appID (vw_rows w)), w)"
  by (simp add: volumeRepository_ListByApp_def vread_def)

lemma Delete_quiet:
  "vw_script w = [] \<Longrightarrow> volumeRepository_Delete i w = (Inr (), w\<lparr>vw_rows := delete_volume i (vw_rows w)\<rparr>)"
  by (simp add: volumeRepository_Delete_def vwrite_def)

lemma delete_volumes_quiet:
  assumes "vw_script w = []" "vm_backend m = BackingStore env" "delete_volumes m vols e w = (e', w')"
  shows "vw_script w' = [] \<and>
    set (vw_rows w') \<subseteq> set (vw_rows w) \<and>
    (\<forall>r \<in> set (vw_rows w) - set (vw_rows w'). vo_ID r \<in> vo_ID ` set vols) \<and>
    (\<forall>q. map_of (vw_files w') q \<noteq> map_of (vw_files w) q \<longrightarrow>
      (\<exists>v \<in> set vols. q = vo_BackingPath v \<or> restore_sibling (vo_BackingPath v) q)) \<and>
    (e' = None \<longrightarrow> e = None \<and> (\<forall>r \<in> set (vw_rows w'). vo_ID r \<notin> vo_ID ` set vols))"
  using assms(1,3)
proof (induction vols arbitrary: e w)
  case (Cons v vols)
  define step where "step = (if vo_BackingPath v \<noteq> [] then on_files (vb_Delete (vm_backend m) (vo_BackingPath v)) w else (Inr (), w))"
  obtain r1 w1 where s: "step = (r1, w1)" by force
  have w1: "vw_script w1 = []" "vw_rows w1 = vw_rows w"
    using s Cons.prems(1) by (auto simp: step_def on_files_def split: if_splits prod.splits)
  have f1: "q = vo_BackingPath v \<or> restore_sibling (vo_BackingPath v) q" if "map_of (vw_files w1) q \<noteq> map_of (vw_files w) q" for q
    using s that assms(2)
    by (auto simp: step_def on_files_def BackingStore_def dest: Delete_only split: if_splits prod.splits)
  show ?case
  proof (cases r1)
    case (Inl x)
    with Cons.prems(2) s have "delete_volumes m vols (if e = None then Some x else e) w1 = (e', w')"
      by (simp add: step_def [symmetric])
    note ih = Cons.IH [OF w1(1) this]
    show ?thesis
    proof (intro conjI allI impI)
      fix q assume "map_of (vw_files w') q \<noteq> map_of (vw_files w) q"
      then have "map_of (vw_files w') q \<noteq> map_of (vw_files w1) q \<or> map_of (vw_files w1) q \<noteq> map_of (vw_files w) q" by auto
      with ih f1 show "\<exists>v \<in> set (v # vols). q = vo_BackingPath v \<or> restore_sibling (vo_BackingPath v) q" by auto
    qed (use ih w1 in \<open>auto split: if_splits\<close>)
  next
    case (Inr u)
    let ?w2 = "w1\<lparr>vw_rows := delete_volume (vo_ID v) (vw_rows w1)\<rparr>"
    have q2: "vw_script ?w2 = []" using w1 by simp
    have "delete_volumes m vols e ?w2 = (e', w')"
      using Cons.prems(2) s Inr w1 by (simp add: step_def [symmetric] Delete_quiet)
    note ih = Cons.IH [OF q2 this]
    show ?thesis
    proof (intro conjI allI impI)
      fix q assume "map_of (vw_files w') q \<noteq> map_of (vw_files w) q"
      then have "map_of (vw_files w') q \<noteq> map_of (vw_files ?w2) q \<or> map_of (vw_files w1) q \<noteq> map_of (vw_files w) q" by auto
      with ih f1 show "\<exists>v \<in> set (v # vols). q = vo_BackingPath v \<or> restore_sibling (vo_BackingPath v) q" by auto
    qed (use ih w1 in \<open>auto simp: delete_volume_def\<close>)
  qed
qed simp

lemma map_filter_Nil: "List.map_filter f xs = [] \<longleftrightarrow> (\<forall>x \<in> set xs. f x = None)"
  by (induction xs) (auto simp: List.map_filter_simps split: option.splits)

definition claim_retired :: "'f FleetVolumeManager \<Rightarrow> Volume \<Rightarrow> bool" where
  "claim_retired m v \<longleftrightarrow> (\<forall>r. vo_ResourceID v = Some r \<longrightarrow>
     (\<exists>ledger t. vm_resources m = Some ledger \<and> ledger r = ClaimRow (Some t)))"

lemma claim_refusal_None: "claim_refusal m v = None \<longleftrightarrow> claim_retired m v"
  by (auto simp: claim_refusal_def claim_retired_def split: option.splits claim_reply.splits)


section \<open>Sample runs\<close>

definition demo_env :: backing_env where
  "demo_env = \<lparr>be_uuidString = (\<lambda>u. dec (unat u)), be_mkdirAll = True, be_statable = (\<lambda>_. True), be_create = True,
     be_truncate = True, be_close = True, be_mkfs = True, be_remove = (\<lambda>_. True), be_readDir = (\<lambda>_. True)\<rparr>"

definition demo_manager :: "host_files FleetVolumeManager" where
  "demo_manager = \<lparr>vm_backend = BackingStore demo_env, vm_dir = ''/v'', vm_resources = None, vm_selfHost = 9\<rparr>"

definition demo_volume :: Volume where
  "demo_volume = \<lparr>vo_ID = 5, vo_AppID = Some 3, vo_ResourceID = None, vo_SizeMB = 32, vo_HostAffinity = Some 9,
     vo_SnapshotRef = '''', vo_MountPath = ''/data'', vo_BackingPath = ''/v/5.ext4'', vo_AttachedReplica = None,
     vo_Status = VolumeStatusAvailable, vo_DeviceName = ''/dev/vdb'', vo_CreatedAt = 0, vo_UpdatedAt = 0\<rparr>"

definition demo_file :: backing_file where
  "demo_file = \<lparr>bf_bytes = 33554432, bf_ident = Some (''5'', ''sentiae-vol''), bf_data = 42\<rparr>"

definition demo_spec :: VolumeSpecInput where
  "demo_spec = \<lparr>vs_ID = 5, vs_SizeMB = 32, vs_MountPath = ''/new''\<rparr>"

definition demo_world :: "Volume list \<Rightarrow> host_files \<Rightarrow> host_files vol_world" where
  "demo_world rs fs = \<lparr>vw_rows = rs, vw_script = [], vw_files = fs\<rparr>"

lemma demo_path: "backing_path demo_env ''/v'' 5 = ''/v/5.ext4''" "path_Dir ''/v/5.ext4'' = ''/v''"
  "path_Base ''/v/5.ext4'' = ''5.ext4''" "path_Join [''/v'', ''5.ext4.prerestore''] = ''/v/5.ext4.prerestore''"
  "path_Dir ''/v/5.ext4.prerestore'' = ''/v''" "path_Base ''/v/5.ext4.prerestore'' = ''5.ext4.prerestore''"
  unfolding backing_path_def demo_env_def by code_simp+

lemma demo_not_sibling: "\<not> (\<exists>i. restore_sibling (backing_path demo_env ''/v'' i) ''/v/5.ext4'')"
proof
  assume "\<exists>i. restore_sibling (backing_path demo_env ''/v'' i) ''/v/5.ext4''"
  then obtain i name where n: "slash \<notin> set name"
    "''/v/5.ext4'' = path_Join [path_Dir (backing_path demo_env ''/v'' i), name]"
    "siblingOf name (path_Base (backing_path demo_env ''/v'' i) @ failedRestoreInfix)
       (path_Base (backing_path demo_env ''/v'' i) @ prerestoreSuffix) True"
    by (auto simp: restore_sibling_def)
  have long: "length name > 7"
    using n(3) by (auto simp: siblingOf_def failedRestoreInfix_def prerestoreSuffix_def split: if_splits)
  let ?b = "dec (unat i) @ ''.ext4''"
  have nb: "normal_comp ?b" "normal_comp ''v''"
    by (auto simp: normal_comp_def not_digit_dec dest: arg_cong [of _ _ length])
  have "path_Join [''/v'', ?b] = ''/v/'' @ ?b"
    using path_Join_normal [of "[''v'']" "[?b]"] nb by simp
  then have bp: "backing_path demo_env ''/v'' i = ''/v/'' @ ?b" by (simp add: backing_path_def demo_env_def)
  have nn: "normal_comp name" using n(1) long by (auto simp: normal_comp_def)
  have ns: "slash \<notin> set ?b" using nb by (simp add: normal_comp_def)
  have "dropWhile (\<lambda>c. c \<noteq> slash) (rev ?b @ rev ''/v/'') = rev ''/v/''"
    using ns by (subst dropWhile_append2) auto
  then have "path_Dir (''/v/'' @ ?b) = path_Clean ''/v/''" by (simp add: path_Dir_def)
  also have "\<dots> = ''/v''" by code_simp
  finally have "path_Join [path_Dir (backing_path demo_env ''/v'' i), name] = ''/v/'' @ name"
    using path_Join_normal [of "[''v'']" "[name]"] nb nn by (simp add: bp)
  with n(2) have "name = ''5.ext4''" by simp
  with long show False by simp
qed

theorem ensure_keeps_every_file_witness:
  "map_of (vw_files (snd (EnsureAppVolumes demo_manager 3 [(demo_spec, 1, 0)]
     (demo_world [demo_volume] [(''/v/5.ext4'', demo_file)])))) ''/v/5.ext4'' = Some demo_file"
proof -
  obtain r w' where e: "EnsureAppVolumes demo_manager 3 [(demo_spec, 1, 0)]
      (demo_world [demo_volume] [(''/v/5.ext4'', demo_file)]) = (r, w')" by force
  have m: "vm_backend demo_manager = BackingStore demo_env" "vm_dir demo_manager = ''/v''" by (simp_all add: demo_manager_def)
  have f: "map_of (vw_files (demo_world [demo_volume] [(''/v/5.ext4'', demo_file)])) ''/v/5.ext4'' = Some demo_file"
    by (simp add: demo_world_def)
  from ensure_keeps_every_file [OF e m(1) f] demo_not_sibling m(2) e show ?thesis by simp
qed

lemma demo_volume_fields [simp]:
  "vo_ID demo_volume = 5" "vo_AppID demo_volume = Some 3" "vo_ResourceID demo_volume = None" "vo_CreatedAt demo_volume = 0"
  "vo_HostAffinity demo_volume = Some 9" "vo_MountPath demo_volume = ''/data''" "vo_BackingPath demo_volume = ''/v/5.ext4''"
  unfolding demo_volume_def by simp_all

lemma demo_app_volumes [simp]: "app_volumes 3 [demo_volume] = [demo_volume]"
  by (simp add: app_volumes_def)



text \<open>Claim C22.  The claim stamp of a volume can be lost: when a resource claims the app's volumes between the
  read and the write of an attach, the attach saves the whole row it read and erases the claim.  Both calls
  succeed, and the volume is left without the owner whose retirement a deletion has to prove.\<close>

theorem attach_erases_claim:
  "AttachTo demo_manager 3 replica now \<lparr>vw_rows = [demo_volume],
      vw_script = [\<lparr>vv_before = [], vv_fault = NoFault\<rparr>, \<lparr>vv_before = [BindResource 3 claim t], vv_fault = NoFault\<rparr>],
      vw_files = fs\<rparr> =
    (Inr (), \<lparr>vw_rows = [demo_volume\<lparr>vo_AttachedReplica := Some replica, vo_Status := VolumeStatusAttached,
      vo_UpdatedAt := now\<rparr>], vw_script = [], vw_files = fs\<rparr>)"
    and "fst (bind_resource 3 claim t [demo_volume]) = VolumeBindBound"
    and "vo_ResourceID (demo_volume\<lparr>vo_AttachedReplica := Some replica, vo_Status := VolumeStatusAttached,
      vo_UpdatedAt := now\<rparr>) = None"
proof -
  show b: "fst (bind_resource 3 claim t [demo_volume]) = VolumeBindBound"
    by (simp add: bind_resource_def Let_def)
  define v where "v = demo_volume\<lparr>vo_AttachedReplica := Some replica, vo_Status := VolumeStatusAttached, vo_UpdatedAt := now\<rparr>"
  have [simp]: "vo_ID v = 5" "vo_AppID v = Some 3" by (simp_all add: v_def)
  show "vo_ResourceID (demo_volume\<lparr>vo_AttachedReplica := Some replica, vo_Status := VolumeStatusAttached,
      vo_UpdatedAt := now\<rparr>) = None"
    by simp
  have rows: "snd (bind_resource 3 claim t [demo_volume]) = [demo_volume\<lparr>vo_ResourceID := Some claim, vo_UpdatedAt := t\<rparr>]"
    by (simp add: bind_resource_def Let_def)
  have save: "save_volume v [demo_volume\<lparr>vo_ResourceID := Some claim, vo_UpdatedAt := t\<rparr>] = Some [v]"
    by (simp add: save_volume_def volume_checks_def)
  show "AttachTo demo_manager 3 replica now \<lparr>vw_rows = [demo_volume],
      vw_script = [\<lparr>vv_before = [], vv_fault = NoFault\<rparr>, \<lparr>vv_before = [BindResource 3 claim t], vv_fault = NoFault\<rparr>],
      vw_files = fs\<rparr> =
    (Inr (), \<lparr>vw_rows = [demo_volume\<lparr>vo_AttachedReplica := Some replica, vo_Status := VolumeStatusAttached,
      vo_UpdatedAt := now\<rparr>], vw_script = [], vw_files = fs\<rparr>)"
    unfolding v_def [symmetric]
    by (simp add: AttachTo_def ownedVolumes_def volumeRepository_ListByApp_def vread_def next_volume_event_def
        demo_manager_def volumeRepository_Update_def vwrite_def rows v_def [symmetric] save or_violation_def)
qed

end
