(* ===== verification/Host_Facts.thy ===== *)
theory Host_Facts
  imports Fleet_Entities
begin

text \<open>
  What a host may claim about itself: measured capacity
  (\<open>internal/domain/fleet_host_capacity.go\<close>), failure domains
  (\<open>internal/domain/fleet_failure_domain.go\<close>) and the placement invariant of the
  highly available tier (\<open>internal/domain/fleet_availability.go\<close>).
\<close>

section \<open>Capacity\<close>

record HostCapacityMeasurement =
  cm_VCPU :: int
  cm_MemTotalMB :: int
  cm_DiskTotalMB :: int
  cm_DiskAvailableMB :: int

record HostCapacityOverride =
  co_VCPU :: int
  co_MemMB :: int
  co_DiskMB :: int
  co_DiskReserveMB :: int

record HostCapacity =
  hc_VCPU :: int
  hc_MemMB :: int
  hc_DiskMB :: int

definition ResolveHostCapacity :: "HostCapacityMeasurement \<Rightarrow> HostCapacityOverride \<Rightarrow> HostCapacity fleet_result" where
  "ResolveHostCapacity m ov =
    (if cm_VCPU m \<le> 0 \<or> cm_MemTotalMB m \<le> 0 \<or> cm_DiskTotalMB m \<le> 0 \<or> cm_DiskAvailableMB m \<le> 0
     then Inl ErrHostCapacityUnmeasured
     else if co_VCPU ov > cm_VCPU m then Inl ErrHostCapacityOverAdvertised
     else if co_MemMB ov > cm_MemTotalMB m then Inl ErrHostCapacityOverAdvertised
     else if co_DiskMB ov > cm_DiskAvailableMB m then Inl ErrHostCapacityOverAdvertised
     else let vcpu = (if co_VCPU ov > 0 then co_VCPU ov else cm_VCPU m);
              mem = (if co_MemMB ov > 0 then co_MemMB ov else cm_MemTotalMB m);
              disk = (if co_DiskMB ov > 0 then co_DiskMB ov else cm_DiskAvailableMB m)
          in if co_DiskReserveMB ov < 0 \<or> co_DiskReserveMB ov \<ge> disk then Inl ErrHostDiskReserveInvalid
             else Inr \<lparr>hc_VCPU = vcpu, hc_MemMB = mem, hc_DiskMB = disk - co_DiskReserveMB ov\<rparr>)"

text \<open>A host never advertises what it does not have: an advertised capacity is positive
  in every dimension, at most what was measured (for disk: what is free, less the reserve), at most
  a positive override, and exactly the measurement where there is none; and the resolution refuses
  only an incomplete measurement, an override above the measurement or an unusable reserve.\<close>

theorem ResolveHostCapacity_honest:
  "case ResolveHostCapacity m ov of
     Inr c \<Rightarrow> 0 < hc_VCPU c \<and> hc_VCPU c \<le> cm_VCPU m \<and> 0 < hc_MemMB c \<and> hc_MemMB c \<le> cm_MemTotalMB m \<and>
       0 < hc_DiskMB c \<and> hc_DiskMB c + co_DiskReserveMB ov \<le> cm_DiskAvailableMB m \<and>
       (0 < co_VCPU ov \<longrightarrow> hc_VCPU c = co_VCPU ov) \<and> (co_VCPU ov \<le> 0 \<longrightarrow> hc_VCPU c = cm_VCPU m) \<and>
       (0 < co_MemMB ov \<longrightarrow> hc_MemMB c = co_MemMB ov) \<and> (co_MemMB ov \<le> 0 \<longrightarrow> hc_MemMB c = cm_MemTotalMB m) \<and>
       (0 < co_DiskMB ov \<longrightarrow> hc_DiskMB c + co_DiskReserveMB ov = co_DiskMB ov) \<and>
       (co_DiskMB ov \<le> 0 \<longrightarrow> hc_DiskMB c + co_DiskReserveMB ov = cm_DiskAvailableMB m)
   | Inl e \<Rightarrow>
       e = ErrHostCapacityUnmeasured \<and>
         \<not> (0 < cm_VCPU m \<and> 0 < cm_MemTotalMB m \<and> 0 < cm_DiskTotalMB m \<and> 0 < cm_DiskAvailableMB m) \<or>
       e = ErrHostCapacityOverAdvertised \<and>
         (co_VCPU ov > cm_VCPU m \<or> co_MemMB ov > cm_MemTotalMB m \<or> co_DiskMB ov > cm_DiskAvailableMB m) \<or>
       e = ErrHostDiskReserveInvalid \<and>
         (co_DiskReserveMB ov < 0 \<or>
          co_DiskReserveMB ov \<ge> (if 0 < co_DiskMB ov then co_DiskMB ov else cm_DiskAvailableMB m))"
  by (simp add: ResolveHostCapacity_def Let_def)

theorem ResolveHostCapacity_honest_witness:
  "ResolveHostCapacity \<lparr>cm_VCPU = 8, cm_MemTotalMB = 7941, cm_DiskTotalMB = 40000, cm_DiskAvailableMB = 17542\<rparr>
     \<lparr>co_VCPU = 0, co_MemMB = 4096, co_DiskMB = 0, co_DiskReserveMB = 1000\<rparr> =
   Inr \<lparr>hc_VCPU = 8, hc_MemMB = 4096, hc_DiskMB = 16542\<rparr> \<and> (16542::int) + 1000 \<le> 17542"
proof -
  let ?m = "\<lparr>cm_VCPU = 8, cm_MemTotalMB = 7941, cm_DiskTotalMB = 40000, cm_DiskAvailableMB = 17542\<rparr> :: HostCapacityMeasurement"
  let ?o = "\<lparr>co_VCPU = 0, co_MemMB = 4096, co_DiskMB = 0, co_DiskReserveMB = 1000\<rparr> :: HostCapacityOverride"
  have "ResolveHostCapacity ?m ?o = Inr \<lparr>hc_VCPU = 8, hc_MemMB = 4096, hc_DiskMB = 16542\<rparr>"
    by (simp add: ResolveHostCapacity_def)
  then show ?thesis using ResolveHostCapacity_honest [of ?m ?o] by simp
qed

section \<open>Failure domains\<close>

definition HostFailureDomainUnattested :: string where "HostFailureDomainUnattested = ''unattested''"

definition failureDomainSegments :: nat where "failureDomainSegments = 3"

text \<open>The regular expression \<open>^[a-z0-9][a-z0-9-]*$\<close>.\<close>

definition is_lower :: "char \<Rightarrow> bool" where
  "is_lower c \<longleftrightarrow> 97 \<le> (of_char c :: nat) \<and> (of_char c :: nat) \<le> 122"

definition failureDomainSegmentRx :: "string \<Rightarrow> bool" where
  "failureDomainSegmentRx s =
     (case s of [] \<Rightarrow> False
      | c # cs \<Rightarrow> (is_lower c \<or> is_digit c) \<and> list_all (\<lambda>d. is_lower d \<or> is_digit d \<or> d = CHR ''-'') cs)"

record FailureDomain =
  fd_site :: string
  fd_power :: string
  fd_network :: string

definition ParseFailureDomain :: "string \<Rightarrow> FailureDomain fleet_result" where
  "ParseFailureDomain s =
    (if blank s then Inl ErrHostFailureDomainRequired
     else let parts = split_on (CHR ''/'') s in
       if length parts \<noteq> failureDomainSegments then Inl ErrHostFailureDomainInvalid
       else if \<not> list_all failureDomainSegmentRx parts then Inl ErrHostFailureDomainInvalid
       else Inr \<lparr>fd_site = parts ! 0, fd_power = parts ! 1, fd_network = parts ! 2\<rparr>)"

definition FailureDomain_String :: "FailureDomain \<Rightarrow> string" where
  "FailureDomain_String d = fd_site d @ CHR ''/'' # fd_power d @ CHR ''/'' # fd_network d"

definition HasAttestedFailureDomain :: "Host \<Rightarrow> bool" where
  "HasAttestedFailureDomain h = is_ok (ParseFailureDomain (ho_FailureDomain h))"

definition wf_domain :: "FailureDomain \<Rightarrow> bool" where
  "wf_domain d \<longleftrightarrow> failureDomainSegmentRx (fd_site d) \<and> failureDomainSegmentRx (fd_power d) \<and>
     failureDomainSegmentRx (fd_network d)"

lemma segment_chars: "failureDomainSegmentRx s \<Longrightarrow> s \<noteq> [] \<and> CHR ''/'' \<notin> set s"
  by (auto simp: failureDomainSegmentRx_def is_lower_def is_digit_def list_all_iff split: list.splits)

lemma segment_not_blank: "failureDomainSegmentRx s \<Longrightarrow> \<not> blank (s @ t)"
proof -
  assume r: "failureDomainSegmentRx s"
  then obtain c cs where s: "s = c # cs" "is_lower c \<or> is_digit c"
    by (auto simp: failureDomainSegmentRx_def split: list.splits)
  have "c \<notin> {CHR '' '', CHR 0x09, CHR 0x0A, CHR 0x0B, CHR 0x0C, CHR 0x0D}" "(of_char c :: nat) < 128"
    using s(2) by (auto simp: is_lower_def is_digit_def)
  then show ?thesis using not_blank_head s(1) by simp
qed

lemma length3: "length xs = 3 \<longleftrightarrow> (\<exists>a b c. xs = [a, b, c])"
  by (auto simp: length_Suc_conv numeral_3_eq_3)

lemma ParseFailureDomain_String:
  assumes "wf_domain d"
  shows "ParseFailureDomain (FailureDomain_String d) = Inr d"
proof -
  have "split_on (CHR ''/'') (FailureDomain_String d) = [fd_site d, fd_power d, fd_network d]"
    using assms segment_chars
    by (simp add: FailureDomain_String_def wf_domain_def split_on_append split_on_no_sep)
  moreover have "\<not> blank (FailureDomain_String d)"
    using assms segment_not_blank by (simp add: FailureDomain_String_def wf_domain_def)
  ultimately show ?thesis
    using assms by (simp add: ParseFailureDomain_def wf_domain_def failureDomainSegments_def)
qed

lemma ParseFailureDomain_Inr:
  assumes "ParseFailureDomain s = Inr d"
  shows "FailureDomain_String d = s" "wf_domain d"
proof -
  obtain a b c where p: "split_on (CHR ''/'') s = [a, b, c]" "failureDomainSegmentRx a" "failureDomainSegmentRx b"
    "failureDomainSegmentRx c" "d = \<lparr>fd_site = a, fd_power = b, fd_network = c\<rparr>"
    using assms by (auto simp: ParseFailureDomain_def failureDomainSegments_def length3 Let_def split: if_splits)
  then show "wf_domain d" by (simp add: wf_domain_def)
  have "s = join_with (CHR ''/'') [a, b, c]" using p(1) join_split [of "CHR ''/''" s] by simp
  then show "FailureDomain_String d = s" using p(5) by (simp add: FailureDomain_String_def)
qed

text \<open>Failure domains parse exactly: a string parses to \<open>d\<close> if and only if it is the
  rendering of \<open>d\<close> and every segment is a non-empty lower-case label.  So equal strings are
  equal domains, every parsed domain prints back to what was stored, and neither the
  placeholder of unattested hosts nor the empty string is a domain.\<close>

theorem failure_domain_roundtrip:
  "(ParseFailureDomain s = Inr d \<longleftrightarrow> s = FailureDomain_String d \<and> wf_domain d) \<and>
   ParseFailureDomain HostFailureDomainUnattested = Inl ErrHostFailureDomainInvalid \<and>
   ParseFailureDomain '''' = Inl ErrHostFailureDomainRequired"
proof (intro conjI)
  show "ParseFailureDomain s = Inr d \<longleftrightarrow> s = FailureDomain_String d \<and> wf_domain d"
    using ParseFailureDomain_String ParseFailureDomain_Inr by blast
  have "\<not> blank ''unattested''" by (rule not_blank_head) simp_all
  then show "ParseFailureDomain HostFailureDomainUnattested = Inl ErrHostFailureDomainInvalid"
    by (simp add: ParseFailureDomain_def HostFailureDomainUnattested_def failureDomainSegments_def)
qed (simp add: ParseFailureDomain_def)

section \<open>Availability\<close>

datatype AvailabilityClass = AvailabilityClassSingle | AvailabilityClassHA | AvailabilityClassOther string

fun AvailabilityClass_IsValid :: "AvailabilityClass \<Rightarrow> bool" where
  "AvailabilityClass_IsValid (AvailabilityClassOther s) = False"
| "AvailabilityClass_IsValid _ = True"

datatype SyncDegradePolicy = SyncDegradePolicyFailClosed | SyncDegradePolicyFailOpen | SyncDegradePolicyOther string

fun SyncDegradePolicy_IsValid :: "SyncDegradePolicy \<Rightarrow> bool" where
  "SyncDegradePolicy_IsValid (SyncDegradePolicyOther s) = False"
| "SyncDegradePolicy_IsValid _ = True"

datatype FailoverCause = FailoverCauseReal | FailoverCauseDrill | FailoverCauseSwitchover | FailoverCauseOther string

fun FailoverCause_IsValid :: "FailoverCause \<Rightarrow> bool" where
  "FailoverCause_IsValid (FailoverCauseOther s) = False"
| "FailoverCause_IsValid _ = True"

text \<open>\<open>uuid.UUID.String\<close> is a parameter.\<close>

definition StandbyApplicationName :: "(uuid \<Rightarrow> string) \<Rightarrow> uuid \<Rightarrow> int \<Rightarrow> string" where
  "StandbyApplicationName uuidString resourceID generation =
     ''std-'' @ uuidString resourceID @ ''-'' @ show_int generation"

definition ReplicationCertCommonName :: "(uuid \<Rightarrow> string) \<Rightarrow> uuid \<Rightarrow> string" where
  "ReplicationCertCommonName uuidString resourceID = ''resource:'' @ uuidString resourceID"

definition ha_candidates :: "Host list \<Rightarrow> Host list" where
  "ha_candidates hosts = filter (\<lambda>h. HasAttestedFailureDomain h \<and> ho_Region h \<noteq> '''') hosts"

text \<open>\<open>domainsByRegion\<close> of the source: the set of domains seen in a region.\<close>

definition domains_in :: "Host list \<Rightarrow> string \<Rightarrow> string set" where
  "domains_in hs region = ho_FailureDomain ` {h \<in> set hs. ho_Region h = region}"

definition RequireHAPlacement :: "Host list \<Rightarrow> unit fleet_result" where
  "RequireHAPlacement hosts =
    (let candidates = ha_candidates hosts in
     if length candidates < 2 then
       (if length hosts \<ge> 2 then Inl ErrHAFailureDomainUnattested else Inl ErrHAHostsInsufficient)
     else if \<exists>region \<in> ho_Region ` set candidates. card (domains_in candidates region) \<ge> 2 then Inr ()
     else if card (ho_FailureDomain ` set candidates) \<ge> 2 then Inl ErrHARegionSplit
     else Inl ErrHAFailureDomainShared)"

lemma card_ge2: "finite A \<Longrightarrow> card A \<ge> 2 \<longleftrightarrow> (\<exists>x \<in> A. \<exists>y \<in> A. x \<noteq> y)"
proof -
  assume f: "finite A"
  have "card A \<le> 1 \<longleftrightarrow> (\<forall>x \<in> A. \<forall>y \<in> A. x = y)"
    using f by (metis One_nat_def card_le_Suc0_iff_eq)
  then show ?thesis by (auto simp: not_le [symmetric])
qed

lemma domains_in_ge2:
  "card (domains_in hs region) \<ge> 2 \<longleftrightarrow>
     (\<exists>a \<in> set hs. \<exists>b \<in> set hs. ho_Region a = region \<and> ho_Region b = region \<and> ho_FailureDomain a \<noteq> ho_FailureDomain b)"
  by (subst card_ge2) (auto simp: domains_in_def)

text \<open>The highly available tier is granted exactly when it can be held:
  \<open>RequireHAPlacement\<close> succeeds if and only if two of the hosts lie in one (stated) region and in
  different attested failure domains; otherwise its error names the unmet condition: too few
  hosts, too few attested ones, attested ones in distinct domains but never two in one
  region, or all in one domain.\<close>

theorem RequireHAPlacement_correct:
  "case RequireHAPlacement hosts of
     Inr _ \<Rightarrow> (\<exists>a \<in> set hosts. \<exists>b \<in> set hosts. HasAttestedFailureDomain a \<and> HasAttestedFailureDomain b \<and>
         ho_Region a = ho_Region b \<and> ho_Region a \<noteq> '''' \<and> ho_FailureDomain a \<noteq> ho_FailureDomain b)
   | Inl e \<Rightarrow> \<not> (\<exists>a \<in> set hosts. \<exists>b \<in> set hosts. HasAttestedFailureDomain a \<and> HasAttestedFailureDomain b \<and>
         ho_Region a = ho_Region b \<and> ho_Region a \<noteq> '''' \<and> ho_FailureDomain a \<noteq> ho_FailureDomain b) \<and>
       (if length hosts < 2 then e = ErrHAHostsInsufficient
        else if length (ha_candidates hosts) < 2 then e = ErrHAFailureDomainUnattested
        else if (\<exists>a \<in> set (ha_candidates hosts). \<exists>b \<in> set (ha_candidates hosts). ho_FailureDomain a \<noteq> ho_FailureDomain b)
        then e = ErrHARegionSplit else e = ErrHAFailureDomainShared)"
proof -
  let ?cs = "ha_candidates hosts"
  let ?ok = "\<exists>a \<in> set hosts. \<exists>b \<in> set hosts. HasAttestedFailureDomain a \<and> HasAttestedFailureDomain b \<and>
         ho_Region a = ho_Region b \<and> ho_Region a \<noteq> '''' \<and> ho_FailureDomain a \<noteq> ho_FailureDomain b"
  have ok: "?ok \<longleftrightarrow> (\<exists>region \<in> ho_Region ` set ?cs. card (domains_in ?cs region) \<ge> 2)"
    unfolding domains_in_ge2 by (fastforce simp: ha_candidates_def)
  have split: "card (ho_FailureDomain ` set ?cs) \<ge> 2 \<longleftrightarrow> (\<exists>a \<in> set ?cs. \<exists>b \<in> set ?cs. ho_FailureDomain a \<noteq> ho_FailureDomain b)"
    by (subst card_ge2) auto
  have len: "length ?cs \<le> length hosts" by (simp add: ha_candidates_def)
  have small: "\<not> ?ok" if "length ?cs < 2"
  proof
    assume ?ok
    then obtain a b where ab: "a \<in> set ?cs" "b \<in> set ?cs" "ho_FailureDomain a \<noteq> ho_FailureDomain b"
      unfolding ha_candidates_def set_filter mem_Collect_eq by metis
    from that have "length ?cs = 0 \<or> length ?cs = 1" by linarith
    with ab show False by (cases ?cs) (auto simp: length_0_conv)
  qed
  define OK where "OK \<longleftrightarrow> ?ok"
  define SP where "SP \<longleftrightarrow> (\<exists>a \<in> set ?cs. \<exists>b \<in> set ?cs. ho_FailureDomain a \<noteq> ho_FailureDomain b)"
  have eq: "RequireHAPlacement hosts =
     (if length ?cs < 2 then (if length hosts \<ge> 2 then Inl ErrHAFailureDomainUnattested else Inl ErrHAHostsInsufficient)
      else if OK then Inr () else if SP then Inl ErrHARegionSplit else Inl ErrHAFailureDomainShared)"
    unfolding RequireHAPlacement_def Let_def OK_def SP_def ok [symmetric] split ..
  have sm: "length ?cs < 2 \<Longrightarrow> \<not> OK" using small unfolding OK_def by blast
  show ?thesis
    unfolding eq OK_def [symmetric] SP_def [symmetric] using sm len by auto
qed

end
