(* ===== verification/Host_Registry.thy ===== *)
theory Host_Registry
  imports Host_Facts Net_Lease_Repo
begin

text \<open>
  The host inventory: the host table with its fences (migrations 0020 and 0022), the repository
  of \<open>internal/repository/postgres/fleet_host_repository.go\<close>, the ordinal assignment of
  \<open>internal/repository/postgres/fleet_net_lease_repo.go\<close>, and the registry of
  \<open>internal/usecase/fleet_host_registry.go\<close>.

  As for the leases, a database state carries a script: before each statement of this process,
  the statements other processes commit, and whether the statement itself is lost.  \<open>gorm\<close>'s
  \<open>Save\<close> writes every column of the row (its documented behaviour).
\<close>

section \<open>The host table\<close>

definition find_host :: "uuid \<Rightarrow> Host list \<Rightarrow> Host option" where
  "find_host i rs = find (\<lambda>h. ho_ID h = i) rs"

text \<open>The CHECK constraints, and the unique index on the ordinal against the rows of other hosts.\<close>

definition ordinal_fence :: "Host list \<Rightarrow> uuid \<Rightarrow> int option \<Rightarrow> bool" where
  "ordinal_fence rs i ord =
     (case ord of None \<Rightarrow> True
      | Some n \<Rightarrow> 0 \<le> n \<and> n \<le> 15 \<and> (\<forall>r \<in> set rs. ho_ID r \<noteq> i \<longrightarrow> ho_NetOrdinal r \<noteq> Some n))"

definition host_checks :: "Host \<Rightarrow> bool" where
  "host_checks h \<longleftrightarrow> ho_Region h \<noteq> '''' \<and> ho_FailureDomain h \<noteq> ''''"

definition insert_host :: "Host \<Rightarrow> Host list \<Rightarrow> Host list option" where
  "insert_host h rs =
     (if host_checks h \<and> find_host (ho_ID h) rs = None \<and> ordinal_fence rs (ho_ID h) (ho_NetOrdinal h)
      then Some (rs @ [h]) else None)"

definition save_host :: "Host \<Rightarrow> Host list \<Rightarrow> Host list option" where
  "save_host h rs =
     (if find_host (ho_ID h) rs = None then insert_host h rs
      else if host_checks h \<and> ordinal_fence rs (ho_ID h) (ho_NetOrdinal h)
      then Some (map (\<lambda>r. if ho_ID r = ho_ID h then h else r) rs) else None)"

text \<open>\<open>UPDATE fleet_hosts SET net_ordinal = n WHERE id = i AND net_ordinal IS NULL\<close>: \<open>None\<close> is the
  unique violation, the number is the rows affected.\<close>

definition set_ordinal :: "uuid \<Rightarrow> int \<Rightarrow> Host list \<Rightarrow> (nat \<times> Host list) option" where
  "set_ordinal i n rs =
     (case find_host i rs of
        Some r \<Rightarrow> if ho_NetOrdinal r \<noteq> None then Some (0, rs)
          else if ordinal_fence rs i (Some n)
          then Some (1, map (\<lambda>r. if ho_ID r = i then r\<lparr>ho_NetOrdinal := Some n\<rparr> else r) rs) else None
      | None \<Rightarrow> Some (0, rs))"

datatype host_stmt = InsertHost Host | SaveHost Host | SetOrdinal uuid int | SetStatus uuid HostStatus

fun exec_host_stmt :: "host_stmt \<Rightarrow> Host list \<Rightarrow> Host list" where
  "exec_host_stmt (InsertHost h) rs = (case insert_host h rs of None \<Rightarrow> rs | Some rs' \<Rightarrow> rs')"
| "exec_host_stmt (SaveHost h) rs = (case save_host h rs of None \<Rightarrow> rs | Some rs' \<Rightarrow> rs')"
| "exec_host_stmt (SetOrdinal i n) rs = (case set_ordinal i n rs of None \<Rightarrow> rs | Some (_, rs') \<Rightarrow> rs')"
| "exec_host_stmt (SetStatus i st) rs = map (\<lambda>r. if ho_ID r = i then r\<lparr>ho_Status := st\<rparr> else r) rs"

record host_event =
  he_before :: "host_stmt list"
  he_fault :: fault

record host_db =
  h_rows :: "Host list"
  h_script :: "host_event list"

definition next_host_event :: "host_db \<Rightarrow> fault \<times> host_db" where
  "next_host_event db =
     (case h_script db of
        [] \<Rightarrow> (NoFault, db)
      | e # es \<Rightarrow> (he_fault e, db\<lparr>h_rows := fold exec_host_stmt (he_before e) (h_rows db), h_script := es\<rparr>))"

definition read_hosts :: "(Host list \<Rightarrow> 'a fleet_result) \<Rightarrow> host_db \<Rightarrow> 'a fleet_result \<times> host_db" where
  "read_hosts q db0 =
     (case next_host_event db0 of (f, db) \<Rightarrow> (if f = NoFault then q (h_rows db) else Inl ErrOther, db))"

text \<open>A write: \<open>None\<close> of the statement is a constraint violation.\<close>

definition write_hosts ::
  "(Host list \<Rightarrow> ('a \<times> Host list) option) \<Rightarrow> fleet_error \<Rightarrow> host_db \<Rightarrow> 'a fleet_result \<times> host_db" where
  "write_hosts stmt violation db0 =
     (case next_host_event db0 of (f, db) \<Rightarrow>
        if f = LostCall then (Inl ErrOther, db)
        else (case stmt (h_rows db) of
            None \<Rightarrow> (Inl (if f = NoFault then violation else ErrOther), db)
          | Some (v, rs) \<Rightarrow> (if f = NoFault then Inr v else Inl ErrOther, db\<lparr>h_rows := rs\<rparr>)))"

section \<open>The repository\<close>

definition hostRepository_FindByID :: "uuid \<Rightarrow> host_db \<Rightarrow> Host fleet_result \<times> host_db" where
  "hostRepository_FindByID i =
     read_hosts (\<lambda>rs. case find_host i rs of None \<Rightarrow> Inl ErrFleetHostNotFound | Some h \<Rightarrow> Inr h)"

definition hostRepository_Create :: "Host \<Rightarrow> host_db \<Rightarrow> unit fleet_result \<times> host_db" where
  "hostRepository_Create h = write_hosts (\<lambda>rs. map_option (Pair ()) (insert_host h rs)) ErrOther"

definition hostRepository_Update :: "Host \<Rightarrow> host_db \<Rightarrow> unit fleet_result \<times> host_db" where
  "hostRepository_Update h = write_hosts (\<lambda>rs. map_option (Pair ()) (save_host h rs)) ErrOther"

definition hostRepository_ListByStatus :: "HostStatus \<Rightarrow> host_db \<Rightarrow> Host list fleet_result \<times> host_db" where
  "hostRepository_ListByStatus st =
     read_hosts (\<lambda>rs. Inr (sort_key ho_CreatedAt (filter (\<lambda>h. ho_Status h = st) rs)))"

definition hostRepository_List :: "host_db \<Rightarrow> Host list fleet_result \<times> host_db" where
  "hostRepository_List = read_hosts (\<lambda>rs. Inr (sort_key ho_CreatedAt rs))"

definition ordinalAssignAttempts :: nat where "ordinalAssignAttempts = 32"

definition lowest_free_ordinal :: "int list \<Rightarrow> int option" where
  "lowest_free_ordinal taken = find (\<lambda>c. c \<notin> set taken) [0..NetMaxOrdinal]"

fun ordinal_loop :: "nat \<Rightarrow> uuid \<Rightarrow> host_db \<Rightarrow> int fleet_result \<times> host_db" where
  "ordinal_loop 0 hostID db = (Inl ErrNetOrdinalExhausted, db)"
| "ordinal_loop (Suc n) hostID db =
    (case hostRepository_FindByID hostID db of
       (Inl e, db1) \<Rightarrow> (Inl e, db1)
     | (Inr host, db1) \<Rightarrow>
       (case ho_NetOrdinal host of
          Some ord \<Rightarrow> (if ord < 0 \<or> ord > NetMaxOrdinal then Inl ErrNetCoordinateOutOfRange else Inr ord, db1)
        | None \<Rightarrow>
          (case read_hosts (\<lambda>rs. Inr (List.map_filter ho_NetOrdinal rs)) db1 of
             (Inl e, db2) \<Rightarrow> (Inl e, db2)
           | (Inr taken, db2) \<Rightarrow>
             (case lowest_free_ordinal taken of
                None \<Rightarrow> (Inl ErrNetOrdinalExhausted, db2)
              | Some ord \<Rightarrow>
                (case write_hosts (set_ordinal hostID ord) ErrNetLeaseConflict db2 of
                   (Inl e, db3) \<Rightarrow> if e = ErrNetLeaseConflict then ordinal_loop n hostID db3 else (Inl e, db3)
                 | (Inr affected, db3) \<Rightarrow>
                   if affected = 0 then ordinal_loop n hostID db3 else (Inr ord, db3))))))"

definition netLeaseRepository_EnsureHostOrdinal :: "uuid \<Rightarrow> host_db \<Rightarrow> int fleet_result \<times> host_db" where
  "netLeaseRepository_EnsureHostOrdinal = ordinal_loop ordinalAssignAttempts"

section \<open>The registry\<close>

text \<open>\<open>uc.leases\<close> may be nil; \<open>now\<close> and the fresh id are arguments.\<close>

definition ensureNetOrdinal :: "bool \<Rightarrow> uuid \<Rightarrow> host_db \<Rightarrow> int option fleet_result \<times> host_db" where
  "ensureNetOrdinal hasLeases hostID db =
     (if \<not> hasLeases then (Inr None, db)
      else case netLeaseRepository_EnsureHostOrdinal hostID db of
          (Inl e, db1) \<Rightarrow> (Inl e, db1)
        | (Inr ord, db1) \<Rightarrow> (Inr (Some ord), db1))"

text \<open>The in-memory update of an existing row by a re-registration.\<close>

definition refresh_host :: "instant \<Rightarrow> Host \<Rightarrow> Host \<Rightarrow> Host" where
  "refresh_host now host existing =
     existing\<lparr>ho_Region := ho_Region host, ho_FailureDomain := ho_FailureDomain host, ho_Labels := ho_Labels host,
       ho_CapacityVCPU := ho_CapacityVCPU host, ho_CapacityMemMB := ho_CapacityMemMB host,
       ho_CapacityDiskMB := ho_CapacityDiskMB host,
       ho_AllocatableVCPU := (if ho_AllocatableVCPU existing > ho_CapacityVCPU host then ho_CapacityVCPU host
          else ho_AllocatableVCPU existing),
       ho_AllocatableMemMB := (if ho_AllocatableMemMB existing > ho_CapacityMemMB host then ho_CapacityMemMB host
          else ho_AllocatableMemMB existing),
       ho_AllocatableDiskMB := (if ho_AllocatableDiskMB existing > ho_CapacityDiskMB host then ho_CapacityDiskMB host
          else ho_AllocatableDiskMB existing),
       ho_Endpoint := ho_Endpoint host, ho_Health := HostHealthHealthy,
       ho_Status := (if ho_Status existing = HostStatusActive \<or> \<not> HostStatus_IsValid (ho_Status existing)
          then HostStatusActive else ho_Status existing),
       ho_LastHeartbeat := Some now, ho_UpdatedAt := now\<rparr>"

definition admit_host :: "instant \<Rightarrow> Host \<Rightarrow> Host" where
  "admit_host now host =
     host\<lparr>ho_AllocatableVCPU := ho_CapacityVCPU host, ho_AllocatableMemMB := ho_CapacityMemMB host,
       ho_AllocatableDiskMB := ho_CapacityDiskMB host, ho_Health := HostHealthHealthy,
       ho_Status := HostStatusActive, ho_LastHeartbeat := Some now, ho_CreatedAt := now, ho_UpdatedAt := now\<rparr>"

definition RegisterHost :: "bool \<Rightarrow> uuid \<Rightarrow> instant \<Rightarrow> Host \<Rightarrow> host_db \<Rightarrow> Host fleet_result \<times> host_db" where
  "RegisterHost hasLeases newID now host0 db =
    (if ho_Region host0 = '''' then (Inl ErrHostRegionRequired, db)
     else (case ParseFailureDomain (ho_FailureDomain host0) of
        Inl e \<Rightarrow> (Inl e, db)
      | Inr _ \<Rightarrow>
        let host = (if ho_ID host0 = uuid_Nil then host0\<lparr>ho_ID := newID\<rparr> else host0);
            finish = (\<lambda>row (res, db1). case res of
                Inl e \<Rightarrow> (Inl e, db1)
              | Inr _ \<Rightarrow> (case ensureNetOrdinal hasLeases (ho_ID row) db1 of
                  (Inl e, db2) \<Rightarrow> (Inl e, db2)
                | (Inr ord, db2) \<Rightarrow> (Inr (row\<lparr>ho_NetOrdinal := ord\<rparr>), db2)))
        in (case hostRepository_FindByID (ho_ID host) db of
              (Inr existing, db1) \<Rightarrow>
                let row = refresh_host now host existing in finish row (hostRepository_Update row db1)
            | (Inl e, db1) \<Rightarrow>
                if e \<noteq> ErrFleetHostNotFound then (Inl e, db1)
                else let row = admit_host now host in finish row (hostRepository_Create row db1))))"

text \<open>\<open>health\<close> is \<open>None\<close> for the empty string.\<close>

definition Heartbeat ::
  "instant \<Rightarrow> uuid \<Rightarrow> int \<Rightarrow> int \<Rightarrow> int \<Rightarrow> HostHealth option \<Rightarrow> host_db \<Rightarrow> unit fleet_result \<times> host_db" where
  "Heartbeat now hostID allocVCPU allocMemMB allocDiskMB health db =
    (case hostRepository_FindByID hostID db of
       (Inl e, db1) \<Rightarrow> (Inl e, db1)
     | (Inr host, db1) \<Rightarrow>
       if (case health of None \<Rightarrow> False | Some h \<Rightarrow> \<not> HostHealth_IsValid h) then (Inl ErrInvalidHostHealth, db1)
       else hostRepository_Update
         (host\<lparr>ho_Health := (case health of None \<Rightarrow> ho_Health host | Some h \<Rightarrow> h),
           ho_AllocatableVCPU := allocVCPU, ho_AllocatableMemMB := allocMemMB, ho_AllocatableDiskMB := allocDiskMB,
           ho_LastHeartbeat := Some now, ho_UpdatedAt := now\<rparr>) db1)"

definition ListHosts :: "host_db \<Rightarrow> Host list fleet_result \<times> host_db" where
  "ListHosts = hostRepository_List"

definition ListLive :: "instant \<Rightarrow> int \<Rightarrow> host_db \<Rightarrow> Host list fleet_result \<times> host_db" where
  "ListLive now staleness db =
    (case hostRepository_ListByStatus HostStatusActive db of
       (Inl e, db1) \<Rightarrow> (Inl e, db1)
     | (Inr hosts, db1) \<Rightarrow>
       let cutoff = now - staleness in
       (Inr (filter (\<lambda>h. ho_Health h = HostHealthHealthy \<and>
          (case ho_LastHeartbeat h of None \<Rightarrow> False | Some t \<Rightarrow> \<not> t < cutoff)) hosts), db1))"

section \<open>The fences hold\<close>

text \<open>One row per host, ordinals in range and never shared.\<close>

definition hosts_inv :: "Host list \<Rightarrow> bool" where
  "hosts_inv rs \<longleftrightarrow> distinct (map ho_ID rs) \<and>
     (\<forall>r \<in> set rs. ordinal_fence rs (ho_ID r) (ho_NetOrdinal r))"

lemma find_host_Some: "find_host i rs = Some h \<Longrightarrow> h \<in> set rs \<and> ho_ID h = i"
  by (auto simp: find_host_def find_Some_iff)

lemma find_host_None: "find_host i rs = None \<longleftrightarrow> (\<forall>r \<in> set rs. ho_ID r \<noteq> i)"
  by (auto simp: find_host_def find_None_iff)

lemma find_host_mem:
  "distinct (map ho_ID rs) \<Longrightarrow> h \<in> set rs \<Longrightarrow> find_host (ho_ID h) rs = Some h"
proof (induction rs)
  case (Cons a rs)
  then show ?case by (cases "a = h") (auto simp: find_host_def image_iff)
qed simp

text \<open>Replacing one row keeps the identities, and the fences if the new row fits.\<close>

lemma map_ids: "(\<And>r. r \<in> set rs \<Longrightarrow> ho_ID (f r) = ho_ID r) \<Longrightarrow> map ho_ID (map f rs) = map ho_ID rs"
  by simp

lemma hosts_inv_map:
  assumes "hosts_inv rs" "\<And>r. r \<in> set rs \<Longrightarrow> ho_ID (f r) = ho_ID r"
    and "\<And>r. r \<in> set rs \<Longrightarrow> ho_ID r \<noteq> i \<Longrightarrow> ho_NetOrdinal (f r) = ho_NetOrdinal r"
    and "\<And>r. r \<in> set rs \<Longrightarrow> ho_ID r = i \<Longrightarrow> ordinal_fence rs i (ho_NetOrdinal (f r))"
  shows "hosts_inv (map f rs)"
proof -
  have "ordinal_fence (map f rs) (ho_ID r) (ho_NetOrdinal (f r))" if r: "r \<in> set rs" for r
  proof -
    have fence: "ordinal_fence rs (ho_ID r) (ho_NetOrdinal (f r))"
      using assms r by (cases "ho_ID r = i") (auto simp: hosts_inv_def)
    have "ho_NetOrdinal (f q) \<noteq> Some n"
      if q: "q \<in> set rs" "ho_ID q \<noteq> ho_ID r" and n: "ho_NetOrdinal (f r) = Some n" for q n
    proof (cases "ho_ID q = i")
      case False
      with q n fence assms(3) show ?thesis by (simp add: ordinal_fence_def)
    next
      case True
      with q have "ho_ID r \<noteq> i" by simp
      with assms(3) r n have "ho_NetOrdinal r = Some n" by simp
      with assms(4) [OF q(1) True] r \<open>ho_ID r \<noteq> i\<close> show ?thesis
        by (auto simp: ordinal_fence_def split: option.splits)
    qed
    with fence assms(2) show ?thesis by (auto simp: ordinal_fence_def split: option.splits)
  qed
  with assms(1,2) show ?thesis by (simp add: hosts_inv_def comp_def cong: map_cong)
qed

lemma insert_host_inv:
  assumes "hosts_inv rs" "insert_host h rs = Some rs'"
  shows "hosts_inv rs'"
proof -
  have h: "rs' = rs @ [h]" "\<forall>r \<in> set rs. ho_ID r \<noteq> ho_ID h" "ordinal_fence rs (ho_ID h) (ho_NetOrdinal h)"
    using assms(2) by (auto simp: insert_host_def find_host_None split: if_splits)
  have "ordinal_fence rs' (ho_ID r) (ho_NetOrdinal r)" if r: "r \<in> set rs'" for r
  proof (cases "r = h")
    case True
    with h show ?thesis by (auto simp: ordinal_fence_def split: option.splits)
  next
    case False
    with r h have r': "r \<in> set rs" by simp
    with assms(1) have "ordinal_fence rs (ho_ID r) (ho_NetOrdinal r)" by (simp add: hosts_inv_def)
    moreover have "ho_NetOrdinal h \<noteq> Some n" if "ho_NetOrdinal r = Some n" for n
      using h(2,3) r' that by (auto simp: ordinal_fence_def)
    ultimately show ?thesis by (auto simp: ordinal_fence_def h(1) split: option.splits)
  qed
  moreover have "distinct (map ho_ID rs')" using assms(1) h(1,2) by (auto simp: hosts_inv_def image_iff)
  ultimately show ?thesis by (simp add: hosts_inv_def)
qed

lemma save_host_inv: "hosts_inv rs \<Longrightarrow> save_host h rs = Some rs' \<Longrightarrow> hosts_inv rs'"
  using hosts_inv_map [of rs "\<lambda>r. if ho_ID r = ho_ID h then h else r" "ho_ID h"]
  by (auto simp: save_host_def insert_host_inv split: if_splits)

lemma set_ordinal_inv: "hosts_inv rs \<Longrightarrow> set_ordinal i n rs = Some (k, rs') \<Longrightarrow> hosts_inv rs'"
  using hosts_inv_map [of rs "\<lambda>r. if ho_ID r = i then r\<lparr>ho_NetOrdinal := Some n\<rparr> else r" i]
  by (auto simp: set_ordinal_def split: if_splits option.splits)

lemma set_status_inv:
  assumes "hosts_inv rs"
  shows "hosts_inv (map (\<lambda>r. if ho_ID r = i then r\<lparr>ho_Status := s\<rparr> else r) rs)"
proof (rule hosts_inv_map [OF assms, of _ i])
  fix r assume "r \<in> set rs" "ho_ID r = i"
  with assms show "ordinal_fence rs i (ho_NetOrdinal (if ho_ID r = i then r\<lparr>ho_Status := s\<rparr> else r))"
    unfolding hosts_inv_def by auto
qed auto

lemma exec_host_stmt_inv: "hosts_inv rs \<Longrightarrow> hosts_inv (exec_host_stmt st rs)"
proof (cases st)
  case (InsertHost h)
  then show "hosts_inv rs \<Longrightarrow> ?thesis" using insert_host_inv by (simp split: option.splits)
next
  case (SaveHost h)
  then show "hosts_inv rs \<Longrightarrow> ?thesis" using save_host_inv by (simp split: option.splits)
next
  case (SetOrdinal i n)
  then show "hosts_inv rs \<Longrightarrow> ?thesis" using set_ordinal_inv by (simp split: option.splits)
next
  case (SetStatus i s)
  then show "hosts_inv rs \<Longrightarrow> ?thesis" using set_status_inv by simp
qed

lemma fold_host_stmt_inv: "hosts_inv rs \<Longrightarrow> hosts_inv (fold exec_host_stmt sts rs)"
  by (induction sts arbitrary: rs) (auto simp: exec_host_stmt_inv)

lemma next_host_event_inv: "hosts_inv (h_rows db) \<Longrightarrow> next_host_event db = (f, db') \<Longrightarrow> hosts_inv (h_rows db')"
  by (auto simp: next_host_event_def fold_host_stmt_inv split: list.splits)

lemma read_hosts_inv: "hosts_inv (h_rows db) \<Longrightarrow> read_hosts q db = (r, db') \<Longrightarrow> hosts_inv (h_rows db')"
  by (auto simp: read_hosts_def dest: next_host_event_inv split: prod.splits)

lemma write_hosts_inv:
  assumes "hosts_inv (h_rows db)" "write_hosts stmt v db = (r, db')"
    and "\<And>rs x rs'. hosts_inv rs \<Longrightarrow> stmt rs = Some (x, rs') \<Longrightarrow> hosts_inv rs'"
  shows "hosts_inv (h_rows db')"
proof -
  obtain f db1 where n: "next_host_event db = (f, db1)" by (metis surj_pair)
  have "hosts_inv (h_rows db1)" by (rule next_host_event_inv [OF assms(1) n])
  with assms(2,3) n show ?thesis by (auto simp: write_hosts_def split: if_splits option.splits)
qed

lemma read_hosts_ok: "read_hosts q db = (Inr v, db') \<Longrightarrow> q (h_rows db') = Inr v"
  by (auto simp: read_hosts_def split: prod.splits if_splits)

lemma write_hosts_ok:
  "write_hosts stmt v db = (Inr x, db') \<Longrightarrow> \<exists>rs. stmt rs = Some (x, h_rows db')"
  by (auto simp: write_hosts_def split: prod.splits if_splits option.splits)

lemma FindByID_ok: "hostRepository_FindByID i db = (Inr h, db') \<Longrightarrow> find_host i (h_rows db') = Some h"
  unfolding hostRepository_FindByID_def by (drule read_hosts_ok) (simp split: option.splits)

lemma find_host_map:
  "(\<And>r. ho_ID (f r) = ho_ID r) \<Longrightarrow> find_host i (map f rs) = map_option f (find_host i rs)"
  by (induction rs) (auto simp: find_host_def)

lemma set_ordinal_sets:
  assumes "set_ordinal i n rs = Some (k, rs')" "k \<noteq> 0"
  shows "0 \<le> n \<and> n \<le> 15 \<and> (\<exists>h. find_host i rs' = Some h \<and> ho_NetOrdinal h = Some n)"
proof -
  let ?f = "\<lambda>r. if ho_ID r = i then r\<lparr>ho_NetOrdinal := Some n\<rparr> else r"
  obtain r where r: "find_host i rs = Some r" "rs' = map ?f rs" "ordinal_fence rs i (Some n)"
    using assms by (auto simp: set_ordinal_def split: option.splits if_splits)
  have "find_host i rs' = map_option ?f (find_host i rs)"
    unfolding r(2) by (rule find_host_map) simp
  with r find_host_Some [OF r(1)] show ?thesis by (auto simp: ordinal_fence_def)
qed

definition holds_ordinal :: "uuid \<Rightarrow> int \<Rightarrow> Host list \<Rightarrow> bool" where
  "holds_ordinal i ord rs \<longleftrightarrow> 0 \<le> ord \<and> ord \<le> NetMaxOrdinal \<and>
     (\<exists>h. find_host i rs = Some h \<and> ho_NetOrdinal h = Some ord) \<and>
     (\<forall>r \<in> set rs. ho_ID r \<noteq> i \<longrightarrow> ho_NetOrdinal r \<noteq> Some ord)"

lemma holds_ordinalI:
  assumes "hosts_inv rs" "find_host i rs = Some h" "ho_NetOrdinal h = Some ord" "0 \<le> ord" "ord \<le> NetMaxOrdinal"
  shows "holds_ordinal i ord rs"
  using assms find_host_Some [OF assms(2)] by (fastforce simp: hosts_inv_def holds_ordinal_def ordinal_fence_def)

lemma ordinal_loop_inv:
  "hosts_inv (h_rows db) \<Longrightarrow> ordinal_loop n i db = (r, db') \<Longrightarrow> hosts_inv (h_rows db')"
proof (induction n arbitrary: db)
  case (Suc n)
  obtain r1 db1 where f: "hostRepository_FindByID i db = (r1, db1)" by (metis surj_pair)
  obtain r2 db2 where t: "read_hosts (\<lambda>rs. Inr (List.map_filter ho_NetOrdinal rs)) db1 = (r2, db2)" by (metis surj_pair)
  have i1: "hosts_inv (h_rows db1)" using read_hosts_inv f Suc.prems(1) unfolding hostRepository_FindByID_def by blast
  have i2: "hosts_inv (h_rows db2)" by (rule read_hosts_inv [OF i1 t])
  have i3: "hosts_inv (h_rows db3)" if "write_hosts (set_ordinal i ord) ErrNetLeaseConflict db2 = (q, db3)" for ord q db3
    by (rule write_hosts_inv [OF i2 that set_ordinal_inv])
  from Suc.prems(2) f t i1 i2 i3 Suc.IH show ?case
    by (auto split: sum.splits option.splits prod.splits if_splits)
qed simp

lemma ordinal_loop_holds:
  "hosts_inv (h_rows db) \<Longrightarrow> ordinal_loop n i db = (Inr ord, db') \<Longrightarrow> holds_ordinal i ord (h_rows db')"
proof (induction n arbitrary: db)
  case (Suc n)
  have inv: "hosts_inv (h_rows db')" by (rule ordinal_loop_inv [OF Suc.prems])
  obtain r1 db1 where f: "hostRepository_FindByID i db = (r1, db1)" by (metis surj_pair)
  then obtain host where h: "r1 = Inr host" using Suc.prems(2) by (cases r1) auto
  have i1: "hosts_inv (h_rows db1)"
    using read_hosts_inv f Suc.prems(1) unfolding hostRepository_FindByID_def by blast
  show ?case
  proof (cases "ho_NetOrdinal host")
    case (Some o1)
    with Suc.prems(2) f h have "db' = db1" "ord = o1" "0 \<le> ord" "ord \<le> NetMaxOrdinal" by (auto split: if_splits)
    with FindByID_ok [of i db host db1] f h Some inv show ?thesis by (intro holds_ordinalI) auto
  next
    case None
    obtain r2 db2 where t: "read_hosts (\<lambda>rs. Inr (List.map_filter ho_NetOrdinal rs)) db1 = (r2, db2)" by (metis surj_pair)
    then obtain taken where tk: "r2 = Inr taken" using Suc.prems(2) f h None by (cases r2) auto
    have i2: "hosts_inv (h_rows db2)" by (rule read_hosts_inv [OF i1 t])
    obtain c where c: "lowest_free_ordinal taken = Some c"
      using Suc.prems(2) f h None t tk by (cases "lowest_free_ordinal taken") auto
    obtain r3 db3 where w: "write_hosts (set_ordinal i c) ErrNetLeaseConflict db2 = (r3, db3)" by (metis surj_pair)
    have i3: "hosts_inv (h_rows db3)" by (rule write_hosts_inv [OF i2 w set_ordinal_inv])
    show ?thesis
    proof (cases "\<exists>k. r3 = Inr k \<and> k \<noteq> 0")
      case True
      then obtain k where k: "r3 = Inr k" "k \<noteq> 0" by blast
      with Suc.prems(2) f h None t tk c w have e: "ord = c" "db' = db3" by auto
      obtain rs where "set_ordinal i c rs = Some (k, h_rows db3)"
        using write_hosts_ok [of "set_ordinal i c" ErrNetLeaseConflict db2 k db3] w k(1) by blast
      from set_ordinal_sets [OF this k(2)] obtain hh where
        "0 \<le> c" "c \<le> 15" "find_host i (h_rows db3) = Some hh" "ho_NetOrdinal hh = Some c" by blast
      then show ?thesis unfolding e
        by (intro holds_ordinalI [OF i3]) (simp_all add: NetMaxOrdinal_def)
    next
      case False
      with Suc.prems(2) f h None t tk c w have "ordinal_loop n i db3 = (Inr ord, db')"
        by (cases r3) (auto split: if_splits)
      with Suc.IH i3 show ?thesis by blast
    qed
  qed
qed simp

section \<open>Properties of the registry\<close>

lemma ensureNetOrdinal_inv:
  "hosts_inv (h_rows db) \<Longrightarrow> ensureNetOrdinal b i db = (r, db') \<Longrightarrow> hosts_inv (h_rows db')"
  unfolding ensureNetOrdinal_def netLeaseRepository_EnsureHostOrdinal_def
  by (auto split: if_splits prod.splits sum.splits dest: ordinal_loop_inv)

lemma ensureNetOrdinal_holds:
  "hosts_inv (h_rows db) \<Longrightarrow> ensureNetOrdinal True i db = (Inr o', db') \<Longrightarrow>
    \<exists>ord. o' = Some ord \<and> holds_ordinal i ord (h_rows db')"
  unfolding ensureNetOrdinal_def netLeaseRepository_EnsureHostOrdinal_def
  by (auto split: if_splits prod.splits sum.splits dest: ordinal_loop_holds)

text \<open>A registration that succeeds has written its row and then asked for its ordinal.\<close>

lemma RegisterHost_ok:
  assumes "RegisterHost hl newID now host db = (Inr h, db')" "hosts_inv (h_rows db)"
  obtains row db1 ord where "hosts_inv (h_rows db1)" "ensureNetOrdinal hl (ho_ID row) db1 = (Inr ord, db')"
    "h = row\<lparr>ho_NetOrdinal := ord\<rparr>"
proof -
  let ?host = "if ho_ID host = uuid_Nil then host\<lparr>ho_ID := newID\<rparr> else host"
  obtain r0 db0 where f: "hostRepository_FindByID (ho_ID ?host) db = (r0, db0)" by (metis surj_pair)
  have i0: "hosts_inv (h_rows db0)"
    using f assms(2) read_hosts_inv unfolding hostRepository_FindByID_def by blast
  have u: "hosts_inv (h_rows db1)" if "hostRepository_Update row db0 = (q, db1)" for row q db1
    using write_hosts_inv [OF i0 that [unfolded hostRepository_Update_def]] save_host_inv by fastforce
  have c: "hosts_inv (h_rows db1)" if "hostRepository_Create row db0 = (q, db1)" for row q db1
    using write_hosts_inv [OF i0 that [unfolded hostRepository_Create_def]] insert_host_inv by fastforce
  have reg: "ho_Region host \<noteq> ''''" "\<exists>d. ParseFailureDomain (ho_FailureDomain host) = Inr d"
    using assms(1) by (auto simp: RegisterHost_def split: if_splits sum.splits)
  show ?thesis
  proof (cases r0)
    case (Inr ex)
    let ?row = "refresh_host now ?host ex"
    obtain q db1 where q: "hostRepository_Update ?row db0 = (q, db1)" by (metis surj_pair)
    obtain o' db2 where o': "ensureNetOrdinal hl (ho_ID ?row) db1 = (o', db2)" by (metis surj_pair)
    from assms(1) reg f Inr q o' u [OF q] show ?thesis
      by (cases q; cases o') (auto simp: RegisterHost_def Let_def intro: that)
  next
    case (Inl e)
    let ?row = "admit_host now ?host"
    obtain q db1 where q: "hostRepository_Create ?row db0 = (q, db1)" by (metis surj_pair)
    obtain o' db2 where o': "ensureNetOrdinal hl (ho_ID ?row) db1 = (o', db2)" by (metis surj_pair)
    from assms(1) reg f Inl q o' c [OF q] show ?thesis
      by (cases q; cases o') (auto simp: RegisterHost_def Let_def intro: that split: if_splits)
  qed
qed

text \<open>Claim C12.  Address blocks are never shared between hosts.  Whatever other instances write
  between the statements of a registration, and whichever statements get lost: a host that was
  registered holds an ordinal in \<open>[0,15]\<close>, the one reported to the caller is the one in its row,
  and no other host's row carries it; the table keeps one row per host.\<close>

theorem register_host_block:
  assumes "hosts_inv (h_rows db)" "RegisterHost True newID now host db = (Inr h, db')"
  shows "hosts_inv (h_rows db') \<and> (\<exists>ord. ho_NetOrdinal h = Some ord \<and> holds_ordinal (ho_ID h) ord (h_rows db'))"
proof -
  obtain row db1 ord where r: "hosts_inv (h_rows db1)" "ensureNetOrdinal True (ho_ID row) db1 = (Inr ord, db')"
    "h = row\<lparr>ho_NetOrdinal := ord\<rparr>"
    using RegisterHost_ok [OF assms(2,1)] .
  from ensureNetOrdinal_inv [OF r(1,2)] ensureNetOrdinal_holds [OF r(1,2)] r(3) show ?thesis by auto
qed

text \<open>A host record and a quiet table, for the examples.\<close>

definition demo_host :: "uuid \<Rightarrow> Host" where
  "demo_host i = \<lparr>ho_ID = i, ho_Region = ''eu'', ho_FailureDomain = ''room/a/s1'', ho_Labels = Map.empty,
     ho_CapacityVCPU = 8, ho_CapacityMemMB = 8000, ho_CapacityDiskMB = 20000, ho_AllocatableVCPU = 0,
     ho_AllocatableMemMB = 0, ho_AllocatableDiskMB = 0, ho_Health = HostHealthUnknown,
     ho_Status = HostStatusActive, ho_Endpoint = '''', ho_NetOrdinal = None, ho_LastHeartbeat = None,
     ho_CreatedAt = 0, ho_UpdatedAt = 0\<rparr>"

lemma demo_domain: "ParseFailureDomain ''room/a/s1'' = Inr \<lparr>fd_site = ''room'', fd_power = ''a'', fd_network = ''s1''\<rparr>"
proof -
  have "wf_domain \<lparr>fd_site = ''room'', fd_power = ''a'', fd_network = ''s1''\<rparr>"
    by (simp add: wf_domain_def failureDomainSegmentRx_def is_lower_def is_digit_def)
  from ParseFailureDomain_String [OF this] show ?thesis by (simp add: FailureDomain_String_def)
qed

lemma ordinals_upto: "[0..NetMaxOrdinal] = 0 # [1..NetMaxOrdinal]"
  by (subst upto.simps) (simp add: NetMaxOrdinal_def)

lemmas registry_ops = RegisterHost_def hostRepository_FindByID_def hostRepository_Create_def
  hostRepository_Update_def read_hosts_def write_hosts_def next_host_event_def find_host_def insert_host_def
  save_host_def host_checks_def ordinal_fence_def ensureNetOrdinal_def
  netLeaseRepository_EnsureHostOrdinal_def ordinalAssignAttempts_def set_ordinal_def admit_host_def
  refresh_host_def lowest_free_ordinal_def ordinals_upto List.map_filter_def numeral_eq_Suc

lemma demo_register:
  "RegisterHost True 0 5 (demo_host 3) \<lparr>h_rows = [], h_script = []\<rparr> =
    (Inr ((admit_host 5 (demo_host 3))\<lparr>ho_NetOrdinal := Some 0\<rparr>),
     \<lparr>h_rows = [(admit_host 5 (demo_host 3))\<lparr>ho_NetOrdinal := Some 0\<rparr>], h_script = []\<rparr>)"
  by (simp add: registry_ops demo_host_def demo_domain Let_def)

theorem register_host_block_witness:
  "hosts_inv [(admit_host 5 (demo_host 3))\<lparr>ho_NetOrdinal := Some 0\<rparr>] \<and>
   holds_ordinal 3 0 [(admit_host 5 (demo_host 3))\<lparr>ho_NetOrdinal := Some 0\<rparr>]"
proof -
  have "hosts_inv (h_rows \<lparr>h_rows = [], h_script = []\<rparr>)" by (simp add: hosts_inv_def)
  from register_host_block [OF this demo_register] show ?thesis by (simp add: admit_host_def demo_host_def)
qed

lemma quiet_host_event [simp]: "h_script db = [] \<Longrightarrow> next_host_event db = (NoFault, db)"
  by (simp add: next_host_event_def)

lemma quiet_read [simp]: "h_script db = [] \<Longrightarrow> read_hosts q db = (q (h_rows db), db)"
  by (simp add: read_hosts_def)

lemma quiet_write [simp]:
  "h_script db = [] \<Longrightarrow> write_hosts stmt v db =
     (case stmt (h_rows db) of None \<Rightarrow> (Inl v, db) | Some (x, rs) \<Rightarrow> (Inr x, db\<lparr>h_rows := rs\<rparr>))"
  by (simp add: write_hosts_def split: option.splits)

text \<open>On a quiet table the first attempt decides.\<close>

lemma lowest_free_ordinal_range: "lowest_free_ordinal taken = Some c \<Longrightarrow> 0 \<le> c \<and> c \<le> NetMaxOrdinal \<and> c \<notin> set taken"
  by (auto simp: lowest_free_ordinal_def find_Some_iff dest!: nth_mem)

lemma ordinals_taken: "n \<notin> set (List.map_filter ho_NetOrdinal rs) \<longleftrightarrow> (\<forall>r \<in> set rs. ho_NetOrdinal r \<noteq> Some n)"
  by (auto simp: List.map_filter_def image_iff)

lemma quiet_ordinal:
  assumes "h_script db = []" "find_host i (h_rows db) = Some h"
  shows "ordinal_loop (Suc n) i db =
    (case ho_NetOrdinal h of
       Some ord \<Rightarrow> (if ord < 0 \<or> ord > NetMaxOrdinal then Inl ErrNetCoordinateOutOfRange else Inr ord, db)
     | None \<Rightarrow> (case lowest_free_ordinal (List.map_filter ho_NetOrdinal (h_rows db)) of
          None \<Rightarrow> (Inl ErrNetOrdinalExhausted, db)
        | Some c \<Rightarrow> (Inr c, db\<lparr>h_rows := map (\<lambda>r. if ho_ID r = i then r\<lparr>ho_NetOrdinal := Some c\<rparr> else r) (h_rows db)\<rparr>)))"
proof (cases "ho_NetOrdinal h")
  case None
  show ?thesis
  proof (cases "lowest_free_ordinal (List.map_filter ho_NetOrdinal (h_rows db))")
    case (Some c)
    then have "ordinal_fence (h_rows db) i (Some c)"
      using lowest_free_ordinal_range [OF Some] by (auto simp: ordinal_fence_def ordinals_taken NetMaxOrdinal_def)
    with None Some assms show ?thesis by (simp add: hostRepository_FindByID_def set_ordinal_def)
  qed (use None assms in \<open>simp add: hostRepository_FindByID_def\<close>)
qed (use assms in \<open>simp add: hostRepository_FindByID_def\<close>)

text \<open>Re-registration refreshes facts and widens nothing.  On a quiet table, registering
  a host that is already there keeps an operator-set status (cordoned, draining,
  decommissioned) and an assigned ordinal, takes region, failure domain and capacity from the
  registration, never leaves more allocatable than capacity, raises no allocatable, and touches
  no other host's row.\<close>

theorem reregister_keeps_operator_status:
  assumes "h_script db = []" "hosts_inv (h_rows db)" "find_host (ho_ID host) (h_rows db) = Some ex"
    and "ho_ID host \<noteq> uuid_Nil" "RegisterHost hl newID now host db = (Inr h, db')"
  shows "\<exists>row. find_host (ho_ID host) (h_rows db') = Some row \<and>
    (HostStatus_IsValid (ho_Status ex) \<longrightarrow> ho_Status row = ho_Status ex) \<and>
    (ho_NetOrdinal ex \<noteq> None \<longrightarrow> ho_NetOrdinal row = ho_NetOrdinal ex) \<and>
    ho_Region row = ho_Region host \<and> ho_FailureDomain row = ho_FailureDomain host \<and>
    ho_CapacityVCPU row = ho_CapacityVCPU host \<and>
    ho_AllocatableVCPU row = min (ho_AllocatableVCPU ex) (ho_CapacityVCPU host) \<and>
    ho_AllocatableMemMB row = min (ho_AllocatableMemMB ex) (ho_CapacityMemMB host) \<and>
    ho_AllocatableDiskMB row = min (ho_AllocatableDiskMB ex) (ho_CapacityDiskMB host) \<and>
    (\<forall>r. ho_ID r \<noteq> ho_ID host \<longrightarrow> (r \<in> set (h_rows db') \<longleftrightarrow> r \<in> set (h_rows db)))"
proof -
  let ?i = "ho_ID host" and ?rs = "h_rows db" and ?row = "refresh_host now host ex"
  have exi: "ex \<in> set ?rs" "ho_ID ex = ?i" using find_host_Some [OF assms(3)] by auto
  have row: "ho_ID ?row = ?i" "ho_NetOrdinal ?row = ho_NetOrdinal ex" using exi by (simp_all add: refresh_host_def)
  have reg: "ho_Region host \<noteq> ''''" "\<exists>d. ParseFailureDomain (ho_FailureDomain host) = Inr d"
    using assms(5) by (auto simp: RegisterHost_def split: if_splits sum.splits)
  let ?f = "\<lambda>r. if ho_ID r = ?i then ?row else r"
  let ?db1 = "db\<lparr>h_rows := map ?f ?rs\<rparr>"
  have "ordinal_fence ?rs ?i (ho_NetOrdinal ex)" using assms(2) exi by (auto simp: hosts_inv_def)
  moreover have "host_checks ?row"
    using reg by (auto simp: host_checks_def refresh_host_def ParseFailureDomain_def)
  ultimately have "hostRepository_Update ?row db = (Inr (), ?db1)"
    using assms(1,3) row by (simp add: hostRepository_Update_def save_host_def)
  with assms(1,3,4,5) reg row have ens: "\<exists>o'. ensureNetOrdinal hl ?i ?db1 = (Inr o', db')"
    by (auto simp: RegisterHost_def hostRepository_FindByID_def Let_def split: sum.splits prod.splits)
  have f1: "find_host ?i (h_rows ?db1) = Some ?row"
    using find_host_map [of ?f ?i ?rs] assms(3) row exi by simp
  have final: "\<exists>g. h_rows db' = map (\<lambda>r. if ho_ID r = ?i then g else r) ?rs \<and> ho_ID g = ?i \<and>
      (g = ?row \<or> ho_NetOrdinal ex = None \<and> (\<exists>c. g = ?row\<lparr>ho_NetOrdinal := Some c\<rparr>))"
  proof (cases hl)
    case False
    with ens row show ?thesis by (intro exI [of _ ?row]) (auto simp: ensureNetOrdinal_def)
  next
    case True
    have q: "ordinal_loop ordinalAssignAttempts ?i ?db1 = (case ho_NetOrdinal ex of
       Some ord \<Rightarrow> (if ord < 0 \<or> ord > NetMaxOrdinal then Inl ErrNetCoordinateOutOfRange else Inr ord, ?db1)
     | None \<Rightarrow> (case lowest_free_ordinal (List.map_filter ho_NetOrdinal (h_rows ?db1)) of
          None \<Rightarrow> (Inl ErrNetOrdinalExhausted, ?db1)
        | Some c \<Rightarrow> (Inr c, ?db1\<lparr>h_rows := map (\<lambda>r. if ho_ID r = ?i then r\<lparr>ho_NetOrdinal := Some c\<rparr> else r) (h_rows ?db1)\<rparr>)))"
      using quiet_ordinal [of ?db1 ?i ?row 31] f1 assms(1) row by (simp add: ordinalAssignAttempts_def)
    obtain o' where o': "ensureNetOrdinal hl ?i ?db1 = (Inr o', db')" using ens by blast
    show ?thesis
    proof (cases "ho_NetOrdinal ex")
      case (Some n)
      with q o' True row show ?thesis
        by (intro exI [of _ ?row]) (auto simp: ensureNetOrdinal_def netLeaseRepository_EnsureHostOrdinal_def split: if_splits)
    next
      case None
      obtain c where c: "lowest_free_ordinal (List.map_filter ho_NetOrdinal (h_rows ?db1)) = Some c"
        using q o' True None
        by (cases "lowest_free_ordinal (List.map_filter ho_NetOrdinal (h_rows ?db1))")
          (simp_all add: ensureNetOrdinal_def netLeaseRepository_EnsureHostOrdinal_def)
      have "db' = ?db1\<lparr>h_rows := map (\<lambda>r. if ho_ID r = ?i then r\<lparr>ho_NetOrdinal := Some c\<rparr> else r) (h_rows ?db1)\<rparr>"
        using q [unfolded None c option.case] o' True
        unfolding ensureNetOrdinal_def netLeaseRepository_EnsureHostOrdinal_def by simp
      then have "h_rows db' = map (\<lambda>r. if ho_ID r = ?i then ?row\<lparr>ho_NetOrdinal := Some c\<rparr> else r) ?rs"
        using row by simp
      with None row show ?thesis by (intro exI [of _ "?row\<lparr>ho_NetOrdinal := Some c\<rparr>"]) auto
    qed
  qed
  then obtain g where g: "h_rows db' = map (\<lambda>r. if ho_ID r = ?i then g else r) ?rs" "ho_ID g = ?i"
    "g = ?row \<or> ho_NetOrdinal ex = None \<and> (\<exists>c. g = ?row\<lparr>ho_NetOrdinal := Some c\<rparr>)" by blast
  have "find_host ?i (h_rows db') = Some g"
    using find_host_map [of "\<lambda>r. if ho_ID r = ?i then g else r" ?i ?rs] assms(3) g(1,2) exi by simp
  moreover have "ho_Status g = (if HostStatus_IsValid (ho_Status ex) then ho_Status ex else HostStatusActive)"
    using g(3) by (cases "ho_Status ex") (auto simp: refresh_host_def)
  moreover have "\<forall>r. ho_ID r \<noteq> ?i \<longrightarrow> (r \<in> set (h_rows db') \<longleftrightarrow> r \<in> set ?rs)"
    using g(1,2) by (auto simp: image_iff)
  ultimately show ?thesis
    using g(3) row by (intro exI [of _ g]) (auto simp: refresh_host_def)
qed

definition cordoned_host :: Host where
  "cordoned_host = (demo_host 3)\<lparr>ho_Status := HostStatusCordoned, ho_NetOrdinal := Some 4, ho_AllocatableVCPU := 50\<rparr>"

definition cordoned_db :: host_db where "cordoned_db = \<lparr>h_rows = [cordoned_host], h_script = []\<rparr>"

lemma cordoned_register:
  "RegisterHost True 0 5 (demo_host 3) cordoned_db =
    (Inr (refresh_host 5 (demo_host 3) cordoned_host), \<lparr>h_rows = [refresh_host 5 (demo_host 3) cordoned_host], h_script = []\<rparr>)"
  by (simp add: registry_ops demo_host_def demo_domain Let_def cordoned_db_def cordoned_host_def NetMaxOrdinal_def)

theorem reregister_keeps_operator_status_witness:
  "\<exists>row. find_host 3 [refresh_host 5 (demo_host 3) cordoned_host] = Some row \<and>
     ho_Status row = HostStatusCordoned \<and> ho_NetOrdinal row = Some 4 \<and> ho_AllocatableVCPU row = 8"
proof -
  have "h_script cordoned_db = []" "hosts_inv (h_rows cordoned_db)"
    "find_host (ho_ID (demo_host 3)) (h_rows cordoned_db) = Some cordoned_host" "ho_ID (demo_host 3) \<noteq> uuid_Nil"
    by (simp_all add: cordoned_db_def cordoned_host_def demo_host_def hosts_inv_def ordinal_fence_def find_host_def)
  from reregister_keeps_operator_status [OF this cordoned_register] obtain row where
    "find_host (ho_ID (demo_host 3)) [refresh_host 5 (demo_host 3) cordoned_host] = Some row"
    "HostStatus_IsValid (ho_Status cordoned_host) \<longrightarrow> ho_Status row = ho_Status cordoned_host"
    "ho_NetOrdinal cordoned_host \<noteq> None \<longrightarrow> ho_NetOrdinal row = ho_NetOrdinal cordoned_host"
    "ho_AllocatableVCPU row = min (ho_AllocatableVCPU cordoned_host) (ho_CapacityVCPU (demo_host 3))"
    by auto
  moreover have "ho_ID (demo_host 3) = 3" "ho_Status cordoned_host = HostStatusCordoned"
    "ho_NetOrdinal cordoned_host = Some 4" "ho_AllocatableVCPU cordoned_host = 50" "ho_CapacityVCPU (demo_host 3) = 8"
    by (simp_all add: cordoned_host_def demo_host_def)
  ultimately show ?thesis by (intro exI [of _ row]) simp
qed

lemma ListLive_ok:
  assumes "ListLive now staleness db = (Inr live, db')"
  shows "set live = {h \<in> set (h_rows db'). ho_Status h = HostStatusActive \<and> ho_Health h = HostHealthHealthy \<and>
      (\<exists>t. ho_LastHeartbeat h = Some t \<and> now - staleness \<le> t)} \<and>
    sorted (map ho_CreatedAt live) \<and> (distinct (map ho_ID (h_rows db')) \<longrightarrow> distinct (map ho_ID live))"
proof -
  let ?P = "\<lambda>h. ho_Health h = HostHealthHealthy \<and> (case ho_LastHeartbeat h of None \<Rightarrow> False | Some t \<Rightarrow> \<not> t < now - staleness)"
  let ?act = "sort_key ho_CreatedAt (filter (\<lambda>h. ho_Status h = HostStatusActive) (h_rows db'))"
  obtain r db1 where r: "hostRepository_ListByStatus HostStatusActive db = (r, db1)" by (metis surj_pair)
  then obtain hosts where h: "r = Inr hosts" using assms by (cases r) (auto simp: ListLive_def)
  with r assms have e: "db1 = db'" "live = filter ?P hosts" by (auto simp: ListLive_def Let_def)
  have "hosts = ?act"
    using read_hosts_ok [OF r [unfolded h hostRepository_ListByStatus_def]] e by simp
  with e have live: "live = filter ?P ?act" by simp
  have ids: "distinct (map ho_ID (filter ?P ?act))" if "distinct (map ho_ID (h_rows db'))"
  proof -
    have "distinct (map ho_ID (filter (\<lambda>h. ho_Status h = HostStatusActive) (h_rows db')))"
      using that by (rule distinct_map_filter)
    then have "distinct (map ho_ID ?act)"
      by (simp add: distinct_map distinct_sort)
    then show ?thesis by (rule distinct_map_filter)
  qed
  have "sorted (map ho_CreatedAt ?act)" by simp
  then have "sorted (map ho_CreatedAt (filter ?P ?act))" by (rule sorted_filter)
  with ids live show ?thesis by (auto split: option.splits)
qed

text \<open>The scheduler's candidates are exactly the usable hosts: at the moment it reads the
  table, \<open>ListLive\<close> returns the hosts that are active, healthy and have a heartbeat no
  older than the staleness bound (a host that never sent one is never live), each once per row,
  oldest registration first.\<close>

theorem ListLive_exact:
  assumes "ListLive now staleness db = (Inr live, db')"
  shows "set live = {h \<in> set (h_rows db'). ho_Status h = HostStatusActive \<and> ho_Health h = HostHealthHealthy \<and>
      (\<exists>t. ho_LastHeartbeat h = Some t \<and> now - staleness \<le> t)} \<and>
    sorted (map ho_CreatedAt live) \<and> (distinct (map ho_ID (h_rows db')) \<longrightarrow> distinct (map ho_ID live))"
  by (rule ListLive_ok [OF assms])

theorem ListLive_exact_witness:
  "\<exists>live db'. ListLive 10 5 \<lparr>h_rows = [admit_host 7 (demo_host 3), demo_host 4], h_script = []\<rparr> = (Inr live, db') \<and>
     set live = {admit_host 7 (demo_host 3)}"
proof -
  let ?db = "\<lparr>h_rows = [admit_host 7 (demo_host 3), demo_host 4], h_script = []\<rparr> :: host_db"
  have q: "ListLive 10 5 ?db = (Inr [admit_host 7 (demo_host 3)], ?db)"
    by (simp add: ListLive_def hostRepository_ListByStatus_def admit_host_def demo_host_def)
  from ListLive_exact [OF q] q show ?thesis by auto
qed

section \<open>Lost updates\<close>


text \<open>The same write-back undoes a cordon that an operator sets while the host re-registers.\<close>

theorem reregister_undoes_concurrent_cordon:
  "let db = \<lparr>h_rows = [demo_host 3], h_script =
          [\<lparr>he_before = [], he_fault = NoFault\<rparr>, \<lparr>he_before = [SetStatus 3 HostStatusCordoned], he_fault = NoFault\<rparr>]\<rparr>;
       (r, db1) = RegisterHost False 0 5 (demo_host 3) db
   in is_ok r \<and> map ho_Status (h_rows db1) = [HostStatusActive]"
  by (simp add: registry_ops demo_host_def demo_domain Let_def)

end
