(* ===== verification/Fleet_Scheduler.thy ===== *)
theory Fleet_Scheduler
  imports Host_Registry
begin

text \<open>
  Placement (\<open>internal/usecase/fleet_scheduler.go\<close>): one live host for one replica.  The live-host
  lister is an interface (locale \<open>live_host_lister\<close>), interpreted on the registry; the
  replica and app stores are read-only here and are functions.  The per-call app cache of the
  source returns what the store returned first and is not visible in the result.
  \<open>uuid.UUID.String\<close> is a parameter.
\<close>

record PlacementRequest =
  pr_AppID :: uuid
  pr_NeedVCPU :: int
  pr_NeedMemMB :: int
  pr_NeedDiskMB :: int
  pr_Constraint :: PlacementConstraint
  pr_AffinityHostID :: "uuid option"
  pr_AffinityLabels :: "(string \<times> string) list"

fun occupyingState :: "ReplicaState \<Rightarrow> bool" where
  "occupyingState ReplicaStateScheduled = True"
| "occupyingState ReplicaStateBooting = True"
| "occupyingState ReplicaStateResident = True"
| "occupyingState ReplicaStatePaused = True"
| "occupyingState _ = False"

text \<open>\<open>want\<close> is the list of the entries of the map.\<close>

definition labelsSuperset :: "(string \<rightharpoonup> string) \<Rightarrow> (string \<times> string) list \<Rightarrow> bool" where
  "labelsSuperset have want = list_all (\<lambda>(k, v). have k = Some v) want"

record candidate =
  ca_hostID :: uuid
  ca_freeVCPU :: int
  ca_freeMemMB :: int
  ca_appReplica :: int

definition appResources :: "(uuid \<Rightarrow> FleetApp fleet_result) \<Rightarrow> uuid \<Rightarrow> int \<times> int" where
  "appResources findApp appID =
     (case findApp appID of Inl _ \<Rightarrow> (0, 0) | Inr app \<Rightarrow> (fa_ResourcesVCPU app, fa_ResourcesMemMB app))"

text \<open>The accounting loop over the replicas of one host: used vCPU, used memory, replicas of the app.\<close>

definition account ::
  "(uuid \<Rightarrow> FleetApp fleet_result) \<Rightarrow> uuid \<Rightarrow> Replica list \<Rightarrow> int \<times> int \<times> int" where
  "account findApp appID placed =
     foldl (\<lambda>(v, m, n) r.
        if \<not> occupyingState (re_State r) then (v, m, n)
        else let (dv, dm) = appResources findApp (re_AppID r)
             in (go_add v dv, go_add m dm, if re_AppID r = appID then n + 1 else n))
       (0, 0, 0) placed"

text \<open>The candidate loop: \<open>Inl\<close> is the error of the replica store.\<close>

fun collect_candidates ::
  "(uuid \<Rightarrow> Replica list fleet_result) \<Rightarrow> (uuid \<Rightarrow> FleetApp fleet_result) \<Rightarrow> PlacementRequest \<Rightarrow> Host list \<Rightarrow>
   candidate list fleet_result" where
  "collect_candidates listByHost findApp req [] = Inr []"
| "collect_candidates listByHost findApp req (h # live) =
    (if (case pr_AffinityHostID req of None \<Rightarrow> False | Some i \<Rightarrow> ho_ID h \<noteq> i)
     then collect_candidates listByHost findApp req live
     else if \<not> labelsSuperset (ho_Labels h) (pr_AffinityLabels req)
     then collect_candidates listByHost findApp req live
     else (case listByHost (ho_ID h) of
        Inl e \<Rightarrow> Inl e
      | Inr placed \<Rightarrow>
        (case account findApp (pr_AppID req) placed of (usedVCPU, usedMemMB, appReplica) \<Rightarrow>
         let freeVCPU = go_sub (ho_CapacityVCPU h) usedVCPU;
             freeMemMB = go_sub (ho_CapacityMemMB h) usedMemMB;
             freeDiskMB = ho_CapacityDiskMB h
         in if freeVCPU < pr_NeedVCPU req \<or> freeMemMB < pr_NeedMemMB req \<or> freeDiskMB < pr_NeedDiskMB req
            then collect_candidates listByHost findApp req live
            else (case collect_candidates listByHost findApp req live of
               Inl e \<Rightarrow> Inl e
             | Inr cs \<Rightarrow> Inr (\<lparr>ca_hostID = ho_ID h, ca_freeVCPU = freeVCPU, ca_freeMemMB = freeMemMB,
                 ca_appReplica = appReplica\<rparr> # cs)))))"

definition spread_less :: "(uuid \<Rightarrow> string) \<Rightarrow> candidate \<Rightarrow> candidate \<Rightarrow> bool" where
  "spread_less uuidString a b =
     (if ca_appReplica a \<noteq> ca_appReplica b then ca_appReplica a < ca_appReplica b
      else if ca_freeVCPU a \<noteq> ca_freeVCPU b then ca_freeVCPU a > ca_freeVCPU b
      else string_less (uuidString (ca_hostID a)) (uuidString (ca_hostID b)))"

definition binpack_less :: "(uuid \<Rightarrow> string) \<Rightarrow> candidate \<Rightarrow> candidate \<Rightarrow> bool" where
  "binpack_less uuidString a b =
     (if ca_freeVCPU a \<noteq> ca_freeVCPU b then ca_freeVCPU a < ca_freeVCPU b
      else if ca_freeMemMB a \<noteq> ca_freeMemMB b then ca_freeMemMB a < ca_freeMemMB b
      else string_less (uuidString (ca_hostID a)) (uuidString (ca_hostID b)))"

text \<open>The head of a slice sorted with \<open>sort.Slice\<close>: a least element.  With distinct host ids it is
  the only one, so the instability of the sort does not show.\<close>

fun least :: "('a \<Rightarrow> 'a \<Rightarrow> bool) \<Rightarrow> 'a \<Rightarrow> 'a list \<Rightarrow> 'a" where
  "least lt b [] = b"
| "least lt b (c # cs) = least lt (if lt c b then c else b) cs"

definition SelectHost ::
  "(uuid \<Rightarrow> string) \<Rightarrow> (int \<Rightarrow> 'db \<Rightarrow> Host list fleet_result \<times> 'db) \<Rightarrow>
   (uuid \<Rightarrow> Replica list fleet_result) \<Rightarrow> (uuid \<Rightarrow> FleetApp fleet_result) \<Rightarrow> int \<Rightarrow> PlacementRequest \<Rightarrow> 'db \<Rightarrow>
   uuid fleet_result \<times> 'db" where
  "SelectHost uuidString listLive listByHost findApp staleness req db =
    (case listLive staleness db of
       (Inl e, db1) \<Rightarrow> (Inl e, db1)
     | (Inr live, db1) \<Rightarrow>
       if live = [] then (Inl ErrNoSchedulableHost, db1)
       else (case collect_candidates listByHost findApp req live of
          Inl e \<Rightarrow> (Inl e, db1)
        | Inr [] \<Rightarrow> (Inl ErrNoSchedulableHost, db1)
        | Inr (c # cs) \<Rightarrow>
          (Inr (ca_hostID (least (if pr_Constraint req = PlacementConstraintSpread then spread_less uuidString
              else binpack_less uuidString) c cs)), db1)))"

definition IsHostLive :: "(int \<Rightarrow> 'db \<Rightarrow> Host list fleet_result \<times> 'db) \<Rightarrow> int \<Rightarrow> uuid \<Rightarrow> 'db \<Rightarrow> bool fleet_result \<times> 'db" where
  "IsHostLive listLive staleness hostID db =
    (case listLive staleness db of
       (Inl e, db1) \<Rightarrow> (Inl e, db1)
     | (Inr live, db1) \<Rightarrow> (Inr (\<exists>h \<in> set live. ho_ID h = hostID), db1))"

section \<open>Exact accounting\<close>

definition occupying_sum :: "(Replica \<Rightarrow> int) \<Rightarrow> Replica list \<Rightarrow> int" where
  "occupying_sum f placed = sum_list (map f (filter (\<lambda>r. occupyingState (re_State r)) placed))"

definition free_vcpu :: "(uuid \<Rightarrow> FleetApp fleet_result) \<Rightarrow> Host \<Rightarrow> Replica list \<Rightarrow> int" where
  "free_vcpu findApp h placed = ho_CapacityVCPU h - occupying_sum (\<lambda>r. fst (appResources findApp (re_AppID r))) placed"

definition free_mem :: "(uuid \<Rightarrow> FleetApp fleet_result) \<Rightarrow> Host \<Rightarrow> Replica list \<Rightarrow> int" where
  "free_mem findApp h placed = ho_CapacityMemMB h - occupying_sum (\<lambda>r. snd (appResources findApp (re_AppID r))) placed"

definition app_replicas :: "uuid \<Rightarrow> Replica list \<Rightarrow> int" where
  "app_replicas appID placed = occupying_sum (\<lambda>r. if re_AppID r = appID then 1 else 0) placed"

text \<open>The specification of a placement: what a host must offer, and which fitting host is best.\<close>

definition eligible :: "PlacementRequest \<Rightarrow> Host \<Rightarrow> bool" where
  "eligible req h \<longleftrightarrow> (\<forall>i. pr_AffinityHostID req = Some i \<longrightarrow> ho_ID h = i) \<and>
     (\<forall>(k, v) \<in> set (pr_AffinityLabels req). ho_Labels h k = Some v)"

definition fits :: "(uuid \<Rightarrow> FleetApp fleet_result) \<Rightarrow> PlacementRequest \<Rightarrow> Host \<Rightarrow> Replica list \<Rightarrow> bool" where
  "fits findApp req h placed \<longleftrightarrow> pr_NeedVCPU req \<le> free_vcpu findApp h placed \<and>
     pr_NeedMemMB req \<le> free_mem findApp h placed \<and> pr_NeedDiskMB req \<le> ho_CapacityDiskMB h"

definition candidate_of :: "(uuid \<Rightarrow> FleetApp fleet_result) \<Rightarrow> PlacementRequest \<Rightarrow> Host \<Rightarrow> Replica list \<Rightarrow> candidate" where
  "candidate_of findApp req h placed = \<lparr>ca_hostID = ho_ID h, ca_freeVCPU = free_vcpu findApp h placed,
     ca_freeMemMB = free_mem findApp h placed, ca_appReplica = app_replicas (pr_AppID req) placed\<rparr>"

lemma wrap64_add: "wrap64 (wrap64 a + b) = wrap64 (a + b)"
  unfolding wrap64_congr by (metis mod_add_left_eq wrap64_mod)

lemma wrap64_diff: "wrap64 (a - wrap64 b) = wrap64 (a - b)"
  unfolding wrap64_congr by (metis mod_diff_right_eq wrap64_mod)

lemma account_fold:
  "foldl (\<lambda>(v, m, n) r. if \<not> occupyingState (re_State r) then (v, m, n)
        else let (dv, dm) = appResources findApp (re_AppID r)
             in (go_add v dv, go_add m dm, if re_AppID r = appID then n + 1 else n)) (wrap64 v, wrap64 m, n) placed =
   (wrap64 (v + occupying_sum (\<lambda>r. fst (appResources findApp (re_AppID r))) placed),
    wrap64 (m + occupying_sum (\<lambda>r. snd (appResources findApp (re_AppID r))) placed), n + app_replicas appID placed)"
proof (induction placed arbitrary: v m n)
  case (Cons r placed)
  obtain dv dm where d: "appResources findApp (re_AppID r) = (dv, dm)" by (metis surj_pair)
  have s: "go_add (wrap64 v) dv = wrap64 (v + dv)" "go_add (wrap64 m) dm = wrap64 (m + dm)"
    by (simp_all add: go_add_def wrap64_add)
  show ?case
    using Cons.IH [of "v + dv" "m + dm"] Cons.IH [of v m n] d s
    by (simp add: occupying_sum_def app_replicas_def algebra_simps)
qed (simp add: occupying_sum_def app_replicas_def)

lemma account_exact:
  "account findApp appID placed =
     (wrap64 (occupying_sum (\<lambda>r. fst (appResources findApp (re_AppID r))) placed),
      wrap64 (occupying_sum (\<lambda>r. snd (appResources findApp (re_AppID r))) placed), app_replicas appID placed)"
proof -
  have "wrap64 0 = 0" by (simp add: wrap64_def)
  then show ?thesis using account_fold [of findApp appID 0 0 0 placed] by (simp add: account_def)
qed

lemma go_free:
  "in_int64 (c - s) \<Longrightarrow> go_sub c (wrap64 s) = c - s"
  by (simp add: go_sub_def wrap64_diff)

lemma labelsSuperset_iff: "labelsSuperset l want \<longleftrightarrow> (\<forall>(k, v) \<in> set want. l k = Some v)"
  by (simp add: labelsSuperset_def list_all_iff)

definition no_overflow :: "(uuid \<Rightarrow> Replica list fleet_result) \<Rightarrow> (uuid \<Rightarrow> FleetApp fleet_result) \<Rightarrow> Host \<Rightarrow> bool" where
  "no_overflow listByHost findApp h \<longleftrightarrow> (\<forall>placed. listByHost (ho_ID h) = Inr placed \<longrightarrow>
     in_int64 (free_vcpu findApp h placed) \<and> in_int64 (free_mem findApp h placed))"

lemma collect_candidates_spec:
  assumes "collect_candidates listByHost findApp req live = Inr cs" "\<forall>h \<in> set live. no_overflow listByHost findApp h"
  shows "set cs = {candidate_of findApp req h placed | h placed.
      h \<in> set live \<and> eligible req h \<and> listByHost (ho_ID h) = Inr placed \<and> fits findApp req h placed}"
  using assms
proof (induction live arbitrary: cs)
  case (Cons h live)
  let ?C = "\<lambda>live. {candidate_of findApp req h placed | h placed.
      h \<in> set live \<and> eligible req h \<and> listByHost (ho_ID h) = Inr placed \<and> fits findApp req h placed}"
  have elig: "eligible req h \<longleftrightarrow> \<not> (case pr_AffinityHostID req of None \<Rightarrow> False | Some i \<Rightarrow> ho_ID h \<noteq> i) \<and>
      labelsSuperset (ho_Labels h) (pr_AffinityLabels req)"
    by (auto simp: eligible_def labelsSuperset_iff split: option.splits)
  show ?case
  proof (cases "eligible req h")
    case False
    with Cons elig have "set cs = ?C live" by (auto split: if_splits)
    with False show ?thesis by auto
  next
    case True
    then obtain placed where p: "listByHost (ho_ID h) = Inr placed"
      using Cons.prems(1) elig by (cases "listByHost (ho_ID h)") (auto split: if_splits)
    have no: "in_int64 (free_vcpu findApp h placed)" "in_int64 (free_mem findApp h placed)"
      using Cons.prems(2) p by (auto simp: no_overflow_def)
    then have free: "go_sub (ho_CapacityVCPU h) (wrap64 (occupying_sum (\<lambda>r. fst (appResources findApp (re_AppID r))) placed)) = free_vcpu findApp h placed"
      "go_sub (ho_CapacityMemMB h) (wrap64 (occupying_sum (\<lambda>r. snd (appResources findApp (re_AppID r))) placed)) = free_mem findApp h placed"
      by (simp_all add: free_vcpu_def free_mem_def go_free)
    have step: "collect_candidates listByHost findApp req (h # live) =
       (if \<not> fits findApp req h placed then collect_candidates listByHost findApp req live
        else case collect_candidates listByHost findApp req live of Inl e \<Rightarrow> Inl e
          | Inr cs \<Rightarrow> Inr (candidate_of findApp req h placed # cs))"
      using True elig p by (auto simp: account_exact free fits_def candidate_of_def Let_def split: sum.splits)
    obtain cs' where cs': "collect_candidates listByHost findApp req live = Inr cs'"
      "cs = (if fits findApp req h placed then candidate_of findApp req h placed # cs' else cs')"
      using Cons.prems(1) [unfolded step] by (cases "collect_candidates listByHost findApp req live") (auto split: if_splits)
    have "set cs' = ?C live" using Cons.IH [OF cs'(1)] Cons.prems(2) by simp
    moreover have "?C (h # live) = (if fits findApp req h placed then insert (candidate_of findApp req h placed) (?C live) else ?C live)"
      using True p by auto
    ultimately show ?thesis using cs'(2) by simp
  qed
qed simp

section \<open>Least elements\<close>

definition strict_total :: "('a \<Rightarrow> 'a \<Rightarrow> bool) \<Rightarrow> 'a set \<Rightarrow> bool" where
  "strict_total lt A \<longleftrightarrow> (\<forall>a \<in> A. \<not> lt a a) \<and>
     (\<forall>a \<in> A. \<forall>b \<in> A. \<forall>c \<in> A. lt a b \<longrightarrow> lt b c \<longrightarrow> lt a c) \<and>
     (\<forall>a \<in> A. \<forall>b \<in> A. a \<noteq> b \<longrightarrow> lt a b \<or> lt b a)"

lemma strict_total_mono: "strict_total lt A \<Longrightarrow> B \<subseteq> A \<Longrightarrow> strict_total lt B"
  unfolding strict_total_def by (meson subsetD)

lemma strict_total_trans:
  "strict_total lt A \<Longrightarrow> a \<in> A \<Longrightarrow> b \<in> A \<Longrightarrow> c \<in> A \<Longrightarrow> lt a b \<Longrightarrow> lt b c \<Longrightarrow> lt a c"
  unfolding strict_total_def by blast

lemma strict_total_linear: "strict_total lt A \<Longrightarrow> a \<in> A \<Longrightarrow> b \<in> A \<Longrightarrow> a = b \<or> lt a b \<or> lt b a"
  unfolding strict_total_def by blast

lemma least_spec:
  "strict_total lt (insert b (set cs)) \<Longrightarrow>
     least lt b cs \<in> insert b (set cs) \<and> (\<forall>c \<in> insert b (set cs). \<not> lt c (least lt b cs))"
proof (induction cs arbitrary: b)
  case Nil
  then show ?case by (simp add: strict_total_def)
next
  case (Cons c cs)
  let ?b = "if lt c b then c else b"
  have "strict_total lt (insert ?b (set cs))"
    by (rule strict_total_mono [OF Cons.prems]) auto
  from Cons.IH [OF this] have ih: "least lt ?b cs \<in> insert ?b (set cs)"
    "\<forall>d \<in> insert ?b (set cs). \<not> lt d (least lt ?b cs)" by blast+
  let ?l = "least lt ?b cs"
  have mem: "?l \<in> insert b (set (c # cs))" using ih(1) by (auto split: if_splits)
  have "\<not> lt d ?l" if d: "d = b \<or> d = c" for d
  proof
    assume dl: "lt d ?l"
    have inA: "b \<in> insert b (set (c # cs))" "c \<in> insert b (set (c # cs))" by simp_all
    have "d = ?b \<or> lt ?b d"
      using d strict_total_linear [OF Cons.prems inA] by (cases "lt c b") auto
    moreover have "?b \<in> insert b (set (c # cs))" "d \<in> insert b (set (c # cs))" using d by auto
    ultimately have "lt ?b ?l" using dl strict_total_trans [OF Cons.prems _ _ mem] by blast
    with ih(2) show False by blast
  qed
  with ih mem show ?case by simp
qed

lemma binpack_total:
  assumes "inj us" "inj_on ca_hostID A"
  shows "strict_total (binpack_less us) A"
proof -
  have "binpack_less us a b \<or> binpack_less us b a" if "a \<in> A" "b \<in> A" "a \<noteq> b" for a b
  proof -
    have "us (ca_hostID a) \<noteq> us (ca_hostID b)" using assms that by (meson inj_eq inj_onD)
    then show ?thesis using string_less_total [of "us (ca_hostID a)"] by (auto simp: binpack_less_def)
  qed
  moreover have "binpack_less us a c" if "binpack_less us a b" "binpack_less us b c" for a b c
    using that string_less_trans [of "us (ca_hostID a)" "us (ca_hostID b)" "us (ca_hostID c)"]
    unfolding binpack_less_def by (simp split: if_splits; linarith)
  moreover have "\<not> binpack_less us a a" for a by (simp add: binpack_less_def)
  ultimately show ?thesis unfolding strict_total_def by blast
qed

lemma spread_total:
  assumes "inj us" "inj_on ca_hostID A"
  shows "strict_total (spread_less us) A"
proof -
  have "spread_less us a b \<or> spread_less us b a" if "a \<in> A" "b \<in> A" "a \<noteq> b" for a b
  proof -
    have "us (ca_hostID a) \<noteq> us (ca_hostID b)" using assms that by (meson inj_eq inj_onD)
    then show ?thesis using string_less_total [of "us (ca_hostID a)"] by (auto simp: spread_less_def)
  qed
  moreover have "spread_less us a c" if "spread_less us a b" "spread_less us b c" for a b c
    using that string_less_trans [of "us (ca_hostID a)" "us (ca_hostID b)" "us (ca_hostID c)"]
    unfolding spread_less_def by (simp split: if_splits; linarith)
  moreover have "\<not> spread_less us a a" for a by (simp add: spread_less_def)
  ultimately show ?thesis unfolding strict_total_def by blast
qed

section \<open>The live-host interface\<close>

text \<open>What the scheduler relies on: the lister returns usable hosts, each once.\<close>

locale live_host_lister =
  fixes listLive :: "int \<Rightarrow> 'db \<Rightarrow> Host list fleet_result \<times> 'db"
    and lister_inv :: "'db \<Rightarrow> bool"
    and usable :: "int \<Rightarrow> Host \<Rightarrow> 'db \<Rightarrow> bool"
  assumes live_distinct: "lister_inv db \<Longrightarrow> listLive staleness db = (Inr hs, db') \<Longrightarrow> distinct (map ho_ID hs)"
    and live_usable: "lister_inv db \<Longrightarrow> listLive staleness db = (Inr hs, db') \<Longrightarrow>
      h \<in> set hs \<longleftrightarrow> usable staleness h db'"
begin

lemma collected_total:
  assumes "lister_inv db" "listLive staleness db = (Inr live, db')" "\<forall>h \<in> set live. no_overflow listByHost findApp h"
    and "collect_candidates listByHost findApp req live = Inr cs" "inj us"
  shows "strict_total (if pr_Constraint req = PlacementConstraintSpread then spread_less us else binpack_less us) (set cs)"
proof -
  have d: "distinct (map ho_ID live)" by (rule live_distinct [OF assms(1,2)])
  have "inj_on ca_hostID (set cs)"
  proof (rule inj_onI)
    fix x y assume xy: "x \<in> set cs" "y \<in> set cs" "ca_hostID x = ca_hostID y"
    then obtain h p k q where h: "h \<in> set live" "listByHost (ho_ID h) = Inr p" "x = candidate_of findApp req h p"
      and k: "k \<in> set live" "listByHost (ho_ID k) = Inr q" "y = candidate_of findApp req k q"
      using collect_candidates_spec [OF assms(4,3)] by blast
    with xy(3) have "ho_ID h = ho_ID k" by (simp add: candidate_of_def)
    with d h(1) k(1) have "h = k" by (simp add: distinct_map inj_on_def)
    with h k show "x = y" by simp
  qed
  then show ?thesis using binpack_total spread_total assms(5) by simp
qed

text \<open>A placement is sound: the host is usable, eligible, fits, and no fitting host is better.\<close>

lemma SelectHost_sound:
  assumes "lister_inv db" "inj us"
    and "SelectHost us listLive listByHost findApp staleness req db = (Inr i, db')"
    and "\<And>h. usable staleness h db' \<Longrightarrow> no_overflow listByHost findApp h"
  obtains h placed where "usable staleness h db'" "ho_ID h = i" "eligible req h" "listByHost i = Inr placed"
    "fits findApp req h placed"
    "\<And>k q. usable staleness k db' \<Longrightarrow> eligible req k \<Longrightarrow> listByHost (ho_ID k) = Inr q \<Longrightarrow> fits findApp req k q \<Longrightarrow>
       \<not> (if pr_Constraint req = PlacementConstraintSpread then spread_less us else binpack_less us)
           (candidate_of findApp req k q) (candidate_of findApp req h placed)"
proof -
  let ?lt = "if pr_Constraint req = PlacementConstraintSpread then spread_less us else binpack_less us"
  obtain live where l: "listLive staleness db = (Inr live, db')"
    using assms(3) by (auto simp: SelectHost_def split: prod.splits sum.splits list.splits if_splits)
  obtain c cs where c: "collect_candidates listByHost findApp req live = Inr (c # cs)" "i = ca_hostID (least ?lt c cs)"
    using assms(3) l by (auto simp: SelectHost_def split: sum.splits list.splits if_splits)
  have us: "h \<in> set live \<longleftrightarrow> usable staleness h db'" for h by (rule live_usable [OF assms(1) l])
  have no: "\<forall>h \<in> set live. no_overflow listByHost findApp h" using assms(4) us by blast
  have set: "insert c (set cs) = {candidate_of findApp req h placed | h placed.
      h \<in> set live \<and> eligible req h \<and> listByHost (ho_ID h) = Inr placed \<and> fits findApp req h placed}"
    using collect_candidates_spec [OF c(1) no] by simp
  have "strict_total ?lt (insert c (set cs))" using collected_total [OF assms(1) l no c(1) assms(2)] by simp
  note b = least_spec [OF this]
  obtain h placed where h: "h \<in> set live" "eligible req h" "listByHost (ho_ID h) = Inr placed" "fits findApp req h placed"
    "least ?lt c cs = candidate_of findApp req h placed"
    using conjunct1 [OF b] set by blast
  show ?thesis
  proof (rule that [of h placed])
    show "usable staleness h db'" "ho_ID h = i" "listByHost i = Inr placed"
      using h us c(2) by (simp_all add: candidate_of_def)
    show "\<not> ?lt (candidate_of findApp req k q) (candidate_of findApp req h placed)"
      if "usable staleness k db'" "eligible req k" "listByHost (ho_ID k) = Inr q" "fits findApp req k q" for k q
    proof -
      have "candidate_of findApp req k q \<in> insert c (set cs)" unfolding set using that us by blast
      then show ?thesis using conjunct2 [OF b] unfolding h(5) by blast
    qed
  qed (use h in simp_all)
qed

text \<open>A placement is complete: refusal means that nothing fits.\<close>

lemma SelectHost_complete:
  assumes "lister_inv db" "SelectHost us listLive listByHost findApp staleness req db = (Inl ErrNoSchedulableHost, db')"
    and "\<And>h. usable staleness h db' \<Longrightarrow> no_overflow listByHost findApp h"
    and "\<And>st d d'. listLive st d \<noteq> (Inl ErrNoSchedulableHost, d')"
    and "\<And>j. listByHost j \<noteq> Inl ErrNoSchedulableHost"
    and "usable staleness h db'" "eligible req h" "listByHost (ho_ID h) = Inr placed"
  shows "\<not> fits findApp req h placed"
proof
  assume f: "fits findApp req h placed"
  obtain live where l: "listLive staleness db = (Inr live, db')"
    using assms(2,4) by (auto simp: SelectHost_def split: prod.splits sum.splits list.splits if_splits)
  have us: "h \<in> set live \<longleftrightarrow> usable staleness h db'" for h by (rule live_usable [OF assms(1) l])
  have no: "\<forall>h \<in> set live. no_overflow listByHost findApp h" using assms(3) us by blast
  have err: "collect_candidates listByHost findApp req hs \<noteq> Inl ErrNoSchedulableHost" for hs
    using assms(5) by (induction hs) (auto split: sum.splits prod.splits simp: Let_def)
  have "live \<noteq> []" using us assms(6) by auto
  then have "collect_candidates listByHost findApp req live = Inr []"
    using assms(2) l err [of live]
    by (cases "collect_candidates listByHost findApp req live") (auto simp: SelectHost_def split: list.splits)
  from collect_candidates_spec [OF this no] f assms(6-8) us show False by auto
qed

end

definition usable_host :: "instant \<Rightarrow> int \<Rightarrow> Host \<Rightarrow> host_db \<Rightarrow> bool" where
  "usable_host now staleness h db \<longleftrightarrow> h \<in> set (h_rows db) \<and> ho_Status h = HostStatusActive \<and>
     ho_Health h = HostHealthHealthy \<and> (\<exists>t. ho_LastHeartbeat h = Some t \<and> now - staleness \<le> t)"

lemma ListLive_inv: "hosts_inv (h_rows db) \<Longrightarrow> ListLive now staleness db = (r, db') \<Longrightarrow> hosts_inv (h_rows db')"
  unfolding ListLive_def hostRepository_ListByStatus_def Let_def
  by (auto split: prod.splits sum.splits dest: read_hosts_inv)

interpretation registry: live_host_lister "ListLive now" "\<lambda>db. hosts_inv (h_rows db)" "usable_host now" for now
proof
  fix db staleness hs db' h
  assume inv: "hosts_inv (h_rows db)" and l: "ListLive now staleness db = (Inr hs, db')"
  have d: "distinct (map ho_ID (h_rows db'))" using ListLive_inv [OF inv l] by (simp add: hosts_inv_def)
  note live = ListLive_ok [OF l]
  show "distinct (map ho_ID hs)" using live d by blast
  show "h \<in> set hs \<longleftrightarrow> usable_host now staleness h db'" using live by (simp add: usable_host_def)
qed

section \<open>Placement on the registry\<close>

text \<open>Claim C13.  Placement is sound and best.  Over the registry under any interleaving, a host that
  \<open>SelectHost\<close> returns was active, healthy and fresh when the table was read, matches the affinity
  host and labels, has room for the request after everything the replicas occupying it
  reserve, and no other such host beats it: under spread none has fewer replicas of the app, or as
  many and more free vCPU; otherwise none is packed more densely.\<close>

theorem SelectHost_places_best:
  assumes "hosts_inv (h_rows db)" "inj us"
    and "SelectHost us (ListLive now) listByHost findApp staleness req db = (Inr i, db')"
    and "\<forall>h. usable_host now staleness h db' \<longrightarrow> no_overflow listByHost findApp h"
  shows "\<exists>h placed. usable_host now staleness h db' \<and> ho_ID h = i \<and> eligible req h \<and> listByHost i = Inr placed \<and>
    fits findApp req h placed \<and>
    (\<forall>k q. usable_host now staleness k db' \<longrightarrow> eligible req k \<longrightarrow> listByHost (ho_ID k) = Inr q \<longrightarrow> fits findApp req k q \<longrightarrow>
      (if pr_Constraint req = PlacementConstraintSpread
       then app_replicas (pr_AppID req) placed \<le> app_replicas (pr_AppID req) q \<and>
         (app_replicas (pr_AppID req) q = app_replicas (pr_AppID req) placed \<longrightarrow> free_vcpu findApp k q \<le> free_vcpu findApp h placed)
       else free_vcpu findApp h placed \<le> free_vcpu findApp k q \<and>
         (free_vcpu findApp k q = free_vcpu findApp h placed \<longrightarrow> free_mem findApp h placed \<le> free_mem findApp k q)))"
proof -
  obtain h placed where h: "usable_host now staleness h db'" "ho_ID h = i" "eligible req h" "listByHost i = Inr placed"
    "fits findApp req h placed"
    and best: "\<And>k q. usable_host now staleness k db' \<Longrightarrow> eligible req k \<Longrightarrow> listByHost (ho_ID k) = Inr q \<Longrightarrow> fits findApp req k q \<Longrightarrow>
       \<not> (if pr_Constraint req = PlacementConstraintSpread then spread_less us else binpack_less us)
           (candidate_of findApp req k q) (candidate_of findApp req h placed)"
    using registry.SelectHost_sound [OF assms(1-3)] assms(4) by blast
  have "if pr_Constraint req = PlacementConstraintSpread
       then app_replicas (pr_AppID req) placed \<le> app_replicas (pr_AppID req) q \<and>
         (app_replicas (pr_AppID req) q = app_replicas (pr_AppID req) placed \<longrightarrow> free_vcpu findApp k q \<le> free_vcpu findApp h placed)
       else free_vcpu findApp h placed \<le> free_vcpu findApp k q \<and>
         (free_vcpu findApp k q = free_vcpu findApp h placed \<longrightarrow> free_mem findApp h placed \<le> free_mem findApp k q)"
    if k: "usable_host now staleness k db'" "eligible req k" "listByHost (ho_ID k) = Inr q" "fits findApp req k q" for k q
    using best [OF k]
    by (cases "pr_Constraint req = PlacementConstraintSpread")
      (simp_all add: candidate_of_def spread_less_def binpack_less_def split: if_splits)
  with h show ?thesis by blast
qed

text \<open>A store with one app (two vCPU each) and one resident replica of it on host 3.\<close>

definition demo_app :: FleetApp where
  "demo_app = \<lparr>fa_ID = 1, fa_ComponentID = '''', fa_Env = '''', fa_ImageRepository = '''', fa_ImageDigest = '''',
     fa_OwnerOrg = '''', fa_SystemID = '''', fa_DesiredReplicas = 1, fa_MinReplicas = 0, fa_MaxReplicas = 1,
     fa_ScaleToZero = False, fa_Port = 0, fa_ResourcesVCPU = 2, fa_ResourcesMemMB = 512,
     fa_RestartPolicy = RestartPolicyAlways, fa_SecretRefs = [], fa_IdleTTLSeconds = 0, fa_LastActiveAt = 0,
     fa_CreatedAt = 0, fa_UpdatedAt = 0\<rparr>"

definition demo_replica :: Replica where
  "demo_replica = \<lparr>re_ID = 5, re_AppID = 1, re_HostID = Some 3, re_ImageRepository = '''', re_ImageDigest = '''',
     re_State = ReplicaStateResident, re_Endpoint = '''', re_GuestIP = '''', re_HostPort = 0, re_NetIndex = 0,
     re_RootfsPath = '''', re_SocketPath = '''', re_TapName = '''', re_Port = 0, re_PID = None, re_ExitCode = None,
     re_RestartPolicy = RestartPolicyAlways, re_Message = '''', re_CreatedAt = 0, re_UpdatedAt = 0\<rparr>"

definition demo_listByHost :: "uuid \<Rightarrow> Replica list fleet_result" where
  "demo_listByHost i = Inr (if i = 3 then [demo_replica] else [])"

definition demo_findApp :: "uuid \<Rightarrow> FleetApp fleet_result" where
  "demo_findApp i = Inr demo_app"

definition demo_req :: PlacementRequest where
  "demo_req = \<lparr>pr_AppID = 1, pr_NeedVCPU = 2, pr_NeedMemMB = 512, pr_NeedDiskMB = 0,
     pr_Constraint = PlacementConstraintSpread, pr_AffinityHostID = None, pr_AffinityLabels = []\<rparr>"

definition two_hosts :: host_db where
  "two_hosts = \<lparr>h_rows = [admit_host 7 (demo_host 3), admit_host 8 (demo_host 4)], h_script = []\<rparr>"

definition plain_string :: "uuid \<Rightarrow> string" where "plain_string u = dec (unat u)"

lemma inj_plain_string: "inj plain_string"
  by (rule injI) (simp add: plain_string_def dec_inj word_unat_eq_iff)

lemma two_hosts_live:
  "ListLive 10 5 two_hosts = (Inr [admit_host 7 (demo_host 3), admit_host 8 (demo_host 4)], two_hosts)"
  by (simp add: ListLive_def hostRepository_ListByStatus_def two_hosts_def admit_host_def demo_host_def)

lemma two_hosts_inv: "hosts_inv (h_rows two_hosts)"
  by (simp add: two_hosts_def hosts_inv_def admit_host_def demo_host_def ordinal_fence_def)

lemma two_hosts_cand:
  "collect_candidates demo_listByHost demo_findApp demo_req [admit_host 7 (demo_host 3), admit_host 8 (demo_host 4)] =
    Inr [\<lparr>ca_hostID = 3, ca_freeVCPU = 6, ca_freeMemMB = 7488, ca_appReplica = 1\<rparr>,
         \<lparr>ca_hostID = 4, ca_freeVCPU = 8, ca_freeMemMB = 8000, ca_appReplica = 0\<rparr>]"
  by (simp add: demo_req_def labelsSuperset_def demo_listByHost_def admit_host_def demo_host_def account_def
      demo_replica_def appResources_def demo_findApp_def demo_app_def go_add_def go_sub_def wrap64_def Let_def)

lemma two_hosts_select:
  "SelectHost plain_string (ListLive 10) demo_listByHost demo_findApp 5 demo_req two_hosts = (Inr 4, two_hosts)"
proof -
  have "pr_Constraint demo_req = PlacementConstraintSpread" by (simp add: demo_req_def)
  then show ?thesis
    unfolding SelectHost_def two_hosts_live prod.case sum.case two_hosts_cand list.case
    by (simp add: spread_less_def)
qed

lemma two_hosts_no_overflow:
  "usable_host 10 5 h two_hosts \<Longrightarrow> no_overflow demo_listByHost demo_findApp h"
  by (auto simp: usable_host_def two_hosts_def no_overflow_def demo_listByHost_def admit_host_def demo_host_def
      free_vcpu_def free_mem_def occupying_sum_def demo_replica_def appResources_def demo_findApp_def demo_app_def
      in_int64_def min_int64_def max_int64_def)

theorem SelectHost_places_best_witness:
  "\<exists>h placed. usable_host 10 5 h two_hosts \<and> ho_ID h = 4 \<and> demo_listByHost 4 = Inr placed \<and>
     fits demo_findApp demo_req h placed"
  using SelectHost_places_best [OF two_hosts_inv inj_plain_string two_hosts_select] two_hosts_no_overflow by blast

text \<open>Claim C14.  Placement refuses only when nothing fits.  When \<open>SelectHost\<close> over the registry reports
  \<open>ErrNoSchedulableHost\<close> (a report neither of the stores makes itself), no host that was usable when
  the table was read is eligible and has room for the request.\<close>

theorem SelectHost_refuses_only_full:
  assumes "hosts_inv (h_rows db)"
    and "SelectHost us (ListLive now) listByHost findApp staleness req db = (Inl ErrNoSchedulableHost, db')"
    and "\<forall>h. usable_host now staleness h db' \<longrightarrow> no_overflow listByHost findApp h"
    and "\<forall>j. listByHost j \<noteq> Inl ErrNoSchedulableHost"
    and "usable_host now staleness h db'" "eligible req h" "listByHost (ho_ID h) = Inr placed"
  shows "\<not> fits findApp req h placed"
proof (rule registry.SelectHost_complete [OF assms(1,2) _ _ _ assms(5-7)])
  show "ListLive now st d \<noteq> (Inl ErrNoSchedulableHost, d')" for st d d'
    by (auto simp: ListLive_def hostRepository_ListByStatus_def read_hosts_def split: prod.splits sum.splits if_splits)
qed (use assms(3,4) in blast)+

theorem SelectHost_refuses_only_full_witness:
  "\<not> fits demo_findApp (demo_req\<lparr>pr_NeedVCPU := 9\<rparr>) (admit_host 8 (demo_host 4)) []"
proof (rule SelectHost_refuses_only_full [OF two_hosts_inv, of plain_string 10 demo_listByHost demo_findApp 5 _ two_hosts])
  have "collect_candidates demo_listByHost demo_findApp (demo_req\<lparr>pr_NeedVCPU := 9\<rparr>)
      [admit_host 7 (demo_host 3), admit_host 8 (demo_host 4)] = Inr []"
    by (simp add: demo_req_def labelsSuperset_def demo_listByHost_def admit_host_def demo_host_def account_def
      demo_replica_def appResources_def demo_findApp_def demo_app_def go_add_def go_sub_def wrap64_def Let_def)
  then show "SelectHost plain_string (ListLive 10) demo_listByHost demo_findApp 5 (demo_req\<lparr>pr_NeedVCPU := 9\<rparr>) two_hosts =
      (Inl ErrNoSchedulableHost, two_hosts)"
    unfolding SelectHost_def two_hosts_live prod.case sum.case by simp
qed (use two_hosts_no_overflow in \<open>auto simp: demo_listByHost_def usable_host_def two_hosts_def admit_host_def
      demo_host_def eligible_def demo_req_def\<close>)

end
