(* ===== verification/Net_Allocator.thy ===== *)
theory Net_Allocator
  imports Net_Lease_Repo
begin

text \<open>
  The per-host allocator of \<open>internal/usecase/fleet_net_allocator.go\<close> over any store that
  meets \<open>net_lease_store\<close>.  The clock and the id generator are an argument: the list of the
  (id, instant) pairs the successive attempts stamp on their lease.  Logging and the
  outcome counters are not modelled.
\<close>

definition netLeaseAcquireAttempts :: nat where "netLeaseAcquireAttempts = 32"

record 'db FleetNetAllocator =
  na_leases :: "'db NetLeaseRepository option"
  na_selfHost :: uuid
  na_ordinal :: int
  na_uidBase :: int
  na_uidSpan :: int

text \<open>The scan for the lowest candidate that is not taken; \<open>None\<close> is the source's slot 0.\<close>

definition lowest_free_slot :: "int list \<Rightarrow> int option" where
  "lowest_free_slot taken = find (\<lambda>c. c \<notin> set taken) [1..NetMaxSlot]"

definition stamp_lease ::
  "'db FleetNetAllocator \<Rightarrow> NetLeaseOwnerKind \<Rightarrow> uuid \<Rightarrow> uuid \<times> instant \<Rightarrow> NetLease \<Rightarrow> NetLease" where
  "stamp_lease a kind ownerID fresh lease =
     lease\<lparr>nl_ID := fst fresh, nl_HostID := na_selfHost a, nl_OwnerKind := kind,
       nl_OwnerID := ownerID, nl_CreatedAt := snd fresh, nl_UpdatedAt := snd fresh\<rparr>"

text \<open>The retry loop.  The list of fresh pairs is as long as the attempts left.\<close>

fun acquire_loop ::
  "'db NetLeaseRepository \<Rightarrow> 'db FleetNetAllocator \<Rightarrow> NetLeaseOwnerKind \<Rightarrow> uuid \<Rightarrow>
   (uuid \<times> instant) list \<Rightarrow> int list \<Rightarrow> 'db \<Rightarrow> NetLease fleet_result \<times> 'db" where
  "acquire_loop repo a kind ownerID [] tried db = (Inl ErrNetLeaseConflict, db)"
| "acquire_loop repo a kind ownerID (fresh # rest) tried db =
    (case lr_UsedSlots repo (na_selfHost a) db of
       (Inl e, db1) \<Rightarrow> (Inl e, db1)
     | (Inr used, db1) \<Rightarrow>
       (case lowest_free_slot (used @ tried) of
          None \<Rightarrow> (Inl ErrNetLeaseExhausted, db1)
        | Some slot \<Rightarrow>
          (case DeriveNetLease (na_ordinal a) slot (na_uidBase a) of
             Inl e \<Rightarrow> (Inl e, db1)
           | Inr derived \<Rightarrow>
             if nl_VMUID derived \<ge> go_add (na_uidBase a) (na_uidSpan a)
             then (Inl ErrNetCoordinateOutOfRange, db1)
             else let lease = stamp_lease a kind ownerID fresh derived in
               (case lr_Acquire repo lease db1 of
                  (Inr _, db2) \<Rightarrow> (Inr lease, db2)
                | (Inl e, db2) \<Rightarrow>
                  if e \<noteq> ErrNetLeaseConflict then (Inl e, db2)
                  else (case lr_FindByOwner repo kind ownerID db2 of
                     (Inr h, db3) \<Rightarrow>
                       if nl_HostID h = na_selfHost a then (Inr h, db3)
                       else acquire_loop repo a kind ownerID rest (slot # tried) db3
                   | (Inl _, db3) \<Rightarrow> acquire_loop repo a kind ownerID rest (slot # tried) db3)))))"

definition FleetNetAllocator_acquire ::
  "'db FleetNetAllocator \<Rightarrow> NetLeaseOwnerKind \<Rightarrow> uuid \<Rightarrow> (uuid \<times> instant) list \<Rightarrow> 'db \<Rightarrow>
   NetLease fleet_result \<times> 'db" where
  "FleetNetAllocator_acquire a kind ownerID fresh db =
    (case na_leases a of
       None \<Rightarrow> (Inl ErrNetPlaneUnreconciled, db)
     | Some repo \<Rightarrow>
       if \<not> NetLeaseOwnerKind_IsValid kind then (Inl ErrNetCoordinateOutOfRange, db)
       else if ownerID = uuid_Nil then (Inl ErrNetCoordinateOutOfRange, db)
       else if na_selfHost a = uuid_Nil then (Inl ErrHostNetOrdinalUnset, db)
       else if na_ordinal a < 0 then (Inl ErrHostNetOrdinalUnset, db)
       else (case lr_FindByOwner repo kind ownerID db of
          (Inr existing, db1) \<Rightarrow>
            if nl_HostID existing \<noteq> na_selfHost a then (Inl ErrNetLeaseConflict, db1)
            else (Inr existing, db1)
        | (Inl e, db1) \<Rightarrow>
            if e \<noteq> ErrNetLeaseNotFound then (Inl e, db1)
            else acquire_loop repo a kind ownerID (take netLeaseAcquireAttempts fresh) [] db1))"

definition FleetNetAllocator_Release ::
  "'db FleetNetAllocator \<Rightarrow> NetLeaseOwnerKind \<Rightarrow> uuid \<Rightarrow> 'db \<Rightarrow> unit fleet_result \<times> 'db" where
  "FleetNetAllocator_Release a kind ownerID db =
    (case na_leases a of
       None \<Rightarrow> (Inl ErrNetPlaneUnreconciled, db)
     | Some repo \<Rightarrow>
       if \<not> NetLeaseOwnerKind_IsValid kind \<or> ownerID = uuid_Nil
       then (Inl ErrNetCoordinateOutOfRange, db)
       else (case lr_FindByOwner repo kind ownerID db of
          (Inl e, db1) \<Rightarrow> if e = ErrNetLeaseNotFound then (Inr (), db1) else (Inl e, db1)
        | (Inr lease, db1) \<Rightarrow>
            if nl_HostID lease \<noteq> na_selfHost a then (Inl ErrNetLeaseConflict, db1)
            else lr_Release repo kind ownerID db1))"

section \<open>The allocator over an abstract store\<close>

lemma stamp_lease_fields [simp]:
  "nl_HostID (stamp_lease a k i f l) = na_selfHost a" "owned_by k i (stamp_lease a k i f l)"
  "nl_LocalSlot (stamp_lease a k i f l) = nl_LocalSlot l" "nl_VMUID (stamp_lease a k i f l) = nl_VMUID l"
  "nl_NetIndex (stamp_lease a k i f l) = nl_NetIndex l" "nl_HostOrdinal (stamp_lease a k i f l) = nl_HostOrdinal l"
  "nl_HostIP (stamp_lease a k i f l) = nl_HostIP l" "nl_GuestIP (stamp_lease a k i f l) = nl_GuestIP l"
  "nl_TapName (stamp_lease a k i f l) = nl_TapName l" "nl_ID (stamp_lease a k i f l) = fst f"
  "nl_OwnerKind (stamp_lease a k i f l) = k" "nl_OwnerID (stamp_lease a k i f l) = i"
  by (simp_all add: stamp_lease_def owned_by_def)

text \<open>What a lease handed out to \<open>(kind, ownerID)\<close> on this host must be.\<close>

definition granted :: "'db FleetNetAllocator \<Rightarrow> NetLeaseOwnerKind \<Rightarrow> uuid \<Rightarrow> NetLease \<Rightarrow> bool" where
  "granted a kind ownerID l \<longleftrightarrow> nl_HostID l = na_selfHost a \<and> owned_by kind ownerID l"

context net_lease_store
begin

lemma acquire_loop_inv:
  "store_inv db \<Longrightarrow> acquire_loop repo a kind ownerID fresh tried db = (r, db') \<Longrightarrow> store_inv db'"
proof (induction fresh arbitrary: tried db)
  case (Cons f rest)
  from Cons.prems show ?case
    by (auto split: prod.splits sum.splits option.splits if_splits simp: Let_def)
      (meson Cons.IH inv_UsedSlots inv_Acquire inv_FindByOwner)+
qed simp

lemma acquire_loop_granted:
  "acquire_loop repo a kind ownerID fresh tried db = (Inr l, db') \<Longrightarrow>
     l \<in> set (held db') \<and> granted a kind ownerID l"
proof (induction fresh arbitrary: tried db)
  case (Cons f rest)
  from Cons.prems show ?case
    by (auto split: prod.splits sum.splits option.splits if_splits simp: Let_def granted_def
        dest: Cons.IH Acquire_held FindByOwner_held)
qed simp

lemma acquire_inv:
  assumes "store_inv db" "na_leases a = Some repo"
    and "FleetNetAllocator_acquire a kind ownerID fresh db = (r, db')"
  shows "store_inv db'"
  using assms
  by (auto simp: FleetNetAllocator_acquire_def split: if_splits prod.splits sum.splits
      dest: inv_FindByOwner acquire_loop_inv)

lemma acquire_granted:
  assumes "na_leases a = Some repo"
    and "FleetNetAllocator_acquire a kind ownerID fresh db = (Inr l, db')"
  shows "l \<in> set (held db') \<and> granted a kind ownerID l"
  using assms
  by (auto simp: FleetNetAllocator_acquire_def granted_def split: if_splits prod.splits sum.splits
      dest: FindByOwner_held acquire_loop_granted [unfolded granted_def])

lemma release_inv:
  assumes "store_inv db" "na_leases a = Some repo"
    and "FleetNetAllocator_Release a kind ownerID db = (r, db')"
  shows "store_inv db'"
  using assms
  by (auto simp: FleetNetAllocator_Release_def split: if_splits prod.splits sum.splits
      dest: inv_FindByOwner inv_Release)

text \<open>Whoever else holds a row when a lease is handed out holds different coordinates.\<close>

lemma acquire_isolated:
  assumes "store_inv db" "na_leases a = Some repo"
    and "FleetNetAllocator_acquire a kind ownerID fresh db = (Inr l, db')"
    and "r \<in> set (held db')" "r \<noteq> l"
  shows "nl_NetIndex r \<noteq> nl_NetIndex l \<and> \<not> owned_by kind ownerID r \<and>
    (nl_HostID r = na_selfHost a \<longrightarrow>
       nl_LocalSlot r \<noteq> nl_LocalSlot l \<and> nl_VMUID r \<noteq> nl_VMUID l \<and> nl_TapName r \<noteq> nl_TapName l)"
proof -
  note g = acquire_granted [OF assms(2,3)]
  have "store_inv db'" using assms(1-3) by (rule acquire_inv)
  from held_isolated [OF this assms(4) conjunct1 [OF g] assms(5)] g show ?thesis
    by (auto simp: granted_def owned_by_def)
qed

end

section \<open>Lowest free slot\<close>

lemma lowest_free_slot_Some:
  "lowest_free_slot taken = Some s \<longleftrightarrow>
     1 \<le> s \<and> s \<le> NetMaxSlot \<and> s \<notin> set taken \<and> (\<forall>c. 1 \<le> c \<and> c < s \<longrightarrow> c \<in> set taken)"
proof -
  have len: "length [1..NetMaxSlot] = nat NetMaxSlot" by simp
  have nth: "[1..NetMaxSlot] ! j = 1 + int j" if "j < nat NetMaxSlot" for j
    using that by (simp add: nth_upto)
  show ?thesis
  proof
    assume "lowest_free_slot taken = Some s"
    then obtain j where j: "j < nat NetMaxSlot" "s = 1 + int j" "s \<notin> set taken"
      "\<forall>m<j. [1..NetMaxSlot] ! m \<in> set taken"
      by (auto simp: lowest_free_slot_def find_Some_iff len nth)
    have "c \<in> set taken" if "1 \<le> c" "c < s" for c
    proof -
      have "nat (c - 1) < j" using that j by auto
      with j(4) nth [of "nat (c - 1)"] j(1) that show ?thesis by force
    qed
    with j show "1 \<le> s \<and> s \<le> NetMaxSlot \<and> s \<notin> set taken \<and> (\<forall>c. 1 \<le> c \<and> c < s \<longrightarrow> c \<in> set taken)"
      by auto
  next
    assume r: "1 \<le> s \<and> s \<le> NetMaxSlot \<and> s \<notin> set taken \<and> (\<forall>c. 1 \<le> c \<and> c < s \<longrightarrow> c \<in> set taken)"
    let ?j = "nat (s - 1)"
    have "?j < nat NetMaxSlot" "s = [1..NetMaxSlot] ! ?j" using r by (auto simp: nth)
    moreover have "[1..NetMaxSlot] ! m \<in> set taken" if "m < ?j" for m
      using r that by (auto simp: nth)
    ultimately show "lowest_free_slot taken = Some s"
      using r unfolding lowest_free_slot_def find_Some_iff len by (intro exI [of _ ?j]) auto
  qed
qed

lemma lowest_free_slot_None: "lowest_free_slot taken = None \<longleftrightarrow> {1..NetMaxSlot} \<subseteq> set taken"
  by (auto simp: lowest_free_slot_def find_None_iff)

section \<open>Quiet databases\<close>

lemma quiet_ops [simp]:
  assumes "script db = []"
  shows "lr_UsedSlots pg_repo h db = (Inr (sort (map nl_LocalSlot (filter (\<lambda>r. nl_HostID r = h) (rows db)))), db)"
    and "lr_FindByOwner pg_repo k i db =
      (case find (owned_by k i) (rows db) of None \<Rightarrow> Inl ErrNetLeaseNotFound | Some l \<Rightarrow> Inr l, db)"
    and "lr_Acquire pg_repo l db =
      (case insert_row l (rows db) of Inl e \<Rightarrow> (Inl e, db) | Inr rs \<Rightarrow> (Inr (), db\<lparr>rows := rs\<rparr>))"
    and "lr_Release pg_repo k i db = (Inr (), db\<lparr>rows := delete_rows k i (rows db)\<rparr>)"
    and "lr_ListByHost pg_repo h db = (Inr (sort_key nl_LocalSlot (filter (\<lambda>r. nl_HostID r = h) (rows db))), db)"
  using assms by (simp_all add: pg_repo_def repo_defs split: sum.splits option.splits)

lemma quiet_loop_script:
  "script db = [] \<Longrightarrow> acquire_loop pg_repo a k i fresh tried db = (r, db') \<Longrightarrow> script db' = []"
proof (induction fresh arbitrary: tried db)
  case (Cons f rest)
  have "script (db\<lparr>rows := rs\<rparr>) = []" for rs using Cons.prems(1) by simp
  with Cons show ?case
    by (auto simp: Let_def split: sum.splits option.splits if_splits)
qed simp

lemma dec_length: "n < 10 ^ k \<Longrightarrow> 0 < k \<Longrightarrow> length (dec n) \<le> k"
proof (induction k arbitrary: n)
  case (Suc k)
  show ?case
  proof (cases "n < 10")
    case True
    then show ?thesis by (simp add: dec.simps [of n])
  next
    case False
    then have "k \<noteq> 0" using Suc.prems by (cases k) auto
    moreover have "n div 10 < 10 ^ k" using Suc.prems by auto
    ultimately have "length (dec (n div 10)) \<le> k" using Suc.IH by blast
    with False show ?thesis by (simp add: dec.simps [of n])
  qed
qed simp

lemma dotted_length: "a \<le> 255 \<Longrightarrow> b \<le> 255 \<Longrightarrow> c \<le> 255 \<Longrightarrow> d \<le> 255 \<Longrightarrow> length (dotted a b c d) \<le> 15"
  using dec_length [of a 3] dec_length [of b 3] dec_length [of c 3] dec_length [of d 3]
  by (simp add: dotted_def)

text \<open>A derived lease passes the table's column checks.\<close>

lemma derived_row_checks:
  assumes "DeriveNetLease ord slot uidBase = Inr l" "uidBase + 1023 < 2 ^ 31" "NetLeaseOwnerKind_IsValid kind"
  shows "row_checks (stamp_lease a kind ownerID fresh l)"
proof -
  note c = DeriveNetLease_coords [OF assms(1)]
  note ib = index_of_bounds [OF c(1)]
  have b: "1 \<le> slot" "slot \<le> 1023" "0 \<le> ord" "ord \<le> 15"
    using c(1) by (auto simp: in_plane_def net_consts)
  have "in_int64 (uidBase + slot)"
    using c(2) assms(2) b by (simp add: in_int64_def min_int64_def max_int64_def)
  then have uid: "nl_VMUID l = uidBase + slot" using c(3) by (simp add: lease_coords_def go_add_id)
  have "length (show_int slot) \<le> 4"
    using dec_length [of "nat slot" 4] b by (simp add: show_int_def)
  then have "length (nl_TapName l) \<le> 15" using c(3) by (simp add: lease_coords_def)
  moreover have "length (nl_HostIP l) \<le> 45" "length (nl_GuestIP l) \<le> 45"
    using c(3) plane_octets ib dotted_length [of 10 201] by (fastforce simp: lease_coords_def)+
  ultimately show ?thesis
    using b ib uid c(2,3) assms(2,3)
    by (simp add: row_checks_def lease_coords_def in_int32_def net_consts)
qed

section \<open>Progress\<close>

text \<open>The rows agree with the plane this allocator sees: every row carries the index of its
  ordinal and slot, the host's ordinal is used by this host only, and the rows of this host
  carry the uid and TAP name its uid base derives.\<close>

definition plane_consistent :: "'db FleetNetAllocator \<Rightarrow> NetLease list \<Rightarrow> bool" where
  "plane_consistent a rs \<longleftrightarrow> (\<forall>r \<in> set rs.
     in_plane (nl_HostOrdinal r) (nl_LocalSlot r) \<and>
     nl_NetIndex r = index_of (nl_HostOrdinal r) (nl_LocalSlot r) \<and>
     (nl_HostOrdinal r = na_ordinal a \<longrightarrow> nl_HostID r = na_selfHost a) \<and>
     (nl_HostID r = na_selfHost a \<longrightarrow>
        nl_VMUID r = na_uidBase a + nl_LocalSlot r \<and> nl_TapName r = ''img'' @ show_int (nl_LocalSlot r)))"

text \<open>An allocator whose configuration admits boots.\<close>

definition can_allocate :: "lease_db FleetNetAllocator \<Rightarrow> bool" where
  "can_allocate a \<longleftrightarrow> na_leases a = Some pg_repo \<and> na_selfHost a \<noteq> uuid_Nil \<and>
     0 \<le> na_ordinal a \<and> na_ordinal a \<le> NetMaxOrdinal \<and> 0 < na_uidBase a \<and>
     na_uidBase a + 1023 < 2 ^ 31 \<and> 1023 < na_uidSpan a \<and> na_uidSpan a < 2 ^ 31"

definition free_slot :: "lease_db FleetNetAllocator \<Rightarrow> NetLease list \<Rightarrow> int \<Rightarrow> bool" where
  "free_slot a rs s \<longleftrightarrow> 1 \<le> s \<and> s \<le> NetMaxSlot \<and>
     (\<forall>r \<in> set rs. nl_HostID r = na_selfHost a \<longrightarrow> nl_LocalSlot r \<noteq> s)"

lemma no_conflict_on_free_slot:
  assumes "plane_consistent a rs" "free_slot a rs s" "in_plane (na_ordinal a) s"
    and "lease_coords (na_ordinal a) s (na_uidBase a) l" "in_int64 (na_uidBase a + s)"
    and "\<forall>r \<in> set rs. \<not> owned_by kind ownerID r \<and> nl_ID r \<noteq> fst fresh"
    and "r \<in> set rs"
  shows "\<not> fence_conflict r (stamp_lease a kind ownerID fresh l)"
proof -
  let ?ro = "nl_HostOrdinal r" and ?rs = "nl_LocalSlot r"
  have r: "in_plane ?ro ?rs" "nl_NetIndex r = index_of ?ro ?rs"
    "?ro = na_ordinal a \<longrightarrow> nl_HostID r = na_selfHost a"
    "nl_HostID r = na_selfHost a \<longrightarrow>
        nl_VMUID r = na_uidBase a + ?rs \<and> nl_TapName r = ''img'' @ show_int ?rs"
    using assms(1,7) by (auto simp: plane_consistent_def)
  have slot: "nl_HostID r = na_selfHost a \<longrightarrow> ?rs \<noteq> s"
    using assms(2,7) by (auto simp: free_slot_def)
  have "nl_NetIndex r \<noteq> nl_NetIndex l"
    using r slot index_of_inj [OF r(1) assms(3)] assms(4) by (auto simp: lease_coords_def)
  then show ?thesis
    using r slot assms(4-7)
    by (auto simp: fence_conflict_def lease_coords_def go_add_id show_int_inj owned_by_def)
qed

lemma acquire_on_free_slot:
  assumes a: "can_allocate a" and q: "script db = []"
    and pc: "plane_consistent a (rows db)"
    and k: "NetLeaseOwnerKind_IsValid kind" "ownerID \<noteq> uuid_Nil"
    and nw: "\<forall>r \<in> set (rows db). \<not> owned_by kind ownerID r \<and> nl_ID r \<noteq> fst f"
    and fs: "free_slot a (rows db) s" "\<forall>c. free_slot a (rows db) c \<longrightarrow> s \<le> c"
  obtains l where "FleetNetAllocator_acquire a kind ownerID (f # fresh) db = (Inr l, db\<lparr>rows := rows db @ [l]\<rparr>)"
    and "nl_ID l = fst f" "lease_coords (na_ordinal a) s (na_uidBase a) l"
proof -
  let ?used = "sort (map nl_LocalSlot (filter (\<lambda>r. nl_HostID r = na_selfHost a) (rows db)))"
  have pl: "in_plane (na_ordinal a) s" using a fs by (auto simp: can_allocate_def free_slot_def in_plane_def)
  obtain l where l: "DeriveNetLease (na_ordinal a) s (na_uidBase a) = Inr l" "lease_coords (na_ordinal a) s (na_uidBase a) l"
    by (rule DeriveNetLease_ok [OF pl]) (use a in \<open>auto simp: can_allocate_def\<close>)
  have i64: "in_int64 (na_uidBase a + s)" "in_int64 (na_uidBase a + na_uidSpan a)"
    using a fs by (auto simp: can_allocate_def free_slot_def in_int64_def min_int64_def max_int64_def net_consts)
  have low: "lowest_free_slot (?used @ []) = Some s"
    using fs by (auto simp: lowest_free_slot_Some free_slot_def not_le)
  have uid: "\<not> nl_VMUID l \<ge> go_add (na_uidBase a) (na_uidSpan a)"
    using a fs l i64 by (auto simp: can_allocate_def free_slot_def lease_coords_def go_add_id net_consts)
  let ?l = "stamp_lease a kind ownerID f l"
  have "row_checks ?l" by (rule derived_row_checks [OF l(1)]) (use a k in \<open>auto simp: can_allocate_def\<close>)
  then have ins: "insert_row ?l (rows db) = Inr (rows db @ [?l])"
    using no_conflict_on_free_slot [OF pc fs(1) pl l(2) i64(1) nw] by (auto simp: insert_row_ok)
  have none: "find (owned_by kind ownerID) (rows db) = None" using nw by (auto simp: find_None_iff)
  have "FleetNetAllocator_acquire a kind ownerID (f # fresh) db = (Inr ?l, db\<lparr>rows := rows db @ [?l]\<rparr>)"
    using a k q low l uid ins none
    by (simp add: FleetNetAllocator_acquire_def can_allocate_def netLeaseAcquireAttempts_def Let_def
        take_Cons numeral_eq_Suc)
  moreover have "lease_coords (na_ordinal a) s (na_uidBase a) ?l"
    using l(2) by (simp add: lease_coords_def)
  moreover have "nl_ID ?l = fst f" by simp
  ultimately show ?thesis by (intro that)
qed

section \<open>Properties of the allocator on Postgres\<close>

text \<open>An allocator of one host of the fleet and a quiet, empty table, for the examples.\<close>

definition demo_alloc :: "lease_db FleetNetAllocator" where
  "demo_alloc = \<lparr>na_leases = Some pg_repo, na_selfHost = 9, na_ordinal = 2, na_uidBase = 100000, na_uidSpan = 1024\<rparr>"

definition demo_db :: lease_db where "demo_db = \<lparr>rows = [], script = []\<rparr>"

lemma demo_can_allocate: "can_allocate demo_alloc"
  by (simp add: can_allocate_def demo_alloc_def net_consts)

lemma demo_acquire:
  obtains l where "FleetNetAllocator_acquire demo_alloc NetLeaseOwnerReplica 7 [(1, 0)] demo_db =
      (Inr l, demo_db\<lparr>rows := [l]\<rparr>)" "nl_ID l = 1" "lease_coords 2 1 100000 l"
  by (rule acquire_on_free_slot [OF demo_can_allocate, of demo_db NetLeaseOwnerReplica 7 "(1, 0)" 1 "[]"])
    (auto simp: demo_db_def demo_alloc_def plane_consistent_def free_slot_def net_consts)

text \<open>Claim C2.  Whatever statements other allocators commit between this call's own ones, and
  whichever of its statements lose their call or their reply: a lease the allocator hands out
  is recorded in the table for exactly the requested owner on this host, and no other recorded
  lease shares its net index (its /30), its owner, or, on this host, its slot, uid or TAP.\<close>

theorem acquire_exclusive:
  assumes "fenced (rows db)" "na_leases a = Some pg_repo"
    and "FleetNetAllocator_acquire a kind ownerID fresh db = (Inr l, db')"
  shows "l \<in> set (rows db') \<and> nl_HostID l = na_selfHost a \<and> owned_by kind ownerID l \<and>
    (\<forall>r \<in> set (rows db'). r \<noteq> l \<longrightarrow>
       nl_NetIndex r \<noteq> nl_NetIndex l \<and> \<not> owned_by kind ownerID r \<and>
       (nl_HostID r = na_selfHost a \<longrightarrow>
          nl_LocalSlot r \<noteq> nl_LocalSlot l \<and> nl_VMUID r \<noteq> nl_VMUID l \<and> nl_TapName r \<noteq> nl_TapName l))"
proof -
  have "pg_inv db" using assms(1) by (simp add: pg_inv_def)
  note iso = pg.acquire_isolated [OF this assms(2,3)]
  from pg.acquire_granted [OF assms(2,3)] iso show ?thesis unfolding granted_def by blast
qed

theorem acquire_exclusive_witness:
  "\<exists>l db'. FleetNetAllocator_acquire demo_alloc NetLeaseOwnerReplica 7 [(1, 0)] demo_db = (Inr l, db') \<and>
     l \<in> set (rows db') \<and> nl_HostID l = 9 \<and> owned_by NetLeaseOwnerReplica 7 l"
proof -
  obtain l where l: "FleetNetAllocator_acquire demo_alloc NetLeaseOwnerReplica 7 [(1, 0)] demo_db = (Inr l, demo_db\<lparr>rows := [l]\<rparr>)"
    by (rule demo_acquire)
  have "fenced (rows demo_db)" "na_leases demo_alloc = Some pg_repo"
    by (simp_all add: demo_db_def demo_alloc_def)
  from acquire_exclusive [OF this l] l show ?thesis by (auto simp: demo_alloc_def)
qed

text \<open>Every history of the plane: any allocator of any host acquires or releases, under any
  interference and faults, starting from the empty table.\<close>

inductive plane_step :: "lease_db \<Rightarrow> lease_db \<Rightarrow> bool" where
  step_acquire: "na_leases a = Some pg_repo \<Longrightarrow>
     FleetNetAllocator_acquire a kind ownerID fresh db = (r, db') \<Longrightarrow> plane_step db db'"
| step_release: "na_leases a = Some pg_repo \<Longrightarrow>
     FleetNetAllocator_Release a kind ownerID db = (r', db') \<Longrightarrow> plane_step db db'"
| step_schedule: "plane_step db (db\<lparr>script := es\<rparr>)"

inductive plane_reachable :: "lease_db \<Rightarrow> bool" where
  plane_init: "rows db = [] \<Longrightarrow> plane_reachable db"
| plane_next: "plane_reachable db \<Longrightarrow> plane_step db db' \<Longrightarrow> plane_reachable db'"

lemma plane_step_inv: "plane_step db db' \<Longrightarrow> pg_inv db \<Longrightarrow> pg_inv db'"
proof (induction rule: plane_step.induct)
  case (step_acquire a kind ownerID fresh db r db')
  then show ?case by (blast intro: pg.acquire_inv)
next
  case (step_release a kind ownerID db r' db')
  then show ?case by (blast intro: pg.release_inv)
qed (simp add: pg_inv_def)

lemma plane_reachable_inv: "plane_reachable db \<Longrightarrow> pg_inv db"
  by (induction rule: plane_reachable.induct) (simp add: pg_inv_def, rule plane_step_inv)


lemma plane_two_leases:
  obtains x y db where "plane_reachable db" "rows db = [x, y]" "x \<noteq> y"
proof -
  obtain x where x: "FleetNetAllocator_acquire demo_alloc NetLeaseOwnerReplica 7 [(1, 0)] demo_db = (Inr x, demo_db\<lparr>rows := [x]\<rparr>)"
    "nl_ID x = 1" "lease_coords 2 1 100000 x"
    by (rule demo_acquire)
  have l: "na_leases demo_alloc = Some pg_repo" by (simp add: demo_alloc_def)
  have gx: "owned_by NetLeaseOwnerReplica 7 x" "nl_HostID x = 9"
    using pg.acquire_granted [OF l x(1)] by (auto simp: granted_def demo_alloc_def)
  let ?db = "demo_db\<lparr>rows := [x]\<rparr>"
  obtain y where y: "FleetNetAllocator_acquire demo_alloc NetLeaseOwnerReplica 8 [(2, 0)] ?db = (Inr y, ?db\<lparr>rows := rows ?db @ [y]\<rparr>)"
    "nl_ID y = fst (2, 0)"
  proof (rule acquire_on_free_slot [OF demo_can_allocate, of ?db NetLeaseOwnerReplica 8 "(2, 0)" 2 "[]"])
    show "plane_consistent demo_alloc (rows ?db)"
      using x(3) gx by (simp add: plane_consistent_def lease_coords_def demo_alloc_def in_plane_def
          index_of_def net_consts go_add_id in_int64_def min_int64_def max_int64_def)
    show "free_slot demo_alloc (rows ?db) 2" "\<forall>c. free_slot demo_alloc (rows ?db) c \<longrightarrow> 2 \<le> c"
      using x(3) gx by (auto simp: free_slot_def demo_alloc_def lease_coords_def net_consts)
  qed (use x gx in \<open>auto simp: demo_db_def owned_by_def\<close>)
  have "plane_reachable demo_db" by (rule plane_init) (simp add: demo_db_def)
  then have "plane_reachable ?db" by (rule plane_next) (rule step_acquire [OF l x(1)])
  then have "plane_reachable (?db\<lparr>rows := rows ?db @ [y]\<rparr>)" by (rule plane_next) (rule step_acquire [OF l y(1)])
  moreover have "x \<noteq> y" using x(2) y(2) by auto
  ultimately show ?thesis by (intro that [of "?db\<lparr>rows := rows ?db @ [y]\<rparr>"]) simp_all
qed


text \<open>Claim C9.  On a quiet database a boot gets an address whenever there is one: with the plane
  consistent, no lease held by the owner and some slot of the host free, the first attempt
  succeeds with the lowest free slot and appends exactly that lease; with all 1023 slots
  taken it refuses with \<open>ErrNetLeaseExhausted\<close> and changes nothing.\<close>

theorem acquire_progress:
  assumes "can_allocate a" "script db = []" "plane_consistent a (rows db)"
    and "NetLeaseOwnerKind_IsValid kind" "ownerID \<noteq> uuid_Nil"
    and "\<forall>r \<in> set (rows db). \<not> owned_by kind ownerID r \<and> nl_ID r \<noteq> fst f"
  shows "(\<forall>s. free_slot a (rows db) s \<and> (\<forall>c. free_slot a (rows db) c \<longrightarrow> s \<le> c) \<longrightarrow>
      (\<exists>l. FleetNetAllocator_acquire a kind ownerID (f # fresh) db = (Inr l, db\<lparr>rows := rows db @ [l]\<rparr>) \<and>
           nl_LocalSlot l = s \<and> nl_NetIndex l = na_ordinal a * 1024 + s)) \<and>
    ((\<forall>s. \<not> free_slot a (rows db) s) \<longrightarrow>
      FleetNetAllocator_acquire a kind ownerID (f # fresh) db = (Inl ErrNetLeaseExhausted, db))"
proof (intro conjI allI impI)
  fix s assume s: "free_slot a (rows db) s \<and> (\<forall>c. free_slot a (rows db) c \<longrightarrow> s \<le> c)"
  obtain l where "FleetNetAllocator_acquire a kind ownerID (f # fresh) db = (Inr l, db\<lparr>rows := rows db @ [l]\<rparr>)"
    "lease_coords (na_ordinal a) s (na_uidBase a) l"
    by (rule acquire_on_free_slot [OF assms]) (use s in blast)+
  then show "\<exists>l. FleetNetAllocator_acquire a kind ownerID (f # fresh) db = (Inr l, db\<lparr>rows := rows db @ [l]\<rparr>) \<and>
           nl_LocalSlot l = s \<and> nl_NetIndex l = na_ordinal a * 1024 + s"
    by (intro exI [of _ l]) (simp add: lease_coords_def index_of_def NetSlotStride_def)
next
  assume full: "\<forall>s. \<not> free_slot a (rows db) s"
  have "find (owned_by kind ownerID) (rows db) = None" using assms(6) by (auto simp: find_None_iff)
  moreover have "lowest_free_slot (sort (map nl_LocalSlot (filter (\<lambda>r. nl_HostID r = na_selfHost a) (rows db))) @ []) = None"
    using full by (force simp: lowest_free_slot_None free_slot_def)
  ultimately show "FleetNetAllocator_acquire a kind ownerID (f # fresh) db = (Inl ErrNetLeaseExhausted, db)"
    using assms by (simp add: FleetNetAllocator_acquire_def can_allocate_def netLeaseAcquireAttempts_def numeral_eq_Suc)
qed

theorem acquire_progress_witness:
  "\<exists>l. FleetNetAllocator_acquire demo_alloc NetLeaseOwnerWorkload 5 [(1, 0)] demo_db =
      (Inr l, demo_db\<lparr>rows := [l]\<rparr>) \<and> nl_LocalSlot l = 1 \<and> nl_NetIndex l = 2049"
proof -
  have "free_slot demo_alloc (rows demo_db) 1 \<and> (\<forall>c. free_slot demo_alloc (rows demo_db) c \<longrightarrow> 1 \<le> c)"
    by (auto simp: free_slot_def demo_db_def net_consts)
  with acquire_progress [OF demo_can_allocate, of demo_db NetLeaseOwnerWorkload 5 "(1, 0)" "[]"]
  show ?thesis by (auto simp: demo_db_def plane_consistent_def demo_alloc_def)
qed

text \<open>Allocation is idempotent per owner: once an owner was granted a lease on this
  host, asking again (a boot retried after a crash) returns that very lease and leaves the
  table unchanged, and asking from another host is refused with \<open>ErrNetLeaseConflict\<close>.\<close>

theorem acquire_idempotent:
  assumes "fenced (rows db)" "script db = []" "na_leases a = Some pg_repo"
    and "FleetNetAllocator_acquire a kind ownerID fresh db = (Inr l, db')"
    and "na_leases b = Some pg_repo" "na_selfHost b \<noteq> uuid_Nil" "0 \<le> na_ordinal b"
  shows "FleetNetAllocator_acquire b kind ownerID fresh' db' =
    (if na_selfHost b = na_selfHost a then Inr l else Inl ErrNetLeaseConflict, db')"
proof -
  have v: "NetLeaseOwnerKind_IsValid kind" "ownerID \<noteq> uuid_Nil"
    using assms(3,4) by (auto simp: FleetNetAllocator_acquire_def split: if_splits)
  have q: "script db' = []"
    using assms(2,3,4) quiet_loop_script
    by (auto simp: FleetNetAllocator_acquire_def split: if_splits option.splits)
  have "pg_inv db" using assms(1) by (simp add: pg_inv_def)
  then have inv: "pg_inv db'" using assms(3,4) by (rule pg.acquire_inv)
  have g: "l \<in> set (rows db')" "granted a kind ownerID l"
    using pg.acquire_granted [OF assms(3,4)] by auto
  obtain m where m: "find (owned_by kind ownerID) (rows db') = Some m"
    using g by (cases "find (owned_by kind ownerID) (rows db')") (auto simp: granted_def find_None_iff)
  then have "m \<in> set (rows db')" "owned_by kind ownerID m" by (auto simp: find_Some_iff)
  with g pg.owner_unique [OF inv] have "m = l" by (auto simp: granted_def)
  with m g v q assms(5-7) show ?thesis
    by (simp add: FleetNetAllocator_acquire_def granted_def)
qed

theorem acquire_idempotent_witness:
  "\<exists>l db'. FleetNetAllocator_acquire demo_alloc NetLeaseOwnerReplica 7 [(1, 0)] demo_db = (Inr l, db') \<and>
     FleetNetAllocator_acquire demo_alloc NetLeaseOwnerReplica 7 [(3, 1)] db' = (Inr l, db')"
proof -
  obtain l where l: "FleetNetAllocator_acquire demo_alloc NetLeaseOwnerReplica 7 [(1, 0)] demo_db = (Inr l, demo_db\<lparr>rows := [l]\<rparr>)"
    by (rule demo_acquire)
  have d: "fenced (rows demo_db)" "script demo_db = []" "na_leases demo_alloc = Some pg_repo"
    "na_selfHost demo_alloc \<noteq> uuid_Nil" "0 \<le> na_ordinal demo_alloc"
    by (simp_all add: demo_db_def demo_alloc_def)
  from acquire_idempotent [OF d(1-3) l d(3-5), of "[(3, 1)]"] l show ?thesis by auto
qed

text \<open>A release touches leases of this host only: on a quiet database every lease held
  on another host survives it; a lease of the owner held elsewhere is refused with
  \<open>ErrNetLeaseConflict\<close>; an owner without a lease is an idempotent success; and after a
  success the owner holds nothing.\<close>

theorem release_own_host_only:
  assumes "fenced (rows db)" "script db = []" "na_leases a = Some pg_repo"
    and "NetLeaseOwnerKind_IsValid kind" "ownerID \<noteq> uuid_Nil"
    and "FleetNetAllocator_Release a kind ownerID db = (r, db')"
  shows "(\<forall>l \<in> set (rows db). nl_HostID l \<noteq> na_selfHost a \<longrightarrow> l \<in> set (rows db')) \<and>
    (\<forall>l \<in> set (rows db). \<not> owned_by kind ownerID l \<longrightarrow> l \<in> set (rows db')) \<and>
    (r = Inl ErrNetLeaseConflict \<longleftrightarrow>
       (\<exists>l \<in> set (rows db). owned_by kind ownerID l \<and> nl_HostID l \<noteq> na_selfHost a)) \<and>
    (r \<noteq> Inl ErrNetLeaseConflict \<longrightarrow> r = Inr () \<and> (\<forall>l \<in> set (rows db'). \<not> owned_by kind ownerID l))"
proof (cases "find (owned_by kind ownerID) (rows db)")
  case None
  with assms show ?thesis by (auto simp: FleetNetAllocator_Release_def find_None_iff)
next
  case (Some m)
  then have m: "m \<in> set (rows db)" "owned_by kind ownerID m" by (auto simp: find_Some_iff)
  have "pg_inv db" using assms(1) by (simp add: pg_inv_def)
  then have u: "l = m" if "l \<in> set (rows db)" "owned_by kind ownerID l" for l
    using pg.owner_unique that m by blast
  from assms Some m show ?thesis
    by (auto simp: FleetNetAllocator_Release_def delete_rows_def split: if_splits dest: u)
qed

theorem release_own_host_only_witness:
  "\<exists>l. FleetNetAllocator_Release (demo_alloc\<lparr>na_selfHost := 4\<rparr>) NetLeaseOwnerReplica 7 (demo_db\<lparr>rows := [l]\<rparr>) =
     (Inl ErrNetLeaseConflict, demo_db\<lparr>rows := [l]\<rparr>) \<and> nl_HostID l = 9"
proof -
  obtain l where l: "FleetNetAllocator_acquire demo_alloc NetLeaseOwnerReplica 7 [(1, 0)] demo_db = (Inr l, demo_db\<lparr>rows := [l]\<rparr>)"
    by (rule demo_acquire)
  have la: "na_leases demo_alloc = Some pg_repo" by (simp add: demo_alloc_def)
  have g: "owned_by NetLeaseOwnerReplica 7 l" "nl_HostID l = 9"
    using pg.acquire_granted [OF la l] by (auto simp: granted_def demo_alloc_def)
  let ?a = "demo_alloc\<lparr>na_selfHost := 4\<rparr>" and ?db = "demo_db\<lparr>rows := [l]\<rparr>"
  have d: "fenced (rows ?db)" "script ?db = []" "na_leases ?a = Some pg_repo"
    by (simp_all add: demo_db_def demo_alloc_def)
  obtain r db' where r: "FleetNetAllocator_Release ?a NetLeaseOwnerReplica 7 ?db = (r, db')" by fastforce
  then have "r = Inl ErrNetLeaseConflict"
    using release_own_host_only [OF d, of NetLeaseOwnerReplica 7 r db'] g by (simp add: demo_alloc_def)
  moreover have "db' = ?db"
    using r g by (auto simp: FleetNetAllocator_Release_def demo_alloc_def demo_db_def split: if_splits)
  ultimately show ?thesis using r g by auto
qed

end
