(* ===== verification/Jail.thy ===== *)
theory Jail
  imports Paths Net_Lease
begin

text \<open>
  The per-VM jail of \<open>internal/infrastructure/firecracker\<close>: chroot paths and identities
  (\<open>jail.go\<close>), the in-memory slot allocator of the ephemeral boots (\<open>jail.go\<close>) and the clone
  index allocator and identities of the warm path (\<open>warm.go\<close>, \<open>warm_pool.go\<close>).
  Directory creation, hard links and chown are host effects and are not modelled; the
  paths and identities they are given are.
\<close>

section \<open>Jail paths\<close>

definition jailExecName :: string where "jailExecName = ''firecracker''"

definition maxUnixSocketPath :: nat where "maxUnixSocketPath = 107"

record vmJail =
  vj_base :: string
  vj_id :: string
  vj_uid :: int
  vj_gid :: int

definition newVMJail :: "string \<Rightarrow> string \<Rightarrow> int \<Rightarrow> vmJail" where
  "newVMJail base jid uid = \<lparr>vj_base = path_Clean base, vj_id = jid, vj_uid = uid, vj_gid = uid\<rparr>"

text \<open>\<open>True\<close> when the source returns a nil error.\<close>

definition checkSocketPathFits :: "string \<Rightarrow> bool" where
  "checkSocketPathFits socketPath \<longleftrightarrow> \<not> length socketPath + length ''.vsock'' > maxUnixSocketPath"

definition jailDir :: "vmJail \<Rightarrow> string" where
  "jailDir j = path_Join [vj_base j, jailExecName, vj_id j]"

definition rootDir :: "vmJail \<Rightarrow> string" where
  "rootDir j = path_Join [jailDir j, ''root'']"

definition hostPath :: "vmJail \<Rightarrow> string \<Rightarrow> string" where
  "hostPath j rel = path_Join [rootDir j, rel]"

definition chrootPath :: "vmJail \<Rightarrow> string \<Rightarrow> string" where
  "chrootPath j rel = path_Join [''/'', rel]"

definition vmUID :: "int \<Rightarrow> int \<Rightarrow> int" where
  "vmUID base index = go_add base index"

text \<open>\<open>strconv.Atoi\<close>: an optional sign, at least one decimal digit, in the range of \<open>int\<close>.\<close>

definition atoi :: "string \<Rightarrow> int option" where
  "atoi s =
     (let neg = (s \<noteq> [] \<and> hd s = CHR ''-'');
          ds = (if s \<noteq> [] \<and> (hd s = CHR ''-'' \<or> hd s = CHR ''+'') then tl s else s);
          v = (if neg then - int (dec_val ds) else int (dec_val ds))
      in if ds \<noteq> [] \<and> list_all is_digit ds \<and> in_int64 v then Some v else None)"

definition jailDirFromSocketPath :: "string \<Rightarrow> string \<Rightarrow> string" where
  "jailDirFromSocketPath chrootBase socketPath =
     (if chrootBase = '''' \<or> socketPath = '''' then ''''
      else let prefix = path_Join [path_Clean chrootBase, jailExecName] @ [slash];
               clean = path_Clean socketPath
           in if take (length prefix) clean \<noteq> prefix then ''''
              else let ident = takeWhile (\<lambda>c. c \<noteq> slash) (drop (length prefix) clean)
                   in if ident = '''' then '''' else prefix @ ident)"

definition vmJailFromSocketPath :: "string \<Rightarrow> int \<Rightarrow> string \<Rightarrow> vmJail option" where
  "vmJailFromSocketPath chrootBase uidBase socketPath =
     (let dir = jailDirFromSocketPath chrootBase socketPath in
      if dir = '''' then None
      else case atoi (path_Base dir) of
          None \<Rightarrow> None
        | Some index \<Rightarrow> Some (newVMJail chrootBase (path_Base dir) (vmUID uidBase index)))"

section \<open>Ephemeral slots and warm clones\<close>

definition maxCloneIndex :: int where "maxCloneIndex = 254"

definition ephUIDOffset :: int where "ephUIDOffset = 4096"

definition ephSlotFloor :: int where "ephSlotFloor = ephUIDOffset + maxCloneIndex + 1"

text \<open>The first value of \<open>[i, stop)\<close> that is not marked, as the allocation loops scan.\<close>

function first_free :: "int set \<Rightarrow> int \<Rightarrow> int \<Rightarrow> int option" where
  "first_free used i stop =
     (if i < stop then (if i \<notin> used then Some i else first_free used (i + 1) stop) else None)"
  by auto
termination by (relation "measure (\<lambda>(_, i, stop). nat (stop - i))") auto

declare first_free.simps [simp del]

text \<open>\<open>ephSlots\<close> is the set of keys mapped to true; the span is \<open>cfg.VMUIDSpan\<close>.\<close>

definition allocEphSlot :: "int \<Rightarrow> int set \<Rightarrow> (int \<times> int set) option" where
  "allocEphSlot span ephSlots =
     (case first_free ephSlots ephSlotFloor span of
        None \<Rightarrow> None
      | Some slot \<Rightarrow> Some (slot, insert slot ephSlots))"

definition freeEphSlot :: "int \<Rightarrow> int set \<Rightarrow> int set" where
  "freeEphSlot slot ephSlots = (if slot < ephSlotFloor then ephSlots else ephSlots - {slot})"

definition ephSlotFromSocketPath :: "string \<Rightarrow> string \<Rightarrow> int option" where
  "ephSlotFromSocketPath chrootBase socketPath =
     (let dir = jailDirFromSocketPath chrootBase socketPath in
      if dir = '''' then None
      else case atoi (path_Base dir) of
          None \<Rightarrow> None
        | Some slot \<Rightarrow> if slot < ephSlotFloor then None else Some slot)"

definition warmJailID :: string where "warmJailID = ''warm''"

definition cloneJailID :: "int \<Rightarrow> string" where "cloneJailID n = ''clone'' @ show_int n"

definition templateUID :: "int \<Rightarrow> int" where "templateUID uidBase = vmUID uidBase ephUIDOffset"

definition cloneUID :: "int \<Rightarrow> int \<Rightarrow> int" where
  "cloneUID uidBase n = vmUID uidBase (go_add ephUIDOffset n)"

definition allocIndex :: "int set \<Rightarrow> (int \<times> int set) option" where
  "allocIndex active =
     (case first_free active 1 (maxCloneIndex + 1) of
        None \<Rightarrow> None
      | Some n \<Rightarrow> Some (n, insert n active))"

definition freeIndex :: "int \<Rightarrow> int set \<Rightarrow> int set" where
  "freeIndex n active = active - {n}"

record cloneDerived =
  cd_n :: int
  cd_namespace :: string
  cd_vethHost :: string
  cd_vethGuest :: string
  cd_hostVethIP :: string
  cd_nsVethIP :: string
  cd_hostReachIP :: string

definition cloneNaming :: "int \<Rightarrow> cloneDerived" where
  "cloneNaming n = \<lparr>
     cd_n = n,
     cd_namespace = ''fc-clone'' @ show_int n,
     cd_vethHost = ''vh'' @ show_int n,
     cd_vethGuest = ''vg'' @ show_int n,
     cd_hostVethIP = ''10.200.'' @ show_int n @ ''.1'',
     cd_nsVethIP = ''10.200.'' @ show_int n @ ''.2'',
     cd_hostReachIP = ''10.200.'' @ show_int n @ ''.2''\<rparr>"

lemmas jail_consts = maxCloneIndex_def ephUIDOffset_def ephSlotFloor_def

lemma first_free_Some:
  "first_free used i stop = Some n \<Longrightarrow> i \<le> n \<and> n < stop \<and> n \<notin> used \<and> (\<forall>m. i \<le> m \<and> m < n \<longrightarrow> m \<in> used)"
proof (induction used i stop rule: first_free.induct)
  case (1 used i stop)
  show ?case
  proof (cases "i < stop \<and> i \<in> used")
    case True
    with 1 have "i + 1 \<le> n \<and> n < stop \<and> n \<notin> used \<and> (\<forall>m. i + 1 \<le> m \<and> m < n \<longrightarrow> m \<in> used)"
      by (simp add: first_free.simps [of used i])
    moreover have "m \<in> used" if "\<not> i + 1 \<le> m" "i \<le> m" for m
      using that True by (metis zle_add1_eq_le order_antisym not_le_imp_less)
    ultimately show ?thesis by force
  next
    case False
    with "1.prems" show ?thesis by (auto simp: first_free.simps [of used i] split: if_splits)
  qed
qed

lemma first_free_None:
  "first_free used i stop = None \<longleftrightarrow> {i..<stop} \<subseteq> used"
proof (induction used i stop rule: first_free.induct)
  case (1 used i stop)
  have "{i..<stop} = insert i {i + 1..<stop}" if "i < stop" using that by auto
  with 1 show ?case by (subst first_free.simps) auto
qed

section \<open>Shapes of cleaned paths\<close>

lemma path_Clean_rooted:
  assumes "s \<noteq> []" "hd s = slash"
  obtains cs where "path_Clean s = slash # join_with slash cs" "\<forall>c \<in> set cs. normal_comp c"
proof -
  have "clean_shape True (clean_comps True [] (split_on slash s))"
    by (rule clean_comps_shape) (auto simp: clean_shape_def split_on_parts)
  then have "\<forall>c \<in> set (clean_comps True [] (split_on slash s)). normal_comp c"
    by (auto simp: clean_shape_def)
  with that assms show ?thesis by (simp add: path_Clean_def)
qed

lemma normal_jailExecName: "normal_comp jailExecName"
  by (simp add: jailExecName_def normal_comp_def)

lemma path_Join_root: "normal_comp c \<Longrightarrow> path_Join [[slash], c] = slash # c"
proof -
  assume c: "normal_comp c"
  then have "split_on slash ([slash, slash] @ c) = [[], [], c]"
    by (simp add: split_on_no_sep normal_comp_def)
  with c show ?thesis
    by (simp add: path_Join_def path_Clean_def normal_comp_def)
qed

lemma path_Join_rooted:
  assumes "\<forall>c \<in> set cs. normal_comp c" "\<forall>d \<in> set ds. normal_comp d" "ds \<noteq> []"
  shows "path_Join [slash # join_with slash cs, join_with slash ds] = slash # join_with slash (cs @ ds)"
proof -
  have ne: "join_with slash ds \<noteq> []"
    using assms(2,3) by (cases ds; cases "tl ds") (auto simp: normal_comp_def)
  have parts: "split_on slash (join_with slash ds) = ds"
    using assms by (intro split_join) (auto simp: normal_comp_def)
  have "path_Join [slash # join_with slash cs, join_with slash ds] =
      path_Clean (slash # (join_with slash cs @ slash # join_with slash ds))"
    using ne by (simp add: path_Join_def)
  also have "\<dots> = slash # join_with slash (cs @ ds)"
  proof (cases "cs = []")
    case True
    then show ?thesis using parts assms
      by (simp add: path_Clean_def clean_comps_normal)
  next
    case False
    then show ?thesis
      using path_Clean_normal [of "cs @ ds"] assms by (simp add: join_with_append ball_Un)
  qed
  finally show ?thesis .
qed

lemma path_Join3:
  assumes "\<forall>c \<in> set cs. normal_comp c" "normal_comp a" "normal_comp b"
  shows "path_Join [slash # join_with slash cs, a, b] = slash # join_with slash (cs @ [a, b])"
  using path_Join_rooted [of cs "[a, b]"] assms by (simp add: path_Join_def normal_comp_def)

lemma jail_prefix:
  assumes "\<forall>c \<in> set cs. normal_comp c"
  shows "path_Join [slash # join_with slash cs, jailExecName] = slash # join_with slash (cs @ [jailExecName])"
  using path_Join_rooted [of cs "[jailExecName]"] assms normal_jailExecName by simp

lemma path_Base_last:
  assumes "normal_comp c" "cs \<noteq> []"
  shows "path_Base (slash # join_with slash (cs @ [c])) = c"
proof -
  let ?s = "slash # join_with slash (cs @ [c])"
  have s: "?s = (slash # join_with slash cs @ [slash]) @ c"
    using assms(2) by (simp add: join_with_append)
  have c: "c \<noteq> []" "slash \<notin> set c" using assms(1) by (auto simp: normal_comp_def)
  have "dropWhile (\<lambda>x. x = slash) (rev ?s) = rev ?s"
    unfolding s using c by (cases c rule: rev_cases) auto
  moreover have "last (split_on slash (p @ slash # c)) = c" for p
  proof (induction p)
    case Nil
    then show ?case using c by (simp add: split_on_no_sep)
  next
    case (Cons x xs)
    obtain q qs where q: "split_on slash (xs @ slash # c) = q # qs"
      by (cases "split_on slash (xs @ slash # c)") auto
    have "qs \<noteq> []"
    proof
      assume "qs = []"
      then have "slash \<notin> set q" "q = xs @ slash # c"
        using q join_split [of slash "xs @ slash # c"] split_on_parts [of q slash "xs @ slash # c"] by auto
      then show False by simp
    qed
    with Cons q show ?case by (auto simp: neq_Nil_conv)
  qed
  from this [of "slash # join_with slash cs"] have "last (split_on slash ?s) = c" by (simp add: s)
  ultimately show ?thesis by (simp add: path_Base_def)
qed

text \<open>The first component of a path is what \<open>strings.Cut\<close> returns.\<close>

lemma takeWhile_split: "takeWhile (\<lambda>x. x \<noteq> c) s = hd (split_on c s)"
proof (induction s)
  case (Cons x xs)
  obtain q qs where "split_on c xs = q # qs" by (cases "split_on c xs") auto
  with Cons show ?case by simp
qed simp

lemma split_on_join_append:
  assumes "cs \<noteq> []" "\<forall>p \<in> set cs. c \<notin> set p"
  shows "split_on c (join_with c cs @ c # s) = cs @ split_on c s"
  using assms by (induction c cs rule: join_with.induct) (auto simp: split_on_append)

lemma clean_shape_parts: "clean_shape rooted cs \<Longrightarrow> c \<in> set cs \<Longrightarrow> c \<noteq> [] \<and> slash \<notin> set c"
proof -
  assume "clean_shape rooted cs" and c: "c \<in> set cs"
  then obtain n ns where n: "cs = replicate n ''..'' @ ns" "\<forall>c \<in> set ns. normal_comp c"
    unfolding clean_shape_def by blast
  have d: "''..'' \<noteq> [] \<and> slash \<notin> set ''..''" by simp
  show ?thesis
  proof (cases "c \<in> set ns")
    case True
    with n(2) have "normal_comp c" by blast
    then show ?thesis unfolding normal_comp_def by blast
  next
    case False
    then have "c = ''..''" using c n(1) by (metis Un_iff in_set_replicate set_append)
    with d show ?thesis by blast
  qed
qed

lemma path_Clean_starts_rooted:
  assumes "path_Clean s = slash # t"
  shows "s \<noteq> []" "hd s = slash"
proof -
  show s: "s \<noteq> []" using assms by (auto simp: path_Clean_def)
  show "hd s = slash"
  proof (rule ccontr)
    assume nr: "hd s \<noteq> slash"
    let ?cs = "clean_comps False [] (split_on slash s)"
    have "clean_shape False ?cs"
      by (rule clean_comps_shape) (auto simp: clean_shape_def split_on_parts)
    then have cs: "\<forall>c \<in> set ?cs. c \<noteq> [] \<and> slash \<notin> set c"
      using clean_shape_parts by blast
    have "path_Clean s = (if ?cs = [] then ''.'' else join_with slash ?cs)"
      using s nr by (simp add: path_Clean_def)
    then have ne: "?cs \<noteq> []" and e: "join_with slash ?cs = slash # t"
      using assms by (cases "?cs = []", simp, simp)+
    from ne obtain c ds where c: "?cs = c # ds" "c \<noteq> []" "slash \<notin> set c"
      using cs by (metis list.exhaust list.set_intros(1))
    then have "hd (join_with slash ?cs) = hd c" by (cases ds) auto
    with c e show False by (metis hd_in_set list.sel(1))
  qed
qed

lemma jailDir_rooted:
  assumes "base \<noteq> []" "hd base = slash"
  obtains cs where "path_Clean base = slash # join_with slash cs" "\<forall>c \<in> set cs. normal_comp c"
    "\<And>jid uid. normal_comp jid \<Longrightarrow>
       jailDir (newVMJail base jid uid) = slash # join_with slash (cs @ [jailExecName, jid])"
proof -
  obtain cs where cs: "path_Clean base = slash # join_with slash cs" "\<forall>c \<in> set cs. normal_comp c"
    using path_Clean_rooted [OF assms] .
  show ?thesis
    by (rule that [OF cs]) (simp add: jailDir_def newVMJail_def cs path_Join3 normal_jailExecName)
qed

lemma jailDirFromSocketPath_cases:
  assumes base: "base \<noteq> []" "hd base = slash" and ne: "jailDirFromSocketPath base sp \<noteq> ''''"
  obtains jid where "normal_comp jid" "\<And>uid. jailDirFromSocketPath base sp = jailDir (newVMJail base jid uid)"
    "path_Base (jailDirFromSocketPath base sp) = jid"
proof -
  obtain cs where cs: "path_Clean base = slash # join_with slash cs" "\<forall>c \<in> set cs. normal_comp c"
    and dir: "\<And>jid uid. normal_comp jid \<Longrightarrow>
       jailDir (newVMJail base jid uid) = slash # join_with slash (cs @ [jailExecName, jid])"
    using jailDir_rooted [OF base] by blast
  let ?pre = "slash # join_with slash (cs @ [jailExecName]) @ [slash]"
  let ?rest = "drop (length ?pre) (path_Clean sp)"
  have pre: "path_Join [path_Clean base, jailExecName] @ [slash] = ?pre"
    by (simp add: cs jail_prefix)
  have split: "path_Clean sp = ?pre @ ?rest" and d: "jailDirFromSocketPath base sp = ?pre @ hd (split_on slash ?rest)"
    and hne: "hd (split_on slash ?rest) \<noteq> []"
    using ne unfolding jailDirFromSocketPath_def pre Let_def takeWhile_split
    by (metis append_take_drop_id)+
  obtain ds where ds: "path_Clean sp = slash # join_with slash ds" "\<forall>c \<in> set ds. normal_comp c"
    using path_Clean_starts_rooted [of sp] split path_Clean_rooted [of sp] by (metis append_Cons)
  have j: "join_with slash ds = join_with slash (cs @ [jailExecName]) @ slash # ?rest"
    using split ds(1) by simp
  then have "ds \<noteq> []" by auto
  then have "ds = split_on slash (join_with slash ds)"
    using ds(2) by (intro split_join [symmetric]) (auto simp: normal_comp_def)
  also have "\<dots> = (cs @ [jailExecName]) @ split_on slash ?rest"
    unfolding j using cs(2) normal_jailExecName
    by (intro split_on_join_append) (auto simp: normal_comp_def)
  finally have n: "normal_comp (hd (split_on slash ?rest))"
    using ds(2) by (metis UnCI hd_in_set set_append split_on_nonempty)
  have e: "jailDirFromSocketPath base sp = slash # join_with slash ((cs @ [jailExecName]) @ [hd (split_on slash ?rest)])"
    unfolding d by (subst join_with_append) simp_all
  show ?thesis
    by (rule that [OF n]) (use e dir [OF n] path_Base_last [OF n, of "cs @ [jailExecName]"] in simp_all)
qed

section \<open>Paths out and back\<close>

lemma dec_all_digits: "list_all is_digit (dec n)"
  by (simp add: list_all_iff dec_digits)

lemma atoi_show_int: "in_int64 i \<Longrightarrow> atoi (show_int i) = Some i"
proof -
  assume i: "in_int64 i"
  have hd: "hd (dec n) \<noteq> CHR ''-''" "hd (dec n) \<noteq> CHR ''+''" for n
    using dec_digits [of "hd (dec n)" n] by (auto simp: is_digit_def)
  show ?thesis
    using i hd by (auto simp: atoi_def show_int_def dec_all_digits Let_def)
qed

lemma normal_show_int: "normal_comp (show_int i)"
proof -
  have "c \<noteq> CHR ''.'' \<and> c \<noteq> slash" if "c \<in> set (show_int i)" for c
    using that dec_digits [of c] by (auto simp: show_int_def is_digit_def split: if_splits)
  moreover have "show_int i \<noteq> []" by (simp add: show_int_def)
  ultimately show ?thesis unfolding normal_comp_def
    by (metis list.set_intros(1))
qed

lemma jailDirFromSocketPath_hostPath:
  assumes base: "base \<noteq> []" "hd base = slash" and jid: "normal_comp jid"
    and ds: "ds \<noteq> []" "\<forall>d \<in> set ds. normal_comp d"
  shows "jailDirFromSocketPath base (hostPath (newVMJail base jid uid) (join_with slash ds)) =
    jailDir (newVMJail base jid uid)"
    and "path_Base (jailDir (newVMJail base jid uid)) = jid"
proof -
  let ?j = "newVMJail base jid uid"
  obtain cs where cs: "path_Clean base = slash # join_with slash cs" "\<forall>c \<in> set cs. normal_comp c"
    and "\<And>jid uid. normal_comp jid \<Longrightarrow>
       jailDir (newVMJail base jid uid) = slash # join_with slash (cs @ [jailExecName, jid])"
    using jailDir_rooted [OF base] by blast
  then have dir: "jailDir ?j = slash # join_with slash (cs @ [jailExecName, jid])"
    using jid by blast
  note nx = normal_jailExecName
  have nr: "normal_comp ''root''" by (simp add: normal_comp_def)
  have root: "rootDir ?j = slash # join_with slash (cs @ [jailExecName, jid, ''root''])"
    using path_Join_rooted [of "cs @ [jailExecName, jid]" "[''root'']"] cs(2) nx jid nr
    by (simp add: rootDir_def dir)
  have host: "hostPath ?j (join_with slash ds) = slash # join_with slash (cs @ [jailExecName, jid, ''root''] @ ds)"
    using path_Join_rooted [of "cs @ [jailExecName, jid, ''root'']" ds] cs(2) nx jid nr ds
    by (simp add: hostPath_def root ball_Un)
  have clean: "path_Clean (hostPath ?j (join_with slash ds)) = hostPath ?j (join_with slash ds)"
    unfolding host using cs(2) nx jid nr ds(2) by (intro path_Clean_normal) auto
  let ?pre = "slash # join_with slash (cs @ [jailExecName]) @ [slash]"
  have pre: "path_Join [path_Clean base, jailExecName] @ [slash] = ?pre"
    by (simp add: cs jail_prefix)
  have "hostPath ?j (join_with slash ds) = ?pre @ join_with slash ([jid] @ ([''root''] @ ds))"
    unfolding host using join_with_append [of "cs @ [jailExecName]" "jid # ''root'' # ds" slash] by simp
  also have "\<dots> = ?pre @ jid @ slash # join_with slash ([''root''] @ ds)"
    by (subst join_with_append) simp_all
  finally have h: "hostPath ?j (join_with slash ds) = ?pre @ jid @ slash # join_with slash ([''root''] @ ds)" .
  have tw: "takeWhile (\<lambda>c. c \<noteq> slash) (jid @ slash # t) = jid" for t
  proof -
    have "\<forall>x \<in> set jid. x \<noteq> slash" using jid unfolding normal_comp_def by metis
    then show ?thesis by (simp add: takeWhile_append2)
  qed
  have dir': "jailDir ?j = ?pre @ jid"
    unfolding dir using join_with_append [of "cs @ [jailExecName]" "[jid]" slash] by simp
  have ne: "hostPath ?j (join_with slash ds) \<noteq> []" "jid \<noteq> []" using h jid by (simp_all add: normal_comp_def)
  show "jailDirFromSocketPath base (hostPath ?j (join_with slash ds)) = jailDir ?j"
    unfolding jailDirFromSocketPath_def Let_def clean pre dir'
    using ne base(1) unfolding h by (simp add: tw)
  show "path_Base (jailDir ?j) = jid"
    unfolding dir using path_Base_last [OF jid, of "cs @ [jailExecName]"] by simp
qed

text \<open>A persisted socket path can only ever name a jail: whatever string
  \<open>jailDirFromSocketPath\<close> is given, an answer other than the empty string (the directory that
  teardown removes recursively) is the jail directory of some id under the chroot base, exactly
  one component below \<open>base/firecracker\<close>; the id is a plain component, so no \<open>..\<close>
  in the stored path can move the removal elsewhere.\<close>

theorem jail_dir_confined:
  assumes "base \<noteq> []" "hd base = slash" "jailDirFromSocketPath base sp \<noteq> ''''"
  shows "\<exists>jid. normal_comp jid \<and>
    (\<forall>uid. jailDirFromSocketPath base sp = jailDir (newVMJail base jid uid)) \<and>
    split_on slash (jailDirFromSocketPath base sp) =
      split_on slash (path_Join [path_Clean base, jailExecName]) @ [jid]"
proof -
  obtain jid where jid: "normal_comp jid"
    and dir: "\<And>uid. jailDirFromSocketPath base sp = jailDir (newVMJail base jid uid)"
    using jailDirFromSocketPath_cases [OF assms] by blast
  obtain cs where cs: "path_Clean base = slash # join_with slash cs" "\<forall>c \<in> set cs. normal_comp c"
    and jd: "\<And>jid uid. normal_comp jid \<Longrightarrow>
       jailDir (newVMJail base jid uid) = slash # join_with slash (cs @ [jailExecName, jid])"
    using jailDir_rooted [OF assms(1,2)] by blast
  have n: "slash \<notin> set c" if "c \<in> set (cs @ [jailExecName, jid])" for c
    using that cs(2) jid normal_jailExecName by (auto simp: normal_comp_def)
  have "split_on slash (slash # join_with slash (cs @ [jailExecName, jid])) = [] # cs @ [jailExecName, jid]"
    using n by (intro split_on_join_rooted) auto
  moreover have "split_on slash (slash # join_with slash (cs @ [jailExecName])) = [] # cs @ [jailExecName]"
    using n by (intro split_on_join_rooted) auto
  ultimately show ?thesis
    using jid dir jd [OF jid] by (intro exI [of _ jid]) (simp add: cs jail_prefix)
qed

theorem jail_dir_confined_witness:
  "\<exists>jid. normal_comp jid \<and>
    (\<forall>uid. jailDirFromSocketPath ''/srv/jail'' ''/srv/jail/x/../firecracker/7/../8/run'' =
       jailDir (newVMJail ''/srv/jail'' jid uid)) \<and>
    split_on slash (jailDirFromSocketPath ''/srv/jail'' ''/srv/jail/x/../firecracker/7/../8/run'') =
      split_on slash (path_Join [path_Clean ''/srv/jail'', jailExecName]) @ [jid]"
proof -
  have "jailDirFromSocketPath ''/srv/jail'' ''/srv/jail/x/../firecracker/7/../8/run'' \<noteq> ''''" by code_simp
  then show ?thesis by (intro jail_dir_confined) simp_all
qed

text \<open>Round trip of a numerically named jail: from the host view of any path
  inside the jail of slot \<open>slot\<close> (its API socket in particular), \<open>vmJailFromSocketPath\<close> rebuilds
  the very same jail, id, uid and gid included, \<open>jailDirFromSocketPath\<close> gives its directory,
  and \<open>ephSlotFromSocketPath\<close> gives back the slot exactly when it lies in the ephemeral range.\<close>

theorem jail_socket_roundtrip:
  assumes "base \<noteq> []" "hd base = slash" "in_int64 slot" "ds \<noteq> []" "\<forall>d \<in> set ds. normal_comp d"
  shows "let j = newVMJail base (show_int slot) (vmUID uidBase slot);
             sock = hostPath j (join_with slash ds)
         in vmJailFromSocketPath base uidBase sock = Some j \<and>
            jailDirFromSocketPath base sock = jailDir j \<and>
            ephSlotFromSocketPath base sock = (if slot < ephSlotFloor then None else Some slot)"
proof -
  let ?j = "newVMJail base (show_int slot) (vmUID uidBase slot)"
  note r = jailDirFromSocketPath_hostPath [OF assms(1,2) normal_show_int [of slot] assms(4,5), of "vmUID uidBase slot"]
  have ne: "jailDir ?j \<noteq> []"
    using jailDir_rooted [OF assms(1,2)] normal_show_int by (metis list.distinct(1))
  show ?thesis
    using ne by (simp add: Let_def r vmJailFromSocketPath_def ephSlotFromSocketPath_def atoi_show_int [OF assms(3)])
qed

theorem jail_socket_roundtrip_witness:
  "let j = newVMJail ''/srv/jail/'' (show_int 4351) (vmUID 100000 4351);
       sock = hostPath j (join_with slash [''run'', ''a.sock''])
   in vmJailFromSocketPath ''/srv/jail/'' 100000 sock = Some j \<and>
      jailDirFromSocketPath ''/srv/jail/'' sock = jailDir j \<and>
      ephSlotFromSocketPath ''/srv/jail/'' sock = (if 4351 < ephSlotFloor then None else Some 4351)"
  by (rule jail_socket_roundtrip) (simp_all add: in_int64_def min_int64_def max_int64_def normal_comp_def)

section \<open>Identities of live VMs\<close>

text \<open>The VMs of one host by boot path: image boots (their lease slot), ephemeral boots, warm
  templates (one per language) and warm clones.\<close>

datatype live_vm = ImageVM int | ColdVM int | TemplateVM string | CloneVM int

fun vm_uid :: "int \<Rightarrow> live_vm \<Rightarrow> int" where
  "vm_uid uidBase (ImageVM slot) = go_add uidBase slot"
| "vm_uid uidBase (ColdVM slot) = vmUID uidBase slot"
| "vm_uid uidBase (TemplateVM lang) = templateUID uidBase"
| "vm_uid uidBase (CloneVM n) = cloneUID uidBase n"

fun vm_jail_id :: "live_vm \<Rightarrow> string" where
  "vm_jail_id (ImageVM slot) = show_int slot"
| "vm_jail_id (ColdVM slot) = show_int slot"
| "vm_jail_id (TemplateVM lang) = warmJailID"
| "vm_jail_id (CloneVM n) = cloneJailID n"

definition vm_dir :: "string \<Rightarrow> int \<Rightarrow> live_vm \<Rightarrow> string" where
  "vm_dir base uidBase v = jailDir (newVMJail base (vm_jail_id v) (vm_uid uidBase v))"

fun vm_slot :: "live_vm \<Rightarrow> int" where
  "vm_slot (ImageVM slot) = slot"
| "vm_slot (ColdVM slot) = slot"
| "vm_slot (TemplateVM lang) = ephUIDOffset"
| "vm_slot (CloneVM n) = ephUIDOffset + n"

fun vm_in_range :: "int \<Rightarrow> live_vm \<Rightarrow> bool" where
  "vm_in_range span (ImageVM slot) = (1 \<le> slot \<and> slot \<le> NetMaxSlot)"
| "vm_in_range span (ColdVM slot) = (ephSlotFloor \<le> slot \<and> slot < span)"
| "vm_in_range span (TemplateVM lang) = True"
| "vm_in_range span (CloneVM n) = (1 \<le> n \<and> n \<le> maxCloneIndex)"

definition both_templates :: "live_vm \<Rightarrow> live_vm \<Rightarrow> bool" where
  "both_templates a b \<longleftrightarrow> (\<exists>l m. a = TemplateVM l \<and> b = TemplateVM m)"

record host_vms =
  hv_eph :: "int set"
  hv_active :: "int set"
  hv_building :: "string set"
  hv_templates :: "string set"
  hv_live :: "live_vm set"

text \<open>
  The boots and teardowns of one host, in any order.  An image boot holds a lease slot that no
  live image VM holds (the fence of the lease table); an ephemeral boot and a clone take theirs
  from the allocators above; a template is booted under the per-language guard of \<open>ensureTemplate\<close>
  (not cached, not being built) and is torn down before its build ends.
\<close>

inductive host_step :: "int \<Rightarrow> host_vms \<Rightarrow> host_vms \<Rightarrow> bool" where
  image_boot: "1 \<le> slot \<Longrightarrow> slot \<le> NetMaxSlot \<Longrightarrow> ImageVM slot \<notin> hv_live s \<Longrightarrow>
    host_step span s (s\<lparr>hv_live := insert (ImageVM slot) (hv_live s)\<rparr>)"
| image_end: "host_step span s (s\<lparr>hv_live := hv_live s - {ImageVM slot}\<rparr>)"
| cold_boot: "allocEphSlot span (hv_eph s) = Some (slot, eph) \<Longrightarrow>
    host_step span s (s\<lparr>hv_eph := eph, hv_live := insert (ColdVM slot) (hv_live s)\<rparr>)"
| cold_end: "ColdVM slot \<in> hv_live s \<Longrightarrow>
    host_step span s (s\<lparr>hv_eph := freeEphSlot slot (hv_eph s), hv_live := hv_live s - {ColdVM slot}\<rparr>)"
| clone_boot: "allocIndex (hv_active s) = Some (n, act) \<Longrightarrow>
    host_step span s (s\<lparr>hv_active := act, hv_live := insert (CloneVM n) (hv_live s)\<rparr>)"
| clone_end: "CloneVM n \<in> hv_live s \<Longrightarrow>
    host_step span s (s\<lparr>hv_active := freeIndex n (hv_active s), hv_live := hv_live s - {CloneVM n}\<rparr>)"
| template_boot: "lang \<notin> hv_templates s \<Longrightarrow> lang \<notin> hv_building s \<Longrightarrow>
    host_step span s (s\<lparr>hv_building := insert lang (hv_building s), hv_live := insert (TemplateVM lang) (hv_live s)\<rparr>)"
| template_end: "lang \<in> hv_building s \<Longrightarrow>
    host_step span s (s\<lparr>hv_building := hv_building s - {lang}, hv_live := hv_live s - {TemplateVM lang},
      hv_templates := (if ok then insert lang (hv_templates s) else hv_templates s)\<rparr>)"

inductive_cases host_stepE: "host_step span s t"

definition host_start :: host_vms where
  "host_start = \<lparr>hv_eph = {}, hv_active = {}, hv_building = {}, hv_templates = {}, hv_live = {}\<rparr>"

definition host_reachable :: "int \<Rightarrow> host_vms \<Rightarrow> bool" where
  "host_reachable span = (host_step span)\<^sup>*\<^sup>* host_start"

definition host_inv :: "int \<Rightarrow> host_vms \<Rightarrow> bool" where
  "host_inv span s \<longleftrightarrow> (\<forall>v \<in> hv_live s. vm_in_range span v) \<and>
     (\<forall>slot. ColdVM slot \<in> hv_live s \<longleftrightarrow> slot \<in> hv_eph s) \<and>
     (\<forall>n. CloneVM n \<in> hv_live s \<longleftrightarrow> n \<in> hv_active s)"

lemma allocEphSlot_Some:
  "allocEphSlot span e = Some (slot, e') \<Longrightarrow> ephSlotFloor \<le> slot \<and> slot < span \<and> slot \<notin> e \<and> e' = insert slot e"
  by (auto simp: allocEphSlot_def split: option.splits dest: first_free_Some)

lemma allocIndex_Some:
  "allocIndex a = Some (n, a') \<Longrightarrow> 1 \<le> n \<and> n \<le> maxCloneIndex \<and> n \<notin> a \<and> a' = insert n a"
  by (auto simp: allocIndex_def split: option.splits dest: first_free_Some)

lemma freeEphSlot_live: "host_inv span s \<Longrightarrow> ColdVM slot \<in> hv_live s \<Longrightarrow> freeEphSlot slot e = e - {slot}"
  unfolding host_inv_def freeEphSlot_def by fastforce

lemma host_inv_step: "host_step span s t \<Longrightarrow> host_inv span s \<Longrightarrow> host_inv span t"
proof (induction rule: host_step.induct)
  case (cold_end slot s span)
  then show ?case by (simp only: freeEphSlot_live) (auto simp: host_inv_def)
qed (auto simp: host_inv_def freeIndex_def dest!: allocEphSlot_Some allocIndex_Some)

lemma host_inv_reachable: "host_reachable span s \<Longrightarrow> host_inv span s"
  unfolding host_reachable_def
proof (induction rule: rtranclp_induct)
  case base
  show ?case by (simp add: host_start_def host_inv_def)
next
  case (step t u)
  then show ?case using host_inv_step by blast
qed

lemma wrap64_inj:
  assumes "wrap64 (b + x) = wrap64 (b + y)" "\<bar>x - y\<bar> < 2 ^ 64"
  shows "x = y"
proof -
  have "(b + x + 2 ^ 63) mod 2 ^ 64 = (b + y + 2 ^ 63) mod 2 ^ 64"
    using assms(1) by (simp add: wrap64_def)
  then have "(2 ^ 64 :: int) dvd (b + x + 2 ^ 63) - (b + y + 2 ^ 63)" by (simp only: mod_eq_dvd_iff)
  then have "(2 ^ 64 :: int) dvd x - y" by simp
  with assms(2) show ?thesis
    using zdvd_not_zless [of "\<bar>x - y\<bar>" "2 ^ 64"] by (cases "x = y") auto
qed

lemma vm_uid_slot: "vm_in_range span v \<Longrightarrow> vm_uid b v = wrap64 (b + vm_slot v)"
proof (cases v)
  case (CloneVM n)
  moreover assume "vm_in_range span v"
  ultimately have "in_int64 (ephUIDOffset + n)"
    by (intro in_int64_small) (simp add: jail_consts)
  with CloneVM show ?thesis by (simp add: cloneUID_def vmUID_def go_add_def)
qed (simp_all add: vmUID_def templateUID_def go_add_def)

lemma vm_slot_distinct:
  assumes "vm_in_range span a" "vm_in_range span b" "a \<noteq> b" "\<not> both_templates a b"
  shows "vm_slot a \<noteq> vm_slot b"
  using assms by (cases a; cases b) (auto simp: jail_consts net_consts both_templates_def)

lemma vm_slot_bound: "vm_in_range span v \<Longrightarrow> in_int64 span \<Longrightarrow> 0 \<le> vm_slot v \<and> vm_slot v < 2 ^ 63"
  by (cases v) (auto simp: jail_consts net_consts in_int64_def max_int64_def)

lemma show_int_first: "show_int i = c # cs \<Longrightarrow> is_digit c \<or> c = CHR ''-''"
  using dec_digits [of c] by (auto simp: show_int_def split: if_splits) (metis list.set_intros(1))+

lemma vm_jail_id_distinct:
  assumes "vm_in_range span a" "vm_in_range span b" "a \<noteq> b" "\<not> both_templates a b"
  shows "vm_jail_id a \<noteq> vm_jail_id b"
proof -
  have nd: "\<not> (is_digit (CHR ''w'') \<or> CHR ''w'' = CHR ''-'')" "\<not> (is_digit (CHR ''c'') \<or> CHR ''c'' = CHR ''-'')"
    by (simp_all add: is_digit_def)
  have "show_int i \<noteq> ''warm''" "show_int i \<noteq> CHR ''c'' # xs" for i xs
    using show_int_first [of i] nd by metis+
  moreover from this have "''warm'' \<noteq> show_int i" "CHR ''c'' # xs \<noteq> show_int i" for i xs
    by metis+
  ultimately show ?thesis
    using assms by (cases a; cases b)
      (auto simp: warmJailID_def cloneJailID_def show_int_inj jail_consts net_consts both_templates_def)
qed

lemma normal_jail_id: "normal_comp (vm_jail_id v)"
  using normal_show_int
  by (cases v) (auto simp: warmJailID_def cloneJailID_def normal_comp_def)

lemma vm_dir_inj:
  assumes "base \<noteq> []" "hd base = slash" "vm_dir base u a = vm_dir base u b"
  shows "vm_jail_id a = vm_jail_id b"
proof -
  obtain cs where "path_Clean base = slash # join_with slash cs" "\<forall>c \<in> set cs. normal_comp c"
    and "\<And>jid uid. normal_comp jid \<Longrightarrow>
       jailDir (newVMJail base jid uid) = slash # join_with slash (cs @ [jailExecName, jid])"
    using jailDir_rooted [OF assms(1,2)] by blast
  then have "join_with slash (cs @ [jailExecName, vm_jail_id a]) = join_with slash (cs @ [jailExecName, vm_jail_id b])"
    using assms(3) by (simp add: vm_dir_def normal_jail_id)
  moreover have "join_with slash (cs @ [jailExecName, c]) = join_with slash (cs @ [jailExecName]) @ slash # c" for c
    using join_with_append [of "cs @ [jailExecName]" "[c]" slash] by simp
  ultimately show ?thesis by simp
qed


lemma host_demo:
  "host_reachable 65536 (host_start\<lparr>hv_eph := {4351}, hv_live := {ColdVM 4351, ImageVM 1}\<rparr>)"
proof -
  have a: "allocEphSlot 65536 {} = Some (4351, {4351})"
    by (simp add: allocEphSlot_def jail_consts first_free.simps)
  have "host_step 65536 host_start (host_start\<lparr>hv_live := {ImageVM 1}\<rparr>)"
    using host_step.image_boot [of 1 host_start 65536] by (simp add: host_start_def net_consts)
  moreover have "host_step 65536 (host_start\<lparr>hv_live := {ImageVM 1}\<rparr>)
      (host_start\<lparr>hv_eph := {4351}, hv_live := {ColdVM 4351, ImageVM 1}\<rparr>)"
    using host_step.cold_boot [of 65536 "host_start\<lparr>hv_live := {ImageVM 1}\<rparr>" 4351 "{4351}"] a
    by (simp add: host_start_def)
  ultimately show ?thesis unfolding host_reachable_def
    by (rule converse_rtranclp_into_rtranclp [OF _ r_into_rtranclp])
qed


text \<open>The exception for warm templates is real: the guard of \<open>ensureTemplate\<close> is per
  language, so a host can reach a state with two live templates of different languages, and both
  run as the same uid in the same jail directory.\<close>

theorem template_identity_shared:
  "\<exists>s. host_reachable span s \<and> {TemplateVM ''python'', TemplateVM ''go''} \<subseteq> hv_live s \<and>
     vm_uid uidBase (TemplateVM ''python'') = vm_uid uidBase (TemplateVM ''go'') \<and>
     vm_dir base uidBase (TemplateVM ''python'') = vm_dir base uidBase (TemplateVM ''go'')"
proof -
  let ?s1 = "host_start\<lparr>hv_building := {''python''}, hv_live := {TemplateVM ''python''}\<rparr>"
  let ?s2 = "host_start\<lparr>hv_building := {''go'', ''python''}, hv_live := {TemplateVM ''go'', TemplateVM ''python''}\<rparr>"
  have "host_step span host_start ?s1"
    using host_step.template_boot [of "''python''" host_start span] by (simp add: host_start_def)
  moreover have "host_step span ?s1 ?s2"
    using host_step.template_boot [of "''go''" ?s1 span] by (simp add: host_start_def)
  ultimately have "host_reachable span ?s2" unfolding host_reachable_def
    by (rule converse_rtranclp_into_rtranclp [OF _ r_into_rtranclp])
  then show ?thesis by (intro exI [of _ ?s2]) (simp add: vm_dir_def)
qed

end
