(* ===== verification/Image_Teardown.thy ===== *)
theory Image_Teardown
  imports Net_Allocator Jail
begin

text \<open>
  Stopping a microVM and giving its resources back: the identity proof of
  \<open>internal/infrastructure/firecracker/vm_identity.go\<close> and the teardown, addressing set-up and
  reclaim of \<open>internal/infrastructure/firecracker/image_boot.go\<close>.

  The host is a parameter: what \<open>/proc\<close>, the jailer's pidfile and each signal answer
  (\<open>ib_inspect\<close>, \<open>ib_signal\<close>; the n-th signal call has its own answer), and how many polls each
  bounded wait gets before its timer fires.  Every host effect is appended to a log, in order;
  the lease database is the one of the allocator.
\<close>

section \<open>Data\<close>

record ImageDecommissionInput =
  di_OwnerKind :: NetLeaseOwnerKind
  di_OwnerID :: uuid
  di_PID :: int
  di_SocketPath :: string
  di_TapName :: string
  di_NetIndex :: int
  di_GuestIP :: string
  di_HostPort :: int
  di_Port :: int
  di_RootfsPath :: string

text \<open>\<open>processInspector\<close>; \<open>None\<close> is a failed read.\<close>

record processInspector =
  pi_comm :: "int \<Rightarrow> string option"
  pi_cmdline :: "int \<Rightarrow> string list option"
  pi_pgid :: "int \<Rightarrow> int option"
  pi_jailPID :: "string \<Rightarrow> int option"

datatype signal = Signal0 | SIGTERM | SIGKILL

datatype signal_reply = SigDelivered | SigProcessDone | SigESRCH | SigError

record imgNet =
  in_index :: int
  in_slot :: int
  in_uid :: int
  in_tapName :: string
  in_hostIP :: string
  in_guestIP :: string

datatype host_effect =
    EvSignal int signal signal_reply
  | EvGuestShutdown string
  | EvTapAdd imgNet
  | EvTapDel string
  | EvAcquire NetLeaseOwnerKind uuid
  | EvRelease NetLeaseOwnerKind uuid
  | EvTokenDelete string
  | EvRemove string
  | EvRemoveAll string

record 'db ImageBooter =
  ib_alloc :: "'db FleetNetAllocator option"
  ib_chrootBase :: string
  ib_uuidString :: "uuid \<Rightarrow> string"
  ib_findProcess :: "int \<Rightarrow> bool"
  ib_inspect :: processInspector
  ib_signal :: "int \<Rightarrow> signal \<Rightarrow> nat \<Rightarrow> signal_reply"
  ib_guestControl :: bool
  ib_powerOffPolls :: nat
  ib_sigtermPolls :: nat
  ib_sigkillPolls :: nat
  ib_nat :: bool
  ib_tapAdd :: "imgNet \<Rightarrow> bool"
  ib_tapDel :: "string \<Rightarrow> bool"
  ib_removeAll :: "string \<Rightarrow> bool"

record 'db booter_state =
  bs_db :: 'db
  bs_log :: "host_effect list"

definition emit :: "host_effect \<Rightarrow> 'db booter_state \<Rightarrow> 'db booter_state" where
  "emit e s = s\<lparr>bs_log := bs_log s @ [e]\<rparr>"

section \<open>Identity\<close>

fun argvHasPair :: "string list \<Rightarrow> string \<Rightarrow> string \<Rightarrow> bool" where
  "argvHasPair (a # b # rest) flag value = (a = flag \<and> b = value \<or> argvHasPair (b # rest) flag value)"
| "argvHasPair _ flag value = False"

definition jailPIDFilePath :: "string \<Rightarrow> int \<Rightarrow> string" where
  "jailPIDFilePath chrootBase localSlot =
     path_Join [path_Clean chrootBase, jailExecName, show_int localSlot, ''root'', jailExecName @ ''.pid'']"

text \<open>\<open>True\<close> is a nil error; every failure of the source is \<open>ErrVMTerminationUnproven\<close>.  The
  remainder is only reached with a positive net index, where Go's and HOL's agree.\<close>

definition proveVMIdentity ::
  "(uuid \<Rightarrow> string) \<Rightarrow> processInspector \<Rightarrow> string \<Rightarrow> ImageDecommissionInput \<Rightarrow> bool" where
  "proveVMIdentity uuidString insp chrootBase inp =
    (if \<not> NetLeaseOwnerKind_IsValid (di_OwnerKind inp) then False
     else if di_OwnerID inp = uuid_Nil then False
     else if di_NetIndex inp \<le> 0 then False
     else let localSlot = di_NetIndex inp mod NetSlotStride in
       if localSlot < 1 \<or> localSlot > NetMaxSlot then False
       else let wantSock = uuidString (di_OwnerID inp) @ ''.sock'' in
         if path_Base (di_SocketPath inp) \<noteq> wantSock then False
         else (case pi_comm insp (di_PID inp) of
            None \<Rightarrow> False
          | Some comm \<Rightarrow>
            if comm \<noteq> jailExecName then False
            else (case pi_cmdline insp (di_PID inp) of
               None \<Rightarrow> False
             | Some argv \<Rightarrow>
               if \<not> argvHasPair argv ''--id'' (show_int localSlot) then False
               else if \<not> argvHasPair argv ''--api-sock'' (''/run/'' @ wantSock) then False
               else (case pi_pgid insp (di_PID inp) of
                  None \<Rightarrow> False
                | Some pgid \<Rightarrow>
                  if pgid \<noteq> di_PID inp then False
                  else (case pi_jailPID insp (jailPIDFilePath chrootBase localSlot) of
                     None \<Rightarrow> False
                   | Some recorded \<Rightarrow> recorded = di_PID inp)))))"

section \<open>Stopping the VMM\<close>

definition signalReportsGone :: "signal_reply \<Rightarrow> bool" where
  "signalReportsGone r \<longleftrightarrow> r = SigProcessDone \<or> r = SigESRCH"

text \<open>\<open>proc.Signal\<close>: the answer is that of the host at this point of the log.\<close>

definition send_signal ::
  "'db ImageBooter \<Rightarrow> int \<Rightarrow> signal \<Rightarrow> 'db booter_state \<Rightarrow> signal_reply \<times> 'db booter_state" where
  "send_signal b pid sg s =
     (let r = ib_signal b pid sg (length (bs_log s)) in (r, emit (EvSignal pid sg r) s))"

text \<open>The pair of the source: the proof of absence, and whether the probe could not answer.\<close>

definition processGone ::
  "'db ImageBooter \<Rightarrow> int \<Rightarrow> 'db booter_state \<Rightarrow> (bool \<times> bool) \<times> 'db booter_state" where
  "processGone b pid s =
     (case send_signal b pid Signal0 s of (r, s1) \<Rightarrow>
        if r = SigDelivered then ((False, False), s1)
        else if signalReportsGone r then ((True, False), s1)
        else ((False, True), s1))"

text \<open>The poll loop; the number is how often the timer (and context) let it go round again, so
  there is always at least one probe.\<close>

fun waitProcessGone ::
  "'db ImageBooter \<Rightarrow> int \<Rightarrow> nat \<Rightarrow> 'db booter_state \<Rightarrow> (bool \<times> bool) \<times> 'db booter_state" where
  "waitProcessGone b pid polls s =
     (case processGone b pid s of ((gone, err), s1) \<Rightarrow>
        if gone then ((True, False), s1)
        else if err then ((False, True), s1)
        else (case polls of 0 \<Rightarrow> ((False, False), s1) | Suc k \<Rightarrow> waitProcessGone b pid k s1))"

declare waitProcessGone.simps [simp del]

text \<open>The SIGTERM/SIGKILL ladder.  \<open>True\<close> is observed absence, \<open>False\<close> is
  \<open>ErrVMTerminationUnproven\<close>.\<close>

fun stop_ladder ::
  "'db ImageBooter \<Rightarrow> int \<Rightarrow> (signal \<times> nat) list \<Rightarrow> 'db booter_state \<Rightarrow> bool \<times> 'db booter_state" where
  "stop_ladder b pid [] s = (False, s)"
| "stop_ladder b pid ((sg, grace) # steps) s =
     (case send_signal b pid sg s of (r, s1) \<Rightarrow>
        if r \<noteq> SigDelivered then (signalReportsGone r, s1)
        else (case waitProcessGone b pid grace s1 of ((gone, err), s2) \<Rightarrow>
          if gone then (True, s2)
          else if err then (False, s2)
          else stop_ladder b pid steps s2))"

definition stopAndProve ::
  "'db ImageBooter \<Rightarrow> ImageDecommissionInput \<Rightarrow> 'db booter_state \<Rightarrow> bool \<times> 'db booter_state" where
  "stopAndProve b inp s =
     (let ladder = stop_ladder b (di_PID inp) [(SIGTERM, ib_sigtermPolls b), (SIGKILL, ib_sigkillPolls b)] in
      if \<not> ib_guestControl b \<or> di_SocketPath inp = '''' then ladder s
      else (case waitProcessGone b (di_PID inp) (ib_powerOffPolls b) (emit (EvGuestShutdown (di_SocketPath inp)) s) of
          ((gone, err), s1) \<Rightarrow> if gone then (True, s1) else ladder s1))"

definition never_booted :: "ImageDecommissionInput \<Rightarrow> bool" where
  "never_booted inp \<longleftrightarrow> di_SocketPath inp = '''' \<and> di_TapName inp = '''' \<and> di_NetIndex inp \<le> 0"

definition proveTerminated ::
  "'db ImageBooter \<Rightarrow> ImageDecommissionInput \<Rightarrow> 'db booter_state \<Rightarrow> bool \<times> 'db booter_state" where
  "proveTerminated b inp s =
     (if di_PID inp \<le> 0 then (never_booted inp, s)
      else if \<not> ib_findProcess b (di_PID inp) then (False, s)
      else (case processGone b (di_PID inp) s of ((gone, err), s1) \<Rightarrow>
        if gone then (True, s1)
        else if err then (False, s1)
        else if \<not> proveVMIdentity (ib_uuidString b) (ib_inspect b) (ib_chrootBase b) inp then (False, s1)
        else stopAndProve b inp s1))"

section \<open>Teardown and set-up\<close>

definition destroyTap :: "string \<Rightarrow> 'db booter_state \<Rightarrow> 'db booter_state" where
  "destroyTap tapName s = (if tapName = '''' then s else emit (EvTapDel tapName) s)"

definition releaseLease ::
  "'db ImageBooter \<Rightarrow> NetLeaseOwnerKind \<Rightarrow> uuid \<Rightarrow> 'db booter_state \<Rightarrow> unit fleet_result \<times> 'db booter_state" where
  "releaseLease b kind ownerID s =
     (case ib_alloc b of
        None \<Rightarrow> (Inr (), s)
      | Some a \<Rightarrow> (case FleetNetAllocator_Release a kind ownerID (bs_db s) of
          (r, db) \<Rightarrow> (r, emit (EvRelease kind ownerID) (s\<lparr>bs_db := db\<rparr>))))"

definition remove_host_files :: "'db ImageBooter \<Rightarrow> ImageDecommissionInput \<Rightarrow> 'db booter_state \<Rightarrow> 'db booter_state" where
  "remove_host_files b inp s =
     (let s1 = (if di_SocketPath inp \<noteq> '''' then
                 (let t = emit (EvRemove (di_SocketPath inp @ ''.vsock''))
                            (emit (EvRemove (di_SocketPath inp)) (emit (EvTokenDelete (di_SocketPath inp)) s));
                      dir = jailDirFromSocketPath (ib_chrootBase b) (di_SocketPath inp)
                  in if dir \<noteq> '''' then emit (EvRemoveAll dir) t else t)
               else s)
      in if di_RootfsPath inp \<noteq> '''' then emit (EvRemove (di_RootfsPath inp)) s1 else s1)"

definition ImageBooter_Decommission ::
  "'db ImageBooter \<Rightarrow> ImageDecommissionInput \<Rightarrow> 'db booter_state \<Rightarrow> unit fleet_result \<times> 'db booter_state" where
  "ImageBooter_Decommission b inp s =
     (case proveTerminated b inp s of (proven, s1) \<Rightarrow>
        if \<not> proven then (Inl ErrVMTerminationUnproven, s1)
        else let s2 = destroyTap (di_TapName inp) s1 in
          (case releaseLease b (di_OwnerKind inp) (di_OwnerID inp) s2 of
             (Inl e, s3) \<Rightarrow> (Inl e, s3)
           | (Inr _, s3) \<Rightarrow> (Inr (), remove_host_files b inp s3)))"

definition imgNetFromLease :: "NetLease \<Rightarrow> imgNet" where
  "imgNetFromLease lease = \<lparr>in_index = nl_NetIndex lease, in_slot = nl_LocalSlot lease, in_uid = nl_VMUID lease,
     in_tapName = nl_TapName lease, in_hostIP = nl_HostIP lease, in_guestIP = nl_GuestIP lease\<rparr>"

text \<open>\<open>createTap\<close>: the stale device is deleted first; a failing NAT
  set-up returns at once, a failing command deletes what it made.\<close>

definition createTap :: "'db ImageBooter \<Rightarrow> imgNet \<Rightarrow> 'db booter_state \<Rightarrow> bool \<times> 'db booter_state" where
  "createTap b nw s =
     (let s1 = emit (EvTapDel (in_tapName nw)) s in
      if \<not> ib_nat b then (False, s1)
      else if ib_tapAdd b nw then (True, emit (EvTapAdd nw) s1)
      else (False, emit (EvTapDel (in_tapName nw)) s1))"

definition setupNet ::
  "'db ImageBooter \<Rightarrow> NetLeaseOwnerKind \<Rightarrow> uuid \<Rightarrow> (uuid \<times> instant) list \<Rightarrow> 'db booter_state \<Rightarrow>
   imgNet fleet_result \<times> 'db booter_state" where
  "setupNet b kind ownerID fresh s =
     (case ib_alloc b of
        None \<Rightarrow> (Inl ErrNetPlaneUnreconciled, s)
      | Some a \<Rightarrow> (case FleetNetAllocator_acquire a kind ownerID fresh (bs_db s) of
          (Inl e, db) \<Rightarrow> (Inl e, emit (EvAcquire kind ownerID) (s\<lparr>bs_db := db\<rparr>))
        | (Inr lease, db) \<Rightarrow>
          let nw = imgNetFromLease lease in
          (case createTap b nw (emit (EvAcquire kind ownerID) (s\<lparr>bs_db := db\<rparr>)) of
             (True, s2) \<Rightarrow> (Inr nw, s2)
           | (False, s2) \<Rightarrow> (case releaseLease b kind ownerID s2 of (_, s3) \<Rightarrow> (Inl ErrOther, s3)))))"

definition setupNet_cleanup ::
  "'db ImageBooter \<Rightarrow> NetLeaseOwnerKind \<Rightarrow> uuid \<Rightarrow> imgNet \<Rightarrow> 'db booter_state \<Rightarrow> 'db booter_state" where
  "setupNet_cleanup b kind ownerID nw s =
     snd (releaseLease b kind ownerID (destroyTap (in_tapName nw) s))"

text \<open>The result is whether the source reports no problem.\<close>

definition ReclaimLeaseArtifacts ::
  "'db ImageBooter \<Rightarrow> NetLease \<Rightarrow> 'db booter_state \<Rightarrow> bool \<times> 'db booter_state" where
  "ReclaimLeaseArtifacts b lease s =
     (let (ok1, s1) = (if nl_TapName lease \<noteq> ''''
                       then (ib_tapDel b (nl_TapName lease), emit (EvTapDel (nl_TapName lease)) s)
                       else (True, s));
          dir = jailDir (newVMJail (ib_chrootBase b) (show_int (nl_LocalSlot lease)) (nl_VMUID lease));
          (ok2, s2) = (if ib_chrootBase b \<noteq> '''' \<and> nl_LocalSlot lease > 0
                       then (ib_removeAll b dir, emit (EvRemoveAll dir) s1)
                       else (True, s1))
      in (ok1 \<and> ok2, s2))"

section \<open>Small helpers of the booter\<close>

definition normalizeResources :: "int \<Rightarrow> int \<Rightarrow> int \<times> int" where
  "normalizeResources vcpu memMB = (if vcpu \<le> 0 then 1 else vcpu, if memMB \<le> 0 then 512 else memMB)"

fun parse_exit_loop :: "string \<Rightarrow> bool \<Rightarrow> bool \<Rightarrow> int \<Rightarrow> bool \<times> int" where
  "parse_exit_loop [] started neg code = (neg, code)"
| "parse_exit_loop (r # rs) started neg code =
     (if r = CHR ''-'' \<and> \<not> started then parse_exit_loop rs True True code
      else if is_digit r then parse_exit_loop rs True neg (go_add (go_mul code 10) (int (digit_val r)))
      else if started then (neg, code)
      else parse_exit_loop rs started neg code)"

definition parseExitCode :: "string \<Rightarrow> int" where
  "parseExitCode s = (case parse_exit_loop s False False 0 of (neg, code) \<Rightarrow> if neg then go_sub 0 code else code)"

section \<open>What a stop may do\<close>

text \<open>The events of a stop of \<open>inp\<close>: signals to its pid, stronger than the probe only when
  \<open>armed\<close>, and the guest shutdown request on its own socket.\<close>

fun stop_event :: "ImageDecommissionInput \<Rightarrow> bool \<Rightarrow> host_effect \<Rightarrow> bool" where
  "stop_event inp armed (EvSignal pid sg r) = (pid = di_PID inp \<and> (sg = Signal0 \<or> armed))"
| "stop_event inp armed (EvGuestShutdown p) = (p = di_SocketPath inp \<and> armed)"
| "stop_event inp armed _ = False"

definition stop_run ::
  "ImageDecommissionInput \<Rightarrow> bool \<Rightarrow> 'db booter_state \<Rightarrow> 'db booter_state \<Rightarrow> host_effect list \<Rightarrow> bool" where
  "stop_run inp armed s s' evs \<longleftrightarrow> s' = s\<lparr>bs_log := bs_log s @ evs\<rparr> \<and> (\<forall>e \<in> set evs. stop_event inp armed e)"

text \<open>The last thing that happened is a report that the process does not exist.\<close>

definition observed_absent :: "ImageDecommissionInput \<Rightarrow> host_effect list \<Rightarrow> bool" where
  "observed_absent inp evs \<longleftrightarrow>
     (\<exists>pre sg r. evs = pre @ [EvSignal (di_PID inp) sg r] \<and> signalReportsGone r)"

lemma stop_run_refl [simp]: "stop_run inp armed s s []"
  by (simp add: stop_run_def)

lemma stop_run_trans:
  "stop_run inp armed s t xs \<Longrightarrow> stop_run inp armed t u ys \<Longrightarrow> stop_run inp armed s u (xs @ ys)"
  by (auto simp: stop_run_def)

lemma stop_run_arm: "stop_run inp armed s t xs \<Longrightarrow> stop_run inp True s t xs"
proof -
  have "stop_event inp armed e \<Longrightarrow> stop_event inp True e" for e by (cases e) auto
  then show "stop_run inp armed s t xs \<Longrightarrow> ?thesis" by (auto simp: stop_run_def)
qed

lemma observed_absent_simps [simp]:
  "\<not> observed_absent inp []"
  "observed_absent inp (xs @ [EvSignal (di_PID inp) sg r]) \<longleftrightarrow> signalReportsGone r"
  "observed_absent inp [EvSignal (di_PID inp) sg r] \<longleftrightarrow> signalReportsGone r"
  by (auto simp: observed_absent_def)

lemma observed_absent_append [simp]: "ys \<noteq> [] \<Longrightarrow> observed_absent inp (xs @ ys) \<longleftrightarrow> observed_absent inp ys"
  by (cases ys rule: rev_cases) (auto simp: observed_absent_def)

lemma observed_absent_Cons [simp]: "ys \<noteq> [] \<Longrightarrow> observed_absent inp (x # ys) \<longleftrightarrow> observed_absent inp ys"
  using observed_absent_append [of ys inp "[x]"] by simp

lemma send_signal_run:
  "send_signal b (di_PID inp) sg s = (r, s') \<Longrightarrow> sg = Signal0 \<or> armed \<Longrightarrow>
    stop_run inp armed s s' [EvSignal (di_PID inp) sg r]"
  by (auto simp: send_signal_def stop_run_def emit_def Let_def)

lemma processGone_run:
  assumes "processGone b (di_PID inp) s = ((gone, err), s')"
  obtains r where "stop_run inp armed s s' [EvSignal (di_PID inp) Signal0 r]" "gone \<longleftrightarrow> signalReportsGone r"
  using assms send_signal_run [of b inp Signal0 s _ _ armed]
  by (auto simp: processGone_def signalReportsGone_def split: prod.splits if_splits)

lemma waitProcessGone_run:
  "waitProcessGone b (di_PID inp) polls s = ((gone, err), s') \<Longrightarrow>
    \<exists>evs. stop_run inp armed s s' evs \<and> evs \<noteq> [] \<and> (gone \<longleftrightarrow> observed_absent inp evs)"
proof (induction polls arbitrary: s)
  case 0
  obtain g e s1 where p: "processGone b (di_PID inp) s = ((g, e), s1)" by (metis surj_pair)
  obtain r where r: "stop_run inp armed s s1 [EvSignal (di_PID inp) Signal0 r]" "g \<longleftrightarrow> signalReportsGone r"
    by (rule processGone_run [OF p])
  with 0 p show ?case
    by (intro exI [of _ "[EvSignal (di_PID inp) Signal0 r]"])
      (auto simp: waitProcessGone.simps [of b _ 0] split: if_splits)
next
  case (Suc k)
  obtain g e s1 where p: "processGone b (di_PID inp) s = ((g, e), s1)" by (metis surj_pair)
  obtain r where r: "stop_run inp armed s s1 [EvSignal (di_PID inp) Signal0 r]" "g \<longleftrightarrow> signalReportsGone r"
    by (rule processGone_run [OF p])
  show ?case
  proof (cases "g \<or> e")
    case True
    with Suc.prems p r show ?thesis
      by (intro exI [of _ "[EvSignal (di_PID inp) Signal0 r]"])
        (auto simp: waitProcessGone.simps [of b _ "Suc k"] split: if_splits)
  next
    case False
    with Suc.prems p have "waitProcessGone b (di_PID inp) k s1 = ((gone, err), s')"
      by (simp add: waitProcessGone.simps [of b _ "Suc k"])
    from Suc.IH [OF this] r(1) show ?thesis by (metis stop_run_trans observed_absent_append append_is_Nil_conv)
  qed
qed

lemma stop_ladder_run:
  "stop_ladder b (di_PID inp) steps s = (proven, s') \<Longrightarrow>
    \<exists>evs. stop_run inp True s s' evs \<and> (evs \<noteq> [] \<or> steps = []) \<and> (proven \<longleftrightarrow> observed_absent inp evs)"
proof (induction steps arbitrary: s)
  case Nil
  then show ?case by (intro exI [of _ "[]"]) simp
next
  case (Cons step steps)
  obtain sg grace where st: "step = (sg, grace)" by (metis surj_pair)
  obtain r s1 where r: "send_signal b (di_PID inp) sg s = (r, s1)" by (metis surj_pair)
  note run1 = send_signal_run [OF r, of True]
  show ?case
  proof (cases "r = SigDelivered")
    case False
    with Cons.prems st r run1 show ?thesis
      by (intro exI [of _ "[EvSignal (di_PID inp) sg r]"]) auto
  next
    case True
    obtain g e s2 where w: "waitProcessGone b (di_PID inp) grace s1 = ((g, e), s2)" by (metis surj_pair)
    obtain evs where evs: "stop_run inp True s1 s2 evs" "evs \<noteq> []" "g \<longleftrightarrow> observed_absent inp evs"
      using waitProcessGone_run [OF w, of True] by blast
    let ?xs = "[EvSignal (di_PID inp) sg r] @ evs"
    have run2: "stop_run inp True s s2 ?xs" and ab: "observed_absent inp ?xs \<longleftrightarrow> g"
      using stop_run_trans [OF run1 evs(1)] evs(2,3) observed_absent_append by auto
    show ?thesis
    proof (cases "g \<or> e")
      case True
      with Cons.prems st r \<open>r = SigDelivered\<close> w have "s' = s2" "proven = g" by (auto split: if_splits)
      with run2 ab show ?thesis by (intro exI [of _ ?xs]) simp
    next
      case False
      with Cons.prems st r \<open>r = SigDelivered\<close> w have "stop_ladder b (di_PID inp) steps s2 = (proven, s')" by simp
      then obtain ys where ys: "stop_run inp True s2 s' ys" "proven \<longleftrightarrow> observed_absent inp ys" "ys \<noteq> [] \<or> steps = []"
        using Cons.IH by blast
      have "observed_absent inp (?xs @ ys) \<longleftrightarrow> proven"
      proof (cases "ys = []")
        case True
        with ys(2) ab False show ?thesis by simp
      next
        case ne: False
        from observed_absent_append [OF ne, of inp ?xs] ys(2) show ?thesis by blast
      qed
      with stop_run_trans [OF run2 ys(1)] show ?thesis by (intro exI [of _ "?xs @ ys"]) simp
    qed
  qed
qed

lemma stopAndProve_run:
  assumes "stopAndProve b inp s = (proven, s')"
  shows "\<exists>evs. stop_run inp True s s' evs \<and> evs \<noteq> [] \<and> (proven \<longleftrightarrow> observed_absent inp evs)"
proof -
  let ?steps = "[(SIGTERM, ib_sigtermPolls b), (SIGKILL, ib_sigkillPolls b)]"
  show ?thesis
  proof (cases "\<not> ib_guestControl b \<or> di_SocketPath inp = ''''")
    case True
    then have "stop_ladder b (di_PID inp) ?steps s = (proven, s')"
      using assms unfolding stopAndProve_def Let_def by (simp only: if_True)
    from stop_ladder_run [OF this] show ?thesis by blast
  next
    case False
    let ?s0 = "emit (EvGuestShutdown (di_SocketPath inp)) s"
    have run0: "stop_run inp True s ?s0 [EvGuestShutdown (di_SocketPath inp)]"
      by (simp add: stop_run_def emit_def)
    obtain g e s1 where w: "waitProcessGone b (di_PID inp) (ib_powerOffPolls b) ?s0 = ((g, e), s1)" by (metis surj_pair)
    obtain evs where evs: "stop_run inp True ?s0 s1 evs" "evs \<noteq> []" "g \<longleftrightarrow> observed_absent inp evs"
      using waitProcessGone_run [OF w, of True] by blast
    let ?xs = "[EvGuestShutdown (di_SocketPath inp)] @ evs"
    have run1: "stop_run inp True s s1 ?xs" and ab: "observed_absent inp ?xs \<longleftrightarrow> g"
      using stop_run_trans [OF run0 evs(1)] evs(2,3) observed_absent_append by auto
    have split: "(if g then (True, s1) else stop_ladder b (di_PID inp) ?steps s1) = (proven, s')"
      using assms False w unfolding stopAndProve_def Let_def by (simp only: if_False prod.case)
    show ?thesis
    proof (cases g)
      case True
      with split have "proven" "s' = s1" by simp_all
      with True run1 ab show ?thesis by (intro exI [of _ ?xs]) simp
    next
      case False
      then have "stop_ladder b (di_PID inp) ?steps s1 = (proven, s')" using split by (simp only: if_False)
      then obtain ys where ys: "stop_run inp True s1 s' ys" "ys \<noteq> []" "proven \<longleftrightarrow> observed_absent inp ys"
        using stop_ladder_run by blast
      show ?thesis
        using stop_run_trans [OF run1 ys(1)] ys(2,3) observed_absent_append [OF ys(2)]
        by (intro exI [of _ "?xs @ ys"]) simp
    qed
  qed
qed

definition identity_proven :: "'db ImageBooter \<Rightarrow> ImageDecommissionInput \<Rightarrow> bool" where
  "identity_proven b inp \<longleftrightarrow> proveVMIdentity (ib_uuidString b) (ib_inspect b) (ib_chrootBase b) inp"

definition proof_of_absence :: "ImageDecommissionInput \<Rightarrow> host_effect list \<Rightarrow> bool" where
  "proof_of_absence inp evs \<longleftrightarrow> observed_absent inp evs \<or> di_PID inp \<le> 0 \<and> never_booted inp"

lemma proveTerminated_run:
  assumes "proveTerminated b inp s = (proven, s')"
  shows "\<exists>evs. stop_run inp (identity_proven b inp) s s' evs \<and> (proven \<longleftrightarrow> proof_of_absence inp evs)"
proof (cases "di_PID inp \<le> 0 \<or> \<not> ib_findProcess b (di_PID inp)")
  case True
  with assms show ?thesis
    by (intro exI [of _ "[]"]) (auto simp: proveTerminated_def proof_of_absence_def split: if_splits)
next
  case False
  then have pos: "proof_of_absence inp evs \<longleftrightarrow> observed_absent inp evs" for evs
    by (auto simp: proof_of_absence_def)
  obtain g e s1 where p: "processGone b (di_PID inp) s = ((g, e), s1)" by (metis surj_pair)
  obtain r where r: "stop_run inp (identity_proven b inp) s s1 [EvSignal (di_PID inp) Signal0 r]" "g \<longleftrightarrow> signalReportsGone r"
    by (rule processGone_run [OF p])
  show ?thesis
  proof (cases "g \<or> e \<or> \<not> identity_proven b inp")
    case True
    with False assms p r show ?thesis
      by (intro exI [of _ "[EvSignal (di_PID inp) Signal0 r]"])
        (auto simp: pos proveTerminated_def identity_proven_def split: if_splits)
  next
    case armed: False
    with False assms p have "stopAndProve b inp s1 = (proven, s')"
      by (auto simp: proveTerminated_def identity_proven_def)
    then obtain ys where ys: "stop_run inp True s1 s' ys" "ys \<noteq> []" "proven \<longleftrightarrow> observed_absent inp ys"
      using stopAndProve_run by blast
    from stop_run_trans [OF r(1)] ys armed observed_absent_append [OF ys(2)] show ?thesis
      by (intro exI [of _ "[EvSignal (di_PID inp) Signal0 r] @ ys"]) (auto simp: pos)
  qed
qed

section \<open>Teardown is proof-first\<close>

definition tap_events :: "ImageDecommissionInput \<Rightarrow> host_effect list" where
  "tap_events inp = (if di_TapName inp = '''' then [] else [EvTapDel (di_TapName inp)])"

definition lease_events :: "'db ImageBooter \<Rightarrow> ImageDecommissionInput \<Rightarrow> host_effect list" where
  "lease_events b inp = (if ib_alloc b = None then [] else [EvRelease (di_OwnerKind inp) (di_OwnerID inp)])"

definition file_events :: "'db ImageBooter \<Rightarrow> ImageDecommissionInput \<Rightarrow> host_effect list" where
  "file_events b inp =
     (let sock = di_SocketPath inp; dir = jailDirFromSocketPath (ib_chrootBase b) sock in
      (if sock = '''' then []
       else [EvTokenDelete sock, EvRemove sock, EvRemove (sock @ ''.vsock'')] @
            (if dir = '''' then [] else [EvRemoveAll dir])) @
      (if di_RootfsPath inp = '''' then [] else [EvRemove (di_RootfsPath inp)]))"

lemma destroyTap_log: "destroyTap (di_TapName inp) s = s\<lparr>bs_log := bs_log s @ tap_events inp\<rparr>"
  by (simp add: destroyTap_def tap_events_def emit_def)

lemma releaseLease_log:
  "releaseLease b (di_OwnerKind inp) (di_OwnerID inp) s = (r, s') \<Longrightarrow>
    bs_log s' = bs_log s @ lease_events b inp"
  by (auto simp: releaseLease_def lease_events_def emit_def split: option.splits prod.splits)

lemma remove_host_files_log: "remove_host_files b inp s = s\<lparr>bs_log := bs_log s @ file_events b inp\<rparr>"
  by (simp add: remove_host_files_def file_events_def emit_def Let_def)

text \<open>Claim C11.  Teardown never gives back what a live VM may hold.  Whatever the host answers,
  \<open>Decommission\<close> first does nothing but probe and stop: it touches only the recorded pid, and
  sends SIGTERM, SIGKILL or a guest shutdown only once the process proved to be this very VM.
  Only after the last answer reported that the process does not exist (or for a row that never
  booted) does it delete the TAP, then release the lease, then remove the files, in that order;
  the files stay when the release fails.  Without that proof it returns
  \<open>ErrVMTerminationUnproven\<close> and leaves the lease database and every artifact untouched.\<close>

theorem decommission_proof_first:
  assumes "ImageBooter_Decommission b inp s = (r, s')"
  shows "\<exists>stop. (\<forall>e \<in> set stop. stop_event inp (identity_proven b inp) e) \<and>
    (if proof_of_absence inp stop
     then bs_log s' = bs_log s @ stop @ tap_events inp @ lease_events b inp @
            (if r = Inr () then file_events b inp else [])
     else r = Inl ErrVMTerminationUnproven \<and> bs_log s' = bs_log s @ stop \<and> bs_db s' = bs_db s)"
proof -
  obtain proven s1 where p: "proveTerminated b inp s = (proven, s1)" by (metis surj_pair)
  obtain stop where run: "stop_run inp (identity_proven b inp) s s1 stop"
    and pr: "proven \<longleftrightarrow> proof_of_absence inp stop"
    using proveTerminated_run [OF p] by blast
  have s1: "bs_log s1 = bs_log s @ stop" "bs_db s1 = bs_db s"
    using run by (simp_all add: stop_run_def)
  show ?thesis
  proof (intro exI [of _ stop] conjI)
    show "\<forall>e \<in> set stop. stop_event inp (identity_proven b inp) e" using run by (simp add: stop_run_def)
    show "if proof_of_absence inp stop
      then bs_log s' = bs_log s @ stop @ tap_events inp @ lease_events b inp @ (if r = Inr () then file_events b inp else [])
      else r = Inl ErrVMTerminationUnproven \<and> bs_log s' = bs_log s @ stop \<and> bs_db s' = bs_db s"
    proof (cases proven)
      case False
      with assms p pr s1 show ?thesis by (simp add: ImageBooter_Decommission_def)
    next
      case True
      obtain rr s3 where rel: "releaseLease b (di_OwnerKind inp) (di_OwnerID inp) (destroyTap (di_TapName inp) s1) = (rr, s3)"
        by (metis surj_pair)
      note lg = releaseLease_log [OF rel]
      show ?thesis
        using assms p True pr rel lg s1
        by (cases rr) (auto simp: ImageBooter_Decommission_def destroyTap_log remove_host_files_log)
    qed
  qed
qed

text \<open>A host on which pid 4711 is a running VMM that obeys SIGTERM, and one where it is gone.\<close>

definition demo_input :: ImageDecommissionInput where
  "demo_input = \<lparr>di_OwnerKind = NetLeaseOwnerReplica, di_OwnerID = 7, di_PID = 4711,
     di_SocketPath = ''/srv/jail/firecracker/1/root/run/u.sock'', di_TapName = ''img1'', di_NetIndex = 2049,
     di_GuestIP = '''', di_HostPort = 0, di_Port = 0, di_RootfsPath = ''/img/a.ext4''\<rparr>"

definition demo_booter :: "(nat \<Rightarrow> signal_reply) \<Rightarrow> lease_db ImageBooter" where
  "demo_booter replies = \<lparr>ib_alloc = Some demo_alloc, ib_chrootBase = ''/srv/jail'', ib_uuidString = (\<lambda>_. ''u''),
     ib_findProcess = (\<lambda>_. True),
     ib_inspect = \<lparr>pi_comm = (\<lambda>_. Some ''firecracker''),
       pi_cmdline = (\<lambda>_. Some [''fc'', ''--id'', ''1'', ''--api-sock'', ''/run/u.sock'']),
       pi_pgid = (\<lambda>p. Some p), pi_jailPID = (\<lambda>_. Some 4711)\<rparr>,
     ib_signal = (\<lambda>pid sg n. replies n), ib_guestControl = False, ib_powerOffPolls = 2,
     ib_sigtermPolls = 2, ib_sigkillPolls = 2, ib_nat = True, ib_tapAdd = (\<lambda>_. True), ib_tapDel = (\<lambda>_. True),
     ib_removeAll = (\<lambda>_. True)\<rparr>"

definition obeys_term :: "lease_db ImageBooter" where
  "obeys_term = demo_booter (\<lambda>n. if n < 3 then SigDelivered else SigESRCH)"

definition fresh_host :: "lease_db booter_state" where
  "fresh_host = \<lparr>bs_db = demo_db, bs_log = []\<rparr>"

theorem decommission_proof_first_witness:
  "\<exists>r s' stop. ImageBooter_Decommission obeys_term demo_input fresh_host = (r, s') \<and>
    (\<forall>e \<in> set stop. stop_event demo_input (identity_proven obeys_term demo_input) e) \<and>
    (if proof_of_absence demo_input stop
     then bs_log s' = bs_log fresh_host @ stop @ tap_events demo_input @ lease_events obeys_term demo_input @
            (if r = Inr () then file_events obeys_term demo_input else [])
     else r = Inl ErrVMTerminationUnproven \<and> bs_log s' = bs_log fresh_host @ stop \<and> bs_db s' = bs_db fresh_host)"
proof -
  obtain r s' where d: "ImageBooter_Decommission obeys_term demo_input fresh_host = (r, s')" by (metis surj_pair)
  from decommission_proof_first [OF this] d show ?thesis by blast
qed

section \<open>A proven identity names one VM\<close>

text \<open>A flag that occurs once in an argument vector, as the jailer writes it.\<close>

definition flag_once :: "string list \<Rightarrow> string \<Rightarrow> bool" where
  "flag_once argv flag \<longleftrightarrow> length (filter (\<lambda>a. a = flag) argv) \<le> 1"

lemma argvHasPair_mem: "argvHasPair argv flag v \<Longrightarrow> flag \<in> set argv"
  by (induction argv flag v rule: argvHasPair.induct) auto

lemma flag_once_Cons:
  "flag_once (a # rest) flag \<longleftrightarrow> (if a = flag then flag \<notin> set rest else flag_once rest flag)"
  by (auto simp: flag_once_def filter_empty_conv)

lemma argvHasPair_unique:
  "argvHasPair argv flag v \<Longrightarrow> argvHasPair argv flag w \<Longrightarrow> flag_once argv flag \<Longrightarrow> v = w"
  by (induction argv flag v rule: argvHasPair.induct)
    (auto simp: flag_once_Cons split: if_splits dest: argvHasPair_mem)

lemma proveVMIdentity_facts:
  assumes "proveVMIdentity us insp base inp"
  obtains argv where "pi_cmdline insp (di_PID inp) = Some argv"
    and "argvHasPair argv ''--id'' (show_int (di_NetIndex inp mod NetSlotStride))"
    and "argvHasPair argv ''--api-sock'' (''/run/'' @ us (di_OwnerID inp) @ ''.sock'')"
    and "pi_comm insp (di_PID inp) = Some jailExecName" "pi_pgid insp (di_PID inp) = Some (di_PID inp)"
    and "pi_jailPID insp (jailPIDFilePath base (di_NetIndex inp mod NetSlotStride)) = Some (di_PID inp)"
    and "path_Base (di_SocketPath inp) = us (di_OwnerID inp) @ ''.sock''"
    and "1 \<le> di_NetIndex inp mod NetSlotStride"
  using assms by (auto simp: proveVMIdentity_def Let_def split: if_splits option.splits)

text \<open>A pid can be proven to be one VM only.  If the process table and pidfiles prove
  one process to be the VMM of two teardown inputs, and its argument vector carries each flag once,
  then both inputs name the same owner and the same jail slot, and the process leads its own group
  and is the one that slot's pidfile records.  So a recycled pid is never signalled on
  behalf of another tenant's row, and slot 1 is never taken for slot 12.\<close>

theorem vm_identity_unique:
  assumes "inj us" "di_PID i = di_PID j" "pi_cmdline insp (di_PID i) = Some argv"
    and "flag_once argv ''--id''" "flag_once argv ''--api-sock''"
    and "proveVMIdentity us insp base i" "proveVMIdentity us insp base j"
  shows "di_OwnerID i = di_OwnerID j \<and>
    di_NetIndex i mod NetSlotStride = di_NetIndex j mod NetSlotStride \<and>
    pi_pgid insp (di_PID i) = Some (di_PID i) \<and>
    pi_jailPID insp (jailPIDFilePath base (di_NetIndex i mod NetSlotStride)) = Some (di_PID i)"
proof -
  obtain a where a: "pi_cmdline insp (di_PID i) = Some a"
    "argvHasPair a ''--id'' (show_int (di_NetIndex i mod NetSlotStride))"
    "argvHasPair a ''--api-sock'' (''/run/'' @ us (di_OwnerID i) @ ''.sock'')"
    "pi_pgid insp (di_PID i) = Some (di_PID i)"
    "pi_jailPID insp (jailPIDFilePath base (di_NetIndex i mod NetSlotStride)) = Some (di_PID i)"
    using proveVMIdentity_facts [OF assms(6)] by metis
  obtain c where c: "pi_cmdline insp (di_PID j) = Some c"
    "argvHasPair c ''--id'' (show_int (di_NetIndex j mod NetSlotStride))"
    "argvHasPair c ''--api-sock'' (''/run/'' @ us (di_OwnerID j) @ ''.sock'')"
    using proveVMIdentity_facts [OF assms(7)] by metis
  have eq: "a = argv" "c = argv" using a(1) c(1) assms(2,3) by simp_all
  have "show_int (di_NetIndex i mod NetSlotStride) = show_int (di_NetIndex j mod NetSlotStride)"
    using argvHasPair_unique a(2) c(2) assms(4) unfolding eq by blast
  moreover have "''/run/'' @ us (di_OwnerID i) @ ''.sock'' = ''/run/'' @ us (di_OwnerID j) @ ''.sock''"
    using argvHasPair_unique a(3) c(3) assms(5) unfolding eq by blast
  then have "us (di_OwnerID i) = us (di_OwnerID j)" by simp
  ultimately show ?thesis using a(4,5) assms(1) by (simp add: show_int_inj inj_eq)
qed

text \<open>An injective rendering of owner ids, for the example.\<close>

definition demo_uuidString :: "uuid \<Rightarrow> string" where "demo_uuidString u = dec (unat u)"

lemma inj_demo_uuidString: "inj demo_uuidString"
  by (rule injI) (simp add: demo_uuidString_def dec_inj word_unat_eq_iff)

theorem vm_identity_unique_witness:
  "proveVMIdentity demo_uuidString
     \<lparr>pi_comm = (\<lambda>_. Some jailExecName), pi_cmdline = (\<lambda>_. Some [''--id'', show_int 1, ''--api-sock'', ''/run/'' @ dec 7 @ ''.sock'']),
      pi_pgid = (\<lambda>p. Some p), pi_jailPID = (\<lambda>_. Some 4711)\<rparr> ''/srv/jail''
     (demo_input\<lparr>di_SocketPath := dec 7 @ ''.sock''\<rparr>) \<and>
   di_OwnerID (demo_input\<lparr>di_SocketPath := dec 7 @ ''.sock''\<rparr>) = 7"
proof -
  let ?argv = "[''--id'', show_int 1, ''--api-sock'', ''/run/'' @ dec 7 @ ''.sock'']"
  let ?insp = "\<lparr>pi_comm = (\<lambda>_. Some jailExecName), pi_cmdline = (\<lambda>_. Some ?argv),
      pi_pgid = (\<lambda>p. Some p), pi_jailPID = (\<lambda>_. Some 4711)\<rparr> :: processInspector"
  let ?i = "demo_input\<lparr>di_SocketPath := dec 7 @ ''.sock''\<rparr>"
  have d7: "dec 7 = ''7''" "show_int 1 = ''1''" by code_simp+
  have base: "path_Base (di_SocketPath ?i) = demo_uuidString (di_OwnerID ?i) @ ''.sock''"
    by (simp add: demo_input_def demo_uuidString_def d7 path_Base_def)
  have p: "proveVMIdentity demo_uuidString ?insp ''/srv/jail'' ?i"
    using base by (simp add: proveVMIdentity_def demo_input_def demo_uuidString_def net_consts Let_def d7)
  have "flag_once ?argv ''--id''" "flag_once ?argv ''--api-sock''" by (simp_all add: flag_once_def d7)
  from vm_identity_unique [OF inj_demo_uuidString refl _ this p p] p show ?thesis by (simp add: demo_input_def)
qed

section \<open>Addressing is leased before it is used\<close>

text \<open>A TAP exists only under a lease.  When \<open>setupNet\<close> succeeds, the addressing it
  returns is read off a lease recorded for exactly this owner on this host, the lease was taken
  before the device was made, and the device is the last thing it did; when it fails, no device
  was left behind by it, and if it got as far as a device the lease was released after the
  device was deleted.  The fences of the lease table hold throughout.\<close>

theorem setupNet_lease_first:
  assumes "fenced (rows (bs_db s))" "ib_alloc b = Some a" "na_leases a = Some pg_repo"
    and "setupNet b kind ownerID fresh s = (r, s')"
  shows "fenced (rows (bs_db s')) \<and>
    (case r of
       Inr nw \<Rightarrow> (\<exists>l \<in> set (rows (bs_db s')). owned_by kind ownerID l \<and> nl_HostID l = na_selfHost a \<and>
            nw = imgNetFromLease l) \<and>
         bs_log s' = bs_log s @ [EvAcquire kind ownerID, EvTapDel (in_tapName nw), EvTapAdd nw]
     | Inl e \<Rightarrow> (\<exists>dels. (\<forall>d \<in> set dels. \<exists>t. d = EvTapDel t) \<and>
         bs_log s' = bs_log s @ EvAcquire kind ownerID #
           (if dels = [] then [] else dels @ [EvRelease kind ownerID])))"
proof -
  have inv: "pg_inv (bs_db s)" using assms(1) by (simp add: pg_inv_def)
  obtain q db where q: "FleetNetAllocator_acquire a kind ownerID fresh (bs_db s) = (q, db)" by (metis surj_pair)
  have db: "pg_inv db" by (rule pg.acquire_inv [OF inv assms(3) q])
  show ?thesis
  proof (cases q)
    case (Inl e)
    with assms q db show ?thesis
      by (auto simp: setupNet_def emit_def pg_inv_def intro: exI [of _ "[]"])
  next
    case (Inr l)
    let ?nw = "imgNetFromLease l"
    have g: "l \<in> set (rows db)" "granted a kind ownerID l"
      using pg.acquire_granted [OF assms(3)] q Inr by auto
    show ?thesis
    proof (cases "ib_nat b \<and> ib_tapAdd b ?nw")
      case True
      with assms q Inr g db show ?thesis
        by (auto simp: setupNet_def createTap_def emit_def Let_def granted_def pg_inv_def)
    next
      case False
      obtain rr db2 where rel: "FleetNetAllocator_Release a kind ownerID db = (rr, db2)" by (metis surj_pair)
      have db2: "fenced (rows db2)" using pg.release_inv [OF db assms(3) rel] by (simp add: pg_inv_def)
      let ?d = "EvTapDel (in_tapName ?nw)"
      let ?dels = "if ib_nat b then [?d, ?d] else [?d]"
      have res: "r = Inl ErrOther" "bs_db s' = db2"
        and lg: "bs_log s' = bs_log s @ EvAcquire kind ownerID # ?dels @ [EvRelease kind ownerID]"
        using False assms q Inr rel
        by (auto simp: setupNet_def createTap_def emit_def Let_def releaseLease_def split: if_splits)
      show ?thesis
        using res lg db2 by (auto intro!: exI [of _ ?dels])
    qed
  qed
qed

theorem setupNet_lease_first_witness:
  "\<exists>nw s'. setupNet obeys_term NetLeaseOwnerReplica 7 [(1, 0)] fresh_host = (Inr nw, s') \<and>
    (\<exists>l \<in> set (rows (bs_db s')). owned_by NetLeaseOwnerReplica 7 l \<and> nw = imgNetFromLease l) \<and>
    bs_log s' = [EvAcquire NetLeaseOwnerReplica 7, EvTapDel (in_tapName nw), EvTapAdd nw]"
proof -
  obtain l where l: "FleetNetAllocator_acquire demo_alloc NetLeaseOwnerReplica 7 [(1, 0)] demo_db = (Inr l, demo_db\<lparr>rows := [l]\<rparr>)"
    by (rule demo_acquire)
  obtain r s' where r: "setupNet obeys_term NetLeaseOwnerReplica 7 [(1, 0)] fresh_host = (r, s')" by (metis surj_pair)
  with l have "r = Inr (imgNetFromLease l)"
    by (simp add: setupNet_def obeys_term_def demo_booter_def fresh_host_def createTap_def Let_def)
  moreover have "fenced (rows (bs_db fresh_host))" "ib_alloc obeys_term = Some demo_alloc"
    "na_leases demo_alloc = Some pg_repo" "bs_log fresh_host = []"
    by (simp_all add: fresh_host_def obeys_term_def demo_booter_def demo_alloc_def demo_db_def)
  ultimately show ?thesis using setupNet_lease_first [OF _ _ _ r] r by auto
qed

section \<open>Exit codes\<close>

lemma parse_exit_digits:
  "list_all is_digit ds \<Longrightarrow> parse_exit_loop ds True neg (wrap64 (int v)) =
     (neg, wrap64 (int (foldl (\<lambda>v c. v * 10 + digit_val c) v ds)))"
proof (induction ds arbitrary: v)
  case (Cons d ds)
  have nd: "d \<noteq> CHR ''-''" "is_digit d" using Cons.prems by (auto simp: is_digit_def)
  have "go_add (go_mul (wrap64 (int v)) 10) (int (digit_val d)) = wrap64 (int (v * 10 + digit_val d))"
    unfolding go_add_def go_mul_def wrap64_congr
    by (metis (no_types, opaque_lifting) mod_add_left_eq mod_mult_left_eq of_nat_add of_nat_mult of_nat_numeral wrap64_mod)
  with nd Cons.prems Cons.IH [of "v * 10 + digit_val d"] show ?case by simp
qed simp

text \<open>Reading an exit code back: the decimal rendering of any 64-bit integer,
  with anything that starts with neither a digit nor a sign after it (the newline \<open>echo\<close> adds)
  and any text without digits or signs before it, parses to that integer, the most negative
  one included, although the loop accumulates the magnitude with wrap-around.\<close>

theorem parseExitCode_roundtrip:
  assumes "in_int64 i" "\<forall>c \<in> set junk. \<not> is_digit c \<and> c \<noteq> CHR ''-''"
    and "tail = [] \<or> \<not> is_digit (hd tail)"
  shows "parseExitCode (junk @ show_int i @ tail) = i"
proof -
  have pre: "parse_exit_loop (junk @ s) False False 0 = parse_exit_loop s False False 0" for s
    using assms(2) by (induction junk) auto
  have post: "parse_exit_loop tail True neg v = (neg, v)" for neg v
    using assms(3) by (cases tail) auto
  have app: "parse_exit_loop (ds @ tail) True neg v = parse_exit_loop ds True neg v" if "list_all is_digit ds" for ds neg v
    using that by (induction ds arbitrary: v) (auto simp: post is_digit_def)
  have body: "parse_exit_loop (dec n @ tail) True neg 0 = (neg, wrap64 (int n))" for n neg
    using parse_exit_digits [OF dec_all_digits, of n neg 0] app [OF dec_all_digits, of n neg 0]
    by (simp add: dec_val_def [symmetric] wrap64_def)
  have start: "parse_exit_loop (dec n @ tail) False False 0 = parse_exit_loop (dec n @ tail) True False 0" for n
    using dec_all_digits [of n] by (cases "dec n") (auto simp: is_digit_def)
  show ?thesis
  proof (cases "i < 0")
    case True
    have "go_sub 0 (wrap64 (- i)) = i"
    proof -
      have "wrap64 (0 - wrap64 (- i)) = wrap64 i"
        unfolding wrap64_congr by (metis (no_types) diff_0 minus_minus mod_diff_right_eq wrap64_mod)
      with assms(1) show ?thesis by (simp add: go_sub_def)
    qed
    with True show ?thesis by (simp add: parseExitCode_def pre show_int_def body)
  next
    case False
    with assms(1) show ?thesis by (simp add: parseExitCode_def pre show_int_def start body)
  qed
qed

theorem parseExitCode_roundtrip_witness: "parseExitCode (''code: '' @ show_int (-137) @ [CHR 0x0A]) = -137"
  by (rule parseExitCode_roundtrip) (auto simp: in_int64_def min_int64_def max_int64_def is_digit_def)

end
