(* ===== verification/Net_Reconcile.thy ===== *)
theory Net_Reconcile
  imports Image_Teardown Host_Registry
begin

text \<open>
  The addressing plane after a restart: \<open>internal/usecase/fleet_net_lease_reconcile.go\<close>, the
  booter seams of \<open>internal/usecase/fleet_provision.go\<close> that gate every boot on its verdict, and
  the owner-row reads it relies on.

  The lease store is the one of the allocator, the booter and the artifact reclaimer act on the
  host log of the teardown.  The host, replica and workload stores are only read, and no pass
  issues one query twice (owners are unique among leases), so their answers are functions of the
  query.  The clock is read once per lease and the liveness probe answers per pid.  Log lines and
  the texts of the wrapped errors are left out.
\<close>

section \<open>Owner rows\<close>

record ReplicaReader =
  rr_FindByID :: "uuid \<Rightarrow> Replica fleet_result"
  rr_ListByState :: "ReplicaState \<Rightarrow> Replica list fleet_result"

record ImageWorkloadReader =
  wr_FindByID :: "uuid \<Rightarrow> ImageWorkload workload_result"
  wr_FindActive :: "ImageWorkload list workload_result"

text \<open>The Postgres queries over the rows of the tables; a failed round trip is \<open>None\<close>.\<close>

definition replicaRepository_FindByID :: "Replica list option \<Rightarrow> uuid \<Rightarrow> Replica fleet_result" where
  "replicaRepository_FindByID tab i =
     (case tab of None \<Rightarrow> Inl ErrOther
      | Some rs \<Rightarrow> (case find (\<lambda>r. re_ID r = i) rs of None \<Rightarrow> Inl ErrReplicaNotFound | Some r \<Rightarrow> Inr r))"

definition replicaRepository_ListByApp :: "Replica list option \<Rightarrow> uuid \<Rightarrow> Replica list fleet_result" where
  "replicaRepository_ListByApp tab appID =
     (case tab of None \<Rightarrow> Inl ErrOther
      | Some rs \<Rightarrow> Inr (sort_key re_CreatedAt (filter (\<lambda>r. re_AppID r = appID) rs)))"

definition replicaRepository_ListByHost :: "Replica list option \<Rightarrow> uuid \<Rightarrow> Replica list fleet_result" where
  "replicaRepository_ListByHost tab hostID =
     (case tab of None \<Rightarrow> Inl ErrOther
      | Some rs \<Rightarrow> Inr (sort_key re_CreatedAt (filter (\<lambda>r. re_HostID r = Some hostID) rs)))"

definition replicaRepository_ListByState :: "Replica list option \<Rightarrow> ReplicaState \<Rightarrow> Replica list fleet_result" where
  "replicaRepository_ListByState tab st =
     (case tab of None \<Rightarrow> Inl ErrOther
      | Some rs \<Rightarrow> Inr (sort_key re_CreatedAt (filter (\<lambda>r. re_State r = st) rs)))"

definition imageWorkloadRepository_FindByID :: "ImageWorkload list option \<Rightarrow> uuid \<Rightarrow> ImageWorkload workload_result" where
  "imageWorkloadRepository_FindByID tab i =
     (case tab of None \<Rightarrow> Inl ErrWorkloadOther
      | Some rs \<Rightarrow> (case find (\<lambda>w. iw_ID w = i) rs of None \<Rightarrow> Inl ErrWorkloadNotFound | Some w \<Rightarrow> Inr w))"

definition imageWorkloadRepository_FindActive :: "ImageWorkload list option \<Rightarrow> ImageWorkload list workload_result" where
  "imageWorkloadRepository_FindActive tab =
     (case tab of None \<Rightarrow> Inl ErrWorkloadOther
      | Some rs \<Rightarrow> Inr (sort_key iw_CreatedAt
          (filter (\<lambda>w. iw_State w \<in> {ImageWorkloadStateBooting, ImageWorkloadStateRunning}) rs)))"

definition pg_replicas :: "Replica list option \<Rightarrow> ReplicaReader" where
  "pg_replicas tab = \<lparr>rr_FindByID = replicaRepository_FindByID tab, rr_ListByState = replicaRepository_ListByState tab\<rparr>"

definition pg_workloads :: "ImageWorkload list option \<Rightarrow> ImageWorkloadReader" where
  "pg_workloads tab = \<lparr>wr_FindByID = imageWorkloadRepository_FindByID tab, wr_FindActive = imageWorkloadRepository_FindActive tab\<rparr>"

definition pid_of :: "int option \<Rightarrow> int" where
  "pid_of p = (case p of None \<Rightarrow> 0 | Some i \<Rightarrow> i)"

definition decommissionInput :: "ImageWorkload \<Rightarrow> ImageDecommissionInput" where
  "decommissionInput wl = \<lparr>di_OwnerKind = NetLeaseOwnerWorkload, di_OwnerID = iw_ID wl, di_PID = pid_of (iw_PID wl),
     di_SocketPath = iw_SocketPath wl, di_TapName = iw_TapName wl, di_NetIndex = iw_NetIndex wl,
     di_GuestIP = iw_GuestIP wl, di_HostPort = iw_HostPort wl, di_Port = iw_Port wl, di_RootfsPath = iw_RootfsPath wl\<rparr>"

definition replicaDecommissionInput :: "Replica \<Rightarrow> ImageDecommissionInput" where
  "replicaDecommissionInput r = \<lparr>di_OwnerKind = NetLeaseOwnerReplica, di_OwnerID = re_ID r, di_PID = pid_of (re_PID r),
     di_SocketPath = re_SocketPath r, di_TapName = re_TapName r, di_NetIndex = re_NetIndex r,
     di_GuestIP = re_GuestIP r, di_HostPort = re_HostPort r, di_Port = re_Port r, di_RootfsPath = re_RootfsPath r\<rparr>"

text \<open>\<open>processAlive\<close>: every failing probe counts as a dead process.\<close>

definition processAlive :: "(int \<Rightarrow> bool) \<Rightarrow> (int \<Rightarrow> signal_reply) \<Rightarrow> int \<Rightarrow> bool" where
  "processAlive findProcess probe pid \<longleftrightarrow> findProcess pid \<and> probe pid = SigDelivered"

section \<open>The reconciler\<close>

definition leaseAdoptGrace :: int where "leaseAdoptGrace = 10 * 60 * 1000000000"

record NetLeaseReconcileReport =
  rp_HostOrdinal :: int
  rp_Leases :: int
  rp_Adopted :: int
  rp_TornDown :: int
  rp_Reclaimed :: int
  rp_Left :: int

definition empty_report :: NetLeaseReconcileReport where
  "empty_report = \<lparr>rp_HostOrdinal = 0, rp_Leases = 0, rp_Adopted = 0, rp_TornDown = 0, rp_Reclaimed = 0, rp_Left = 0\<rparr>"

record 'db FleetNetLeaseReconciler =
  rc_leases :: "'db NetLeaseRepository option"
  rc_hosts :: "(uuid \<Rightarrow> Host fleet_result) option"
  rc_replicas :: "ReplicaReader option"
  rc_workloads :: "ImageWorkloadReader option"
  rc_booter :: "(ImageDecommissionInput \<Rightarrow> 'db booter_state \<Rightarrow> unit boot_result \<times> 'db booter_state) option"
  rc_reclaimer :: "(NetLease \<Rightarrow> 'db booter_state \<Rightarrow> bool \<times> 'db booter_state) option"
  rc_selfHost :: uuid
  rc_uidBase :: int
  rc_processAlive :: "int \<Rightarrow> bool"
  rc_now :: "NetLease \<Rightarrow> instant"
  rc_uuidString :: "uuid \<Rightarrow> string"

fun NetLeaseOwnerKind_string :: "NetLeaseOwnerKind \<Rightarrow> string" where
  "NetLeaseOwnerKind_string NetLeaseOwnerReplica = ''replica''"
| "NetLeaseOwnerKind_string NetLeaseOwnerWorkload = ''workload''"
| "NetLeaseOwnerKind_string (NetLeaseOwnerUnknown s) = s"

definition ownerKey :: "(uuid \<Rightarrow> string) \<Rightarrow> NetLeaseOwnerKind \<Rightarrow> uuid \<Rightarrow> string" where
  "ownerKey uuidString kind i = NetLeaseOwnerKind_string kind @ '':'' @ uuidString i"

text \<open>The stores once \<open>checkScope\<close> has found them all: the passes run on these.\<close>

record 'db scope =
  sc_leases :: "'db NetLeaseRepository"
  sc_hosts :: "uuid \<Rightarrow> Host fleet_result"
  sc_replicas :: ReplicaReader
  sc_workloads :: ImageWorkloadReader

definition checkScope :: "'db FleetNetLeaseReconciler \<Rightarrow> 'db scope fleet_result" where
  "checkScope uc =
     (case (rc_leases uc, rc_hosts uc, rc_replicas uc, rc_workloads uc) of
        (Some l, Some h, Some r, Some w) \<Rightarrow>
          if rc_selfHost uc = uuid_Nil then Inl ErrNetPlaneUnreconciled
          else Inr \<lparr>sc_leases = l, sc_hosts = h, sc_replicas = r, sc_workloads = w\<rparr>
      | _ \<Rightarrow> Inl ErrNetPlaneUnreconciled)"

definition resolveOrdinal :: "'db FleetNetLeaseReconciler \<Rightarrow> 'db scope \<Rightarrow> int fleet_result" where
  "resolveOrdinal uc sc =
     (case sc_hosts sc (rc_selfHost uc) of
        Inl _ \<Rightarrow> Inl ErrNetPlaneUnreconciled
      | Inr host \<Rightarrow> (case ho_NetOrdinal host of
          None \<Rightarrow> Inl ErrHostNetOrdinalUnset
        | Some ord \<Rightarrow> if ord < 0 \<or> ord > NetMaxOrdinal then Inl ErrNetCoordinateOutOfRange else Inr ord))"

text \<open>\<open>True\<close> is a nil error; the only error is \<open>ErrNetPlaneUnreconciled\<close>.\<close>

definition verifyLease :: "int \<Rightarrow> NetLease \<Rightarrow> bool" where
  "verifyLease uidBase lease =
     (case DeriveNetLease (nl_HostOrdinal lease) (nl_LocalSlot lease) uidBase of
        Inl _ \<Rightarrow> False
      | Inr derived \<Rightarrow>
          \<not> (nl_NetIndex derived \<noteq> nl_NetIndex lease \<or> nl_HostIP derived \<noteq> nl_HostIP lease \<or>
             nl_GuestIP derived \<noteq> nl_GuestIP lease \<or> nl_TapName derived \<noteq> nl_TapName lease \<or>
             nl_VMUID derived \<noteq> nl_VMUID lease))"

record leaseOwner =
  lo_state :: string
  lo_terminal :: bool
  lo_pid :: int
  lo_guestIP :: string
  lo_tapName :: string
  lo_handle :: ImageDecommissionInput

definition replica_owner :: "Replica \<Rightarrow> leaseOwner" where
  "replica_owner r = \<lparr>lo_state = ReplicaState_string (re_State r), lo_terminal = (re_State r = ReplicaStateDead),
     lo_pid = pid_of (re_PID r), lo_guestIP = re_GuestIP r, lo_tapName = re_TapName r,
     lo_handle = replicaDecommissionInput r\<rparr>"

definition workload_owner :: "ImageWorkload \<Rightarrow> leaseOwner" where
  "workload_owner w = \<lparr>lo_state = ImageWorkloadState_string (iw_State w),
     lo_terminal = (iw_State w = ImageWorkloadStateExited \<or> iw_State w = ImageWorkloadStateFailed),
     lo_pid = pid_of (iw_PID w), lo_guestIP = iw_GuestIP w, lo_tapName = iw_TapName w,
     lo_handle = decommissionInput w\<rparr>"

text \<open>\<open>Inr None\<close> is the source's \<open>nil, nil\<close>: the owner row is gone.\<close>

definition loadOwner :: "'db scope \<Rightarrow> NetLease \<Rightarrow> leaseOwner option fleet_result" where
  "loadOwner sc lease =
     (case nl_OwnerKind lease of
        NetLeaseOwnerReplica \<Rightarrow> (case rr_FindByID (sc_replicas sc) (nl_OwnerID lease) of
            Inl e \<Rightarrow> if e = ErrReplicaNotFound then Inr None else Inl ErrNetPlaneUnreconciled
          | Inr r \<Rightarrow> Inr (Some (replica_owner r)))
      | NetLeaseOwnerWorkload \<Rightarrow> (case wr_FindByID (sc_workloads sc) (nl_OwnerID lease) of
            Inl e \<Rightarrow> if e = ErrWorkloadNotFound then Inr None else Inl ErrNetPlaneUnreconciled
          | Inr w \<Rightarrow> Inr (Some (workload_owner w)))
      | NetLeaseOwnerUnknown _ \<Rightarrow> Inl ErrNetPlaneUnreconciled)"

definition assertLeaseMatchesLiveOwner :: "NetLease \<Rightarrow> leaseOwner \<Rightarrow> bool" where
  "assertLeaseMatchesLiveOwner lease owner = MatchesAddresses lease (lo_guestIP owner) (lo_tapName owner)"

text \<open>Errors are \<open>Some e\<close>; the report is returned with them, as in the source.\<close>

type_synonym 'db pass = "fleet_error option \<times> NetLeaseReconcileReport \<times> 'db booter_state"

definition reclaim ::
  "'db FleetNetLeaseReconciler \<Rightarrow> 'db scope \<Rightarrow> NetLease \<Rightarrow> NetLeaseReconcileReport \<Rightarrow> 'db booter_state \<Rightarrow> 'db pass" where
  "reclaim uc sc lease report s =
     (let s1 = (case rc_reclaimer uc of None \<Rightarrow> s | Some rec \<Rightarrow> snd (rec lease s)) in
      case lr_Release (sc_leases sc) (nl_OwnerKind lease) (nl_OwnerID lease) (bs_db s1) of
        (Inl _, db) \<Rightarrow> (Some ErrNetPlaneUnreconciled, report, s1\<lparr>bs_db := db\<rparr>)
      | (Inr _, db) \<Rightarrow> (None, report\<lparr>rp_Reclaimed := rp_Reclaimed report + 1\<rparr>, s1\<lparr>bs_db := db\<rparr>))"

definition tearDownAndReclaim ::
  "'db FleetNetLeaseReconciler \<Rightarrow> 'db scope \<Rightarrow> NetLease \<Rightarrow> leaseOwner \<Rightarrow> NetLeaseReconcileReport \<Rightarrow>
   'db booter_state \<Rightarrow> 'db pass" where
  "tearDownAndReclaim uc sc lease owner report s =
     (let s1 = (case rc_booter uc of None \<Rightarrow> s | Some decommission \<Rightarrow> snd (decommission (lo_handle owner) s))
      in reclaim uc sc lease (report\<lparr>rp_TornDown := rp_TornDown report + 1\<rparr>) s1)"

definition reconcileLease ::
  "'db FleetNetLeaseReconciler \<Rightarrow> 'db scope \<Rightarrow> NetLease \<Rightarrow> NetLeaseReconcileReport \<Rightarrow> 'db booter_state \<Rightarrow> 'db pass" where
  "reconcileLease uc sc lease report s =
     (case loadOwner sc lease of
        Inl e \<Rightarrow> (Some e, report, s)
      | Inr None \<Rightarrow> reclaim uc sc lease report s
      | Inr (Some owner) \<Rightarrow>
          if lo_terminal owner then tearDownAndReclaim uc sc lease owner report s
          else if lo_pid owner > 0 \<and> \<not> rc_processAlive uc (lo_pid owner)
          then tearDownAndReclaim uc sc lease owner report s
          else if lo_pid owner > 0 then
            (if \<not> assertLeaseMatchesLiveOwner lease owner then (Some ErrNetPlaneUnreconciled, report, s)
             else (None, report\<lparr>rp_Adopted := rp_Adopted report + 1\<rparr>, s))
          else if rc_now uc lease - nl_CreatedAt lease < leaseAdoptGrace
          then (None, report\<lparr>rp_Left := rp_Left report + 1\<rparr>, s)
          else reclaim uc sc lease report s)"

definition occupying :: "ReplicaState list" where
  "occupying = [ReplicaStateBooting, ReplicaStateResident, ReplicaStatePaused, ReplicaStateDraining, ReplicaStateDead]"

text \<open>Whether the row is appended to the offenders; \<open>leased\<close> is the key set of the pass.\<close>

definition replica_offends :: "'db FleetNetLeaseReconciler \<Rightarrow> int \<Rightarrow> string list \<Rightarrow> Replica \<Rightarrow> bool" where
  "replica_offends uc ordinal leased r =
     (if re_HostID r = None \<or> re_HostID r \<noteq> Some (rc_selfHost uc) \<or> re_NetIndex r \<le> 0 then False
      else if ownerKey (rc_uuidString uc) NetLeaseOwnerReplica (re_ID r) \<in> set leased then False
      else let slot = re_NetIndex r - ordinal * NetSlotStride in
        if slot < 1 \<or> slot > NetMaxSlot then
          (case re_PID r of None \<Rightarrow> False | Some pid \<Rightarrow> rc_processAlive uc pid)
        else True)"

definition workload_offends :: "'db FleetNetLeaseReconciler \<Rightarrow> string list \<Rightarrow> ImageWorkload \<Rightarrow> bool" where
  "workload_offends uc leased w \<longleftrightarrow>
     \<not> (iw_NetIndex w \<le> 0 \<or> ownerKey (rc_uuidString uc) NetLeaseOwnerWorkload (iw_ID w) \<in> set leased)"

fun replica_offenders ::
  "'db FleetNetLeaseReconciler \<Rightarrow> 'db scope \<Rightarrow> int \<Rightarrow> string list \<Rightarrow> ReplicaState list \<Rightarrow> Replica list \<Rightarrow>
   Replica list fleet_result" where
  "replica_offenders uc sc ordinal leased [] acc = Inr acc"
| "replica_offenders uc sc ordinal leased (st # sts) acc =
     (case rr_ListByState (sc_replicas sc) st of
        Inl _ \<Rightarrow> Inl ErrNetPlaneUnreconciled
      | Inr rs \<Rightarrow> replica_offenders uc sc ordinal leased sts (acc @ filter (replica_offends uc ordinal leased) rs))"

definition assertNoLeaselessOwner ::
  "'db FleetNetLeaseReconciler \<Rightarrow> 'db scope \<Rightarrow> int \<Rightarrow> string list \<Rightarrow> fleet_error option" where
  "assertNoLeaselessOwner uc sc ordinal leased =
     (case replica_offenders uc sc ordinal leased occupying [] of
        Inl e \<Rightarrow> Some e
      | Inr rs \<Rightarrow>
        if ordinal = 0 then
          (case wr_FindActive (sc_workloads sc) of
             Inl _ \<Rightarrow> Some ErrNetPlaneUnreconciled
           | Inr active \<Rightarrow>
               if length rs + length (filter (workload_offends uc leased) active) > 0
               then Some ErrNetPlaneUnreconciled else None)
        else if length rs > 0 then Some ErrNetPlaneUnreconciled else None)"

text \<open>The loop over the held leases; the keys collected so far are threaded along.\<close>

fun reconcile_loop ::
  "'db FleetNetLeaseReconciler \<Rightarrow> 'db scope \<Rightarrow> NetLease list \<Rightarrow> NetLeaseReconcileReport \<Rightarrow> 'db booter_state \<Rightarrow> 'db pass" where
  "reconcile_loop uc sc [] report s = (None, report, s)"
| "reconcile_loop uc sc (lease # held) report s =
     (if \<not> verifyLease (rc_uidBase uc) lease then (Some ErrNetPlaneUnreconciled, report, s)
      else (case reconcileLease uc sc lease report s of
          (Some e, report1, s1) \<Rightarrow> (Some e, report1, s1)
        | (None, report1, s1) \<Rightarrow> reconcile_loop uc sc held report1 s1))"

definition leased_owners :: "(uuid \<Rightarrow> string) \<Rightarrow> NetLease list \<Rightarrow> string list" where
  "leased_owners uuidString held = map (\<lambda>l. ownerKey uuidString (nl_OwnerKind l) (nl_OwnerID l)) held"

definition Reconcile :: "'db FleetNetLeaseReconciler \<Rightarrow> 'db booter_state \<Rightarrow> 'db pass" where
  "Reconcile uc s =
     (case checkScope uc of
        Inl e \<Rightarrow> (Some e, empty_report, s)
      | Inr sc \<Rightarrow> (case resolveOrdinal uc sc of
          Inl e \<Rightarrow> (Some e, empty_report, s)
        | Inr ordinal \<Rightarrow>
          let report = empty_report\<lparr>rp_HostOrdinal := ordinal\<rparr> in
          (case lr_ListByHost (sc_leases sc) (rc_selfHost uc) (bs_db s) of
             (Inl _, db) \<Rightarrow> (Some ErrNetPlaneUnreconciled, report, s\<lparr>bs_db := db\<rparr>)
           | (Inr held, db) \<Rightarrow>
             (case reconcile_loop uc sc held (report\<lparr>rp_Leases := int (length held)\<rparr>) (s\<lparr>bs_db := db\<rparr>) of
                (Some e, report1, s1) \<Rightarrow> (Some e, report1, s1)
              | (None, report1, s1) \<Rightarrow>
                  (assertNoLeaselessOwner uc sc ordinal (leased_owners (rc_uuidString uc) held), report1, s1)))))"

fun verify_loop :: "'db FleetNetLeaseReconciler \<Rightarrow> 'db scope \<Rightarrow> NetLease list \<Rightarrow> fleet_error option" where
  "verify_loop uc sc [] = None"
| "verify_loop uc sc (lease # held) =
     (if \<not> verifyLease (rc_uidBase uc) lease then Some ErrNetPlaneUnreconciled
      else (case loadOwner sc lease of
          Inl e \<Rightarrow> Some e
        | Inr None \<Rightarrow> verify_loop uc sc held
        | Inr (Some owner) \<Rightarrow>
            if lo_pid owner \<le> 0 \<or> \<not> rc_processAlive uc (lo_pid owner) then verify_loop uc sc held
            else if \<not> assertLeaseMatchesLiveOwner lease owner then Some ErrNetPlaneUnreconciled
            else verify_loop uc sc held))"

text \<open>\<open>Verify\<close> has no effect but the read of the lease store.\<close>

definition Verify :: "'db FleetNetLeaseReconciler \<Rightarrow> 'db \<Rightarrow> fleet_error option \<times> 'db" where
  "Verify uc db =
     (case checkScope uc of
        Inl e \<Rightarrow> (Some e, db)
      | Inr sc \<Rightarrow> (case resolveOrdinal uc sc of
          Inl e \<Rightarrow> (Some e, db)
        | Inr ordinal \<Rightarrow> (case lr_ListByHost (sc_leases sc) (rc_selfHost uc) db of
             (Inl _, db1) \<Rightarrow> (Some ErrNetPlaneUnreconciled, db1)
           | (Inr held, db1) \<Rightarrow> (case verify_loop uc sc held of
                Some e \<Rightarrow> (Some e, db1)
              | None \<Rightarrow> (assertNoLeaselessOwner uc sc ordinal (leased_owners (rc_uuidString uc) held), db1)))))"

section \<open>The booter seams\<close>

text \<open>The interface \<open>ImageBooter\<close> of the use cases; boot inputs and results are left open.\<close>

record ('i, 't, 'r, 's) ImageBooterPort =
  bp_BootTest :: "'i \<Rightarrow> 's \<Rightarrow> 't boot_result \<times> 's"
  bp_BootResident :: "'i \<Rightarrow> 's \<Rightarrow> 'r boot_result \<times> 's"
  bp_Decommission :: "ImageDecommissionInput \<Rightarrow> 's \<Rightarrow> unit boot_result \<times> 's"

record ('i, 't, 'r, 's) FailLoudImageBooter =
  fl_Reason :: "boot_error option"
  fl_Teardown :: "('i, 't, 'r, 's) ImageBooterPort option"

definition fail_loud_reason :: "('i, 't, 'r, 's) FailLoudImageBooter \<Rightarrow> boot_error" where
  "fail_loud_reason b = (case fl_Reason b of Some e \<Rightarrow> e | None \<Rightarrow> BootWorkload ErrImageBootUnavailable)"

definition FailLoudImageBooter_port ::
  "('i, 't, 'r, 's) FailLoudImageBooter \<Rightarrow> ('i, 't, 'r, 's) ImageBooterPort" where
  "FailLoudImageBooter_port b = \<lparr>
     bp_BootTest = (\<lambda>i s. (Inl (fail_loud_reason b), s)),
     bp_BootResident = (\<lambda>i s. (Inl (fail_loud_reason b), s)),
     bp_Decommission = (\<lambda>inp s. case fl_Teardown b of
        Some t \<Rightarrow> bp_Decommission t inp s
      | None \<Rightarrow> (Inl (fail_loud_reason b), s))\<rparr>"

record ('i, 't, 'r, 's) NetPlaneGuardedImageBooter =
  gb_Real :: "('i, 't, 'r, 's) ImageBooterPort option"
  gb_Verify :: "('s \<Rightarrow> fleet_error option \<times> 's) option"

definition admit :: "('i, 't, 'r, 's) NetPlaneGuardedImageBooter \<Rightarrow> 's \<Rightarrow> fleet_error option \<times> 's" where
  "admit b s =
     (case (gb_Verify b, gb_Real b) of
        (Some verify, Some _) \<Rightarrow> verify s
      | _ \<Rightarrow> (Some ErrNetPlaneUnreconciled, s))"

text \<open>Both guarded boots: an admitted one is delegated (the guard admits only with a real booter).\<close>

definition guarded_boot ::
  "('i, 't, 'r, 's) NetPlaneGuardedImageBooter \<Rightarrow>
   (('i, 't, 'r, 's) ImageBooterPort \<Rightarrow> 'i \<Rightarrow> 's \<Rightarrow> 'x boot_result \<times> 's) \<Rightarrow> 'i \<Rightarrow> 's \<Rightarrow> 'x boot_result \<times> 's" where
  "guarded_boot b boot i s =
     (case admit b s of
        (Some e, s1) \<Rightarrow> (Inl (BootFleet e), s1)
      | (None, s1) \<Rightarrow> boot (the (gb_Real b)) i s1)"

definition NetPlaneGuardedImageBooter_port ::
  "('i, 't, 'r, 's) NetPlaneGuardedImageBooter \<Rightarrow> ('i, 't, 'r, 's) ImageBooterPort" where
  "NetPlaneGuardedImageBooter_port b = \<lparr>
     bp_BootTest = guarded_boot b bp_BootTest,
     bp_BootResident = guarded_boot b bp_BootResident,
     bp_Decommission = (\<lambda>inp s. case gb_Real b of
        None \<Rightarrow> (Inl (BootWorkload ErrImageBootUnavailable), s)
      | Some real \<Rightarrow> bp_Decommission real inp s)\<rparr>"

section \<open>What a verdict means\<close>

definition self_consistent :: "int \<Rightarrow> NetLease \<Rightarrow> bool" where
  "self_consistent uidBase l \<longleftrightarrow> 0 < uidBase \<and> in_plane (nl_HostOrdinal l) (nl_LocalSlot l) \<and>
     lease_coords (nl_HostOrdinal l) (nl_LocalSlot l) uidBase l"

lemma verifyLease_iff: "verifyLease uidBase l \<longleftrightarrow> self_consistent uidBase l"
proof (cases "in_plane (nl_HostOrdinal l) (nl_LocalSlot l) \<and> 0 < uidBase")
  case True
  then obtain d where "DeriveNetLease (nl_HostOrdinal l) (nl_LocalSlot l) uidBase = Inr d"
    "lease_coords (nl_HostOrdinal l) (nl_LocalSlot l) uidBase d"
    by (metis DeriveNetLease_ok)
  with True show ?thesis
    by (auto simp: verifyLease_def self_consistent_def lease_coords_def)
next
  case False
  then show ?thesis
    by (auto simp: verifyLease_def self_consistent_def DeriveNetLease_err)
qed

text \<open>The owner row is readable and agrees with the lease while its VM runs.\<close>

definition owner_settled :: "'db FleetNetLeaseReconciler \<Rightarrow> 'db scope \<Rightarrow> NetLease \<Rightarrow> bool" where
  "owner_settled uc sc l =
     (case loadOwner sc l of
        Inl _ \<Rightarrow> False
      | Inr None \<Rightarrow> True
      | Inr (Some w) \<Rightarrow> lo_pid w > 0 \<and> rc_processAlive uc (lo_pid w) \<longrightarrow>
          nl_GuestIP l = lo_guestIP w \<and> nl_TapName l = lo_tapName w)"

definition replica_fenced :: "'db FleetNetLeaseReconciler \<Rightarrow> int \<Rightarrow> NetLease list \<Rightarrow> Replica \<Rightarrow> bool" where
  "replica_fenced uc ordinal held r \<longleftrightarrow>
     (re_HostID r = Some (rc_selfHost uc) \<and> re_NetIndex r > 0 \<longrightarrow>
       (\<exists>l \<in> set held. owned_by NetLeaseOwnerReplica (re_ID r) l) \<or>
       (\<not> (ordinal * NetSlotStride < re_NetIndex r \<and> re_NetIndex r \<le> ordinal * NetSlotStride + NetMaxSlot) \<and>
        (\<forall>pid. re_PID r = Some pid \<longrightarrow> \<not> rc_processAlive uc pid)))"

text \<open>The plane is proven: every held lease names the coordinates it fences and agrees with its
  running VM, and every occupying row of this host is fenced by a lease.\<close>

definition plane_proven :: "'db FleetNetLeaseReconciler \<Rightarrow> 'db scope \<Rightarrow> int \<Rightarrow> NetLease list \<Rightarrow> bool" where
  "plane_proven uc sc ordinal held \<longleftrightarrow>
     (\<forall>l \<in> set held. self_consistent (rc_uidBase uc) l \<and> owner_settled uc sc l) \<and>
     (\<forall>st \<in> set occupying. \<exists>rs. rr_ListByState (sc_replicas sc) st = Inr rs \<and>
        (\<forall>r \<in> set rs. replica_fenced uc ordinal held r)) \<and>
     (ordinal = 0 \<longrightarrow> (\<exists>ws. wr_FindActive (sc_workloads sc) = Inr ws \<and>
        (\<forall>w \<in> set ws. iw_NetIndex w > 0 \<longrightarrow> (\<exists>l \<in> set held. owned_by NetLeaseOwnerWorkload (iw_ID w) l))))"

lemma verify_loop_iff:
  "verify_loop uc sc held = None \<longleftrightarrow>
     (\<forall>l \<in> set held. self_consistent (rc_uidBase uc) l \<and> owner_settled uc sc l)"
  by (induction held)
    (auto simp: verifyLease_iff owner_settled_def assertLeaseMatchesLiveOwner_def MatchesAddresses_def
      split: sum.splits option.splits)

lemma owner_settled_kind: "owner_settled uc sc l \<Longrightarrow> NetLeaseOwnerKind_IsValid (nl_OwnerKind l)"
  by (cases "nl_OwnerKind l") (auto simp: owner_settled_def loadOwner_def)

lemma ownerKey_eq:
  assumes "inj u" "NetLeaseOwnerKind_IsValid k" "NetLeaseOwnerKind_IsValid k'"
  shows "ownerKey u k i = ownerKey u k' j \<longleftrightarrow> k = k' \<and> i = j"
  using assms by (cases k; cases k') (auto simp: ownerKey_def inj_eq)

lemma leased_owners_iff:
  assumes "inj u" "\<forall>l \<in> set held. NetLeaseOwnerKind_IsValid (nl_OwnerKind l)" "NetLeaseOwnerKind_IsValid k"
  shows "ownerKey u k i \<in> set (leased_owners u held) \<longleftrightarrow> (\<exists>l \<in> set held. owned_by k i l)"
  using assms by (auto simp: leased_owners_def owned_by_def image_iff ownerKey_eq)

lemma replica_offenders_none:
  "replica_offenders uc sc ordinal leased sts acc = Inr [] \<longleftrightarrow>
     acc = [] \<and> (\<forall>st \<in> set sts. \<exists>rs. rr_ListByState (sc_replicas sc) st = Inr rs \<and>
        (\<forall>r \<in> set rs. \<not> replica_offends uc ordinal leased r))"
  by (induction sts arbitrary: acc) (auto simp: filter_empty_conv split: sum.splits)

lemma replica_offends_iff:
  assumes "inj (rc_uuidString uc)" "\<forall>l \<in> set held. NetLeaseOwnerKind_IsValid (nl_OwnerKind l)"
  shows "\<not> replica_offends uc ordinal (leased_owners (rc_uuidString uc) held) r \<longleftrightarrow> replica_fenced uc ordinal held r"
  using leased_owners_iff [OF assms, of NetLeaseOwnerReplica "re_ID r"]
  by (auto simp: replica_offends_def replica_fenced_def Let_def split: option.splits)

lemma assertNoLeaselessOwner_iff:
  assumes "inj (rc_uuidString uc)" "\<forall>l \<in> set held. NetLeaseOwnerKind_IsValid (nl_OwnerKind l)"
  shows "assertNoLeaselessOwner uc sc ordinal (leased_owners (rc_uuidString uc) held) = None \<longleftrightarrow>
     (\<forall>st \<in> set occupying. \<exists>rs. rr_ListByState (sc_replicas sc) st = Inr rs \<and>
        (\<forall>r \<in> set rs. replica_fenced uc ordinal held r)) \<and>
     (ordinal = 0 \<longrightarrow> (\<exists>ws. wr_FindActive (sc_workloads sc) = Inr ws \<and>
        (\<forall>w \<in> set ws. iw_NetIndex w > 0 \<longrightarrow> (\<exists>l \<in> set held. owned_by NetLeaseOwnerWorkload (iw_ID w) l))))"
    (is "?L = None \<longleftrightarrow> ?R \<and> (ordinal = 0 \<longrightarrow> ?W)")
proof -
  let ?leased = "leased_owners (rc_uuidString uc) held"
  have r: "replica_offenders uc sc ordinal ?leased occupying [] = Inr [] \<longleftrightarrow> ?R"
    by (simp add: replica_offenders_none replica_offends_iff [OF assms])
  have w: "filter (workload_offends uc ?leased) ws = [] \<longleftrightarrow>
      (\<forall>w \<in> set ws. iw_NetIndex w > 0 \<longrightarrow> (\<exists>l \<in> set held. owned_by NetLeaseOwnerWorkload (iw_ID w) l))" for ws
    using leased_owners_iff [OF assms, of NetLeaseOwnerWorkload]
    by (force simp: filter_empty_conv workload_offends_def)
  have "?L = None \<longleftrightarrow> replica_offenders uc sc ordinal ?leased occupying [] = Inr [] \<and>
      (ordinal = 0 \<longrightarrow> (\<exists>ws. wr_FindActive (sc_workloads sc) = Inr ws \<and> filter (workload_offends uc ?leased) ws = []))"
    by (auto simp: assertNoLeaselessOwner_def split: sum.splits)
  then show ?thesis by (simp add: r w)
qed

lemma resolveOrdinal_iff:
  "resolveOrdinal uc sc = Inr ord \<longleftrightarrow>
     (\<exists>h. sc_hosts sc (rc_selfHost uc) = Inr h \<and> ho_NetOrdinal h = Some ord \<and> 0 \<le> ord \<and> ord \<le> NetMaxOrdinal)"
  by (auto simp: resolveOrdinal_def split: sum.splits option.splits)

lemma pg_ListByHost_quiet:
  "script db = [] \<Longrightarrow> lr_ListByHost pg_repo h db =
     (Inr (sort_key nl_LocalSlot (filter (\<lambda>r. nl_HostID r = h) (rows db))), db)"
  by (simp add: pg_repo_def repo_defs)

lemma Verify_iff:
  assumes "checkScope uc = Inr sc" "sc_leases sc = pg_repo" "script db = []" "inj (rc_uuidString uc)"
  shows "fst (Verify uc db) = None \<longleftrightarrow>
    (\<exists>ord. resolveOrdinal uc sc = Inr ord \<and>
       plane_proven uc sc ord (filter (\<lambda>l. nl_HostID l = rc_selfHost uc) (rows db)))"
proof -
  let ?h = "filter (\<lambda>l. nl_HostID l = rc_selfHost uc) (rows db)"
  let ?held = "sort_key nl_LocalSlot ?h"
  have pp: "plane_proven uc sc ord ?held = plane_proven uc sc ord ?h" for ord
    by (simp add: plane_proven_def replica_fenced_def)
  have step: "(case verify_loop uc sc ?held of Some e \<Rightarrow> Some e
      | None \<Rightarrow> assertNoLeaselessOwner uc sc ord (leased_owners (rc_uuidString uc) ?held)) = None \<longleftrightarrow>
      plane_proven uc sc ord ?held" for ord
  proof (cases "verify_loop uc sc ?held")
    case None
    then have all: "\<forall>l \<in> set ?held. self_consistent (rc_uidBase uc) l \<and> owner_settled uc sc l"
      by (simp only: verify_loop_iff)
    then have "\<forall>l \<in> set ?held. NetLeaseOwnerKind_IsValid (nl_OwnerKind l)"
      using owner_settled_kind by blast
    from assertNoLeaselessOwner_iff [OF assms(4) this] None all show ?thesis
      by (simp add: plane_proven_def)
  next
    case (Some e)
    then have "\<not> (\<forall>l \<in> set ?held. self_consistent (rc_uidBase uc) l \<and> owner_settled uc sc l)"
      by (metis option.distinct(1) verify_loop_iff)
    with Some show ?thesis by (auto simp: plane_proven_def)
  qed
  have fst_Verify: "fst (Verify uc db) = (case resolveOrdinal uc sc of Inl e \<Rightarrow> Some e | Inr ord \<Rightarrow>
      (case verify_loop uc sc ?held of Some e \<Rightarrow> Some e
      | None \<Rightarrow> assertNoLeaselessOwner uc sc ord (leased_owners (rc_uuidString uc) ?held)))"
    by (simp add: Verify_def assms pg_ListByHost_quiet split: sum.split option.split)
  show ?thesis
  proof (cases "resolveOrdinal uc sc")
    case (Inr ord)
    then show ?thesis using step [of ord] pp [of ord] by (simp add: fst_Verify)
  qed (simp add: fst_Verify)
qed

lemma Verify_pure:
  "script db = [] \<Longrightarrow> checkScope uc = Inr sc \<Longrightarrow> sc_leases sc = pg_repo \<Longrightarrow> snd (Verify uc db) = db"
  by (simp add: Verify_def pg_ListByHost_quiet split: sum.split option.split)

text \<open>Claim C17.  A boot that goes through the guarded booter reaches the real booter exactly when
  the host's addressing plane is proven at that moment: the host row carries an ordinal in range, every
  lease held by the host derives its own recorded coordinates, agrees with the row of a running owner,
  and every occupying replica of this host (and, on the ordinal-0 host, every active image workload)
  that claims an index holds a lease, or claims an index outside the block while its VM is gone.
  Otherwise it is refused and nothing changes.  A teardown is delegated in both cases.\<close>

theorem guarded_boot_exact:
  fixes uc :: "lease_db FleetNetLeaseReconciler" and real :: "('i, 't, 'r, lease_db) ImageBooterPort"
  assumes "checkScope uc = Inr sc" "sc_leases sc = pg_repo" "script db = []" "inj (rc_uuidString uc)"
    and g: "g = NetPlaneGuardedImageBooter_port \<lparr>gb_Real = Some real, gb_Verify = Some (Verify uc)\<rparr>"
    and p: "proven \<longleftrightarrow> (\<exists>h ord. sc_hosts sc (rc_selfHost uc) = Inr h \<and> ho_NetOrdinal h = Some ord \<and>
      0 \<le> ord \<and> ord \<le> NetMaxOrdinal \<and>
      plane_proven uc sc ord (filter (\<lambda>l. nl_HostID l = rc_selfHost uc) (rows db)))"
  shows "(proven \<longrightarrow> bp_BootTest g i db = bp_BootTest real i db \<and> bp_BootResident g i db = bp_BootResident real i db) \<and>
    (\<not> proven \<longrightarrow> (\<exists>e. bp_BootTest g i db = (Inl (BootFleet e), db) \<and> bp_BootResident g i db = (Inl (BootFleet e), db))) \<and>
    bp_Decommission g inp db = bp_Decommission real inp db"
proof -
  have p': "proven \<longleftrightarrow> fst (Verify uc db) = None"
    unfolding Verify_iff [OF assms(1-4)] p resolveOrdinal_iff by blast
  note pure = Verify_pure [OF assms(3,1,2)]
  have "bp_BootTest g i db = bp_BootTest real i db \<and> bp_BootResident g i db = bp_BootResident real i db" if proven
    using that p' pure
    by (cases "Verify uc db") (auto simp: g NetPlaneGuardedImageBooter_port_def guarded_boot_def admit_def)
  moreover have "\<exists>e. bp_BootTest g i db = (Inl (BootFleet e), db) \<and> bp_BootResident g i db = (Inl (BootFleet e), db)"
    if "\<not> proven"
    using that p' pure
    by (cases "Verify uc db") (auto simp: g NetPlaneGuardedImageBooter_port_def guarded_boot_def admit_def)
  moreover have "bp_Decommission g inp db = bp_Decommission real inp db"
    by (simp add: g NetPlaneGuardedImageBooter_port_def)
  ultimately show ?thesis by blast
qed

section \<open>The teardown contract\<close>

text \<open>What the reconciler relies on: tearing a VM down frees at most its own lease, and reclaiming
  artifacts touches no lease.\<close>

definition quiet :: "lease_db booter_state \<Rightarrow> bool" where "quiet s \<longleftrightarrow> script (bs_db s) = []"

definition wired ::
  "(ImageDecommissionInput \<Rightarrow> lease_db booter_state \<Rightarrow> unit boot_result \<times> lease_db booter_state) \<Rightarrow>
   (NetLease \<Rightarrow> lease_db booter_state \<Rightarrow> bool \<times> lease_db booter_state) \<Rightarrow>
   lease_db FleetNetLeaseReconciler \<Rightarrow> lease_db scope \<Rightarrow> bool" where
  "wired decommission artifacts uc sc \<longleftrightarrow>
     sc_leases sc = pg_repo \<and> rc_booter uc = Some decommission \<and> rc_reclaimer uc = Some artifacts \<and>
     (\<exists>tab. sc_replicas sc = pg_replicas tab) \<and> (\<exists>tab. sc_workloads sc = pg_workloads tab)"

text \<open>The leases a pass frees: the owner row is gone or terminal, its recorded VMM is gone, or it
  never recorded one and the boot grace is over.\<close>

definition spent :: "'db FleetNetLeaseReconciler \<Rightarrow> 'db scope \<Rightarrow> NetLease \<Rightarrow> bool" where
  "spent uc sc l =
     (case loadOwner sc l of
        Inl _ \<Rightarrow> False
      | Inr None \<Rightarrow> True
      | Inr (Some w) \<Rightarrow> lo_terminal w \<or> (lo_pid w > 0 \<and> \<not> rc_processAlive uc (lo_pid w)) \<or>
          (lo_pid w \<le> 0 \<and> leaseAdoptGrace \<le> rc_now uc l - nl_CreatedAt l))"

definition judged :: "NetLeaseReconcileReport \<Rightarrow> int" where
  "judged rep = rp_Adopted rep + rp_Left rep + rp_Reclaimed rep"

lemma judged_reclaimed: "judged (rep\<lparr>rp_Reclaimed := rp_Reclaimed rep + 1\<rparr>) = judged rep + 1"
  by (simp add: judged_def)

lemma judged_torn:
  "judged (rep\<lparr>rp_TornDown := n, rp_Reclaimed := rp_Reclaimed rep + 1\<rparr>) = judged rep + 1"
  by (simp add: judged_def)

lemma loadOwner_handle:
  assumes "sc_replicas sc = pg_replicas tab" "sc_workloads sc = pg_workloads tab'" "loadOwner sc l = Inr (Some w)"
  shows "di_OwnerKind (lo_handle w) = nl_OwnerKind l" "di_OwnerID (lo_handle w) = nl_OwnerID l"
  using assms
  by (auto simp: loadOwner_def pg_replicas_def pg_workloads_def replicaRepository_FindByID_def
      imageWorkloadRepository_FindByID_def replica_owner_def workload_owner_def replicaDecommissionInput_def
      decommissionInput_def find_Some_iff split: NetLeaseOwnerKind.splits sum.splits option.splits if_splits)

locale lease_teardown =
  fixes decommission :: "ImageDecommissionInput \<Rightarrow> lease_db booter_state \<Rightarrow> unit boot_result \<times> lease_db booter_state"
    and artifacts :: "NetLease \<Rightarrow> lease_db booter_state \<Rightarrow> bool \<times> lease_db booter_state"
  assumes decommission_quiet: "quiet s \<Longrightarrow> quiet (snd (decommission inp s))"
    and decommission_rows: "quiet s \<Longrightarrow> rows (bs_db (snd (decommission inp s))) \<in>
      {rows (bs_db s), delete_rows (di_OwnerKind inp) (di_OwnerID inp) (rows (bs_db s))}"
    and artifacts_db: "bs_db (snd (artifacts l s)) = bs_db s"
begin

lemma reclaim_quiet:
  assumes "wired decommission artifacts uc sc" "quiet s"
  obtains s' where "reclaim uc sc l rep s = (None, rep\<lparr>rp_Reclaimed := rp_Reclaimed rep + 1\<rparr>, s')" "quiet s'"
    "rows (bs_db s') = delete_rows (nl_OwnerKind l) (nl_OwnerID l) (rows (bs_db s))"
  using assms artifacts_db [of l s]
  by (simp add: reclaim_def wired_def quiet_def pg_repo_def netLeaseRepository_Release_def Let_def)

lemma tearDown_quiet:
  assumes "wired decommission artifacts uc sc" "quiet s" "loadOwner sc l = Inr (Some w)"
  obtains s' where "tearDownAndReclaim uc sc l w rep s =
      (None, rep\<lparr>rp_TornDown := rp_TornDown rep + 1, rp_Reclaimed := rp_Reclaimed rep + 1\<rparr>, s')" "quiet s'"
    "rows (bs_db s') = delete_rows (nl_OwnerKind l) (nl_OwnerID l) (rows (bs_db s))"
proof -
  let ?t = "snd (decommission (lo_handle w) s)"
  have own: "di_OwnerKind (lo_handle w) = nl_OwnerKind l" "di_OwnerID (lo_handle w) = nl_OwnerID l"
    using loadOwner_handle assms(1,3) by (auto simp: wired_def)
  have q: "quiet ?t" using assms(2) by (rule decommission_quiet)
  obtain s' where s': "reclaim uc sc l (rep\<lparr>rp_TornDown := rp_TornDown rep + 1\<rparr>) ?t =
      (None, rep\<lparr>rp_TornDown := rp_TornDown rep + 1, rp_Reclaimed := rp_Reclaimed rep + 1\<rparr>, s')" "quiet s'"
    "rows (bs_db s') = delete_rows (nl_OwnerKind l) (nl_OwnerID l) (rows (bs_db ?t))"
    by (rule reclaim_quiet [OF assms(1) q, of l "rep\<lparr>rp_TornDown := rp_TornDown rep + 1\<rparr>"]) simp
  have "rows (bs_db s') = delete_rows (nl_OwnerKind l) (nl_OwnerID l) (rows (bs_db s))"
    using decommission_rows [OF assms(2), of "lo_handle w"] s'(3) own
    by (auto simp: delete_rows_def)
  with s' that assms(1) show ?thesis by (simp add: tearDownAndReclaim_def wired_def)
qed

lemma reconcileLease_quiet:
  assumes "wired decommission artifacts uc sc" "quiet s" "reconcileLease uc sc l rep s = (None, rep', s')"
  shows "quiet s' \<and> (owner_settled uc sc l \<or> spent uc sc l) \<and> judged rep' = judged rep + 1 \<and>
    rows (bs_db s') = (if spent uc sc l then delete_rows (nl_OwnerKind l) (nl_OwnerID l) (rows (bs_db s)) else rows (bs_db s))"
proof (cases "loadOwner sc l")
  case (Inl e)
  with assms(3) show ?thesis by (simp add: reconcileLease_def)
next
  case (Inr ow)
  show ?thesis
  proof (cases "spent uc sc l")
    case True
    have "\<exists>t r. (None, rep', s') = (None, r, t) \<and> quiet t \<and> judged r = judged rep + 1 \<and>
        rows (bs_db t) = delete_rows (nl_OwnerKind l) (nl_OwnerID l) (rows (bs_db s))"
    proof (cases "\<exists>w. ow = Some w \<and> (lo_terminal w \<or> lo_pid w > 0)")
      case True
      then obtain w where w: "ow = Some w" "lo_terminal w \<or> lo_pid w > 0" by blast
      with Inr \<open>spent uc sc l\<close> assms(3) have "tearDownAndReclaim uc sc l w rep s = (None, rep', s')"
        by (auto simp: reconcileLease_def spent_def split: if_splits)
      moreover obtain t where "tearDownAndReclaim uc sc l w rep s =
          (None, rep\<lparr>rp_TornDown := rp_TornDown rep + 1, rp_Reclaimed := rp_Reclaimed rep + 1\<rparr>, t)" "quiet t"
        "rows (bs_db t) = delete_rows (nl_OwnerKind l) (nl_OwnerID l) (rows (bs_db s))"
        using Inr w(1) by (auto intro: tearDown_quiet [OF assms(1,2), of l w rep])
      ultimately show ?thesis using judged_torn [of rep] by auto
    next
      case False
      with Inr \<open>spent uc sc l\<close> assms(3) have "reclaim uc sc l rep s = (None, rep', s')"
        by (auto simp: reconcileLease_def spent_def split: if_splits option.splits)
      moreover obtain t where "reclaim uc sc l rep s = (None, rep\<lparr>rp_Reclaimed := rp_Reclaimed rep + 1\<rparr>, t)" "quiet t"
        "rows (bs_db t) = delete_rows (nl_OwnerKind l) (nl_OwnerID l) (rows (bs_db s))"
        by (rule reclaim_quiet [OF assms(1,2), of l rep])
      ultimately show ?thesis using judged_reclaimed [of rep] by auto
    qed
    with True show ?thesis by simp
  next
    case False
    with Inr assms(2,3) show ?thesis
      by (auto simp: reconcileLease_def spent_def owner_settled_def judged_def assertLeaseMatchesLiveOwner_def
          MatchesAddresses_def split: option.splits if_splits)
  qed
qed

lemma reconcileLease_error:
  assumes "wired decommission artifacts uc sc" "quiet s" "reconcileLease uc sc l rep s = (Some e, rep', s')"
  shows "s' = s"
proof (cases "loadOwner sc l")
  case (Inl e)
  with assms(3) show ?thesis by (simp add: reconcileLease_def)
next
  case (Inr ow)
  have r: "reclaim uc sc l rep s \<noteq> (Some e, rep', s')"
    by (rule reclaim_quiet [OF assms(1,2), of l rep]) simp
  have t: "tearDownAndReclaim uc sc l w rep s \<noteq> (Some e, rep', s')" if "ow = Some w" for w
    by (rule tearDown_quiet [OF assms(1,2), of l w rep]) (use Inr that in simp_all)
  show ?thesis using Inr assms(3) r t by (auto simp: reconcileLease_def split: option.splits if_splits)
qed

end

definition freed_by :: "'db FleetNetLeaseReconciler \<Rightarrow> 'db scope \<Rightarrow> NetLease list \<Rightarrow> NetLease \<Rightarrow> bool" where
  "freed_by uc sc done l \<longleftrightarrow> (\<exists>d \<in> set done. spent uc sc d \<and> owned_by (nl_OwnerKind d) (nl_OwnerID d) l)"

context lease_teardown
begin

lemma reconcile_loop_quiet:
  assumes "wired decommission artifacts uc sc" "quiet s" "reconcile_loop uc sc held rep s = (e, rep', s')"
  shows "\<exists>done rest. held = done @ rest \<and> quiet s' \<and>
    (e = None \<longrightarrow> rest = [] \<and> judged rep' = judged rep + int (length held)) \<and>
    (\<forall>d \<in> set done. self_consistent (rc_uidBase uc) d \<and> (owner_settled uc sc d \<or> spent uc sc d)) \<and>
    rows (bs_db s') = filter (\<lambda>l. \<not> freed_by uc sc done l) (rows (bs_db s))"
  using assms(2,3)
proof (induction held arbitrary: rep s)
  case Nil
  then show ?case by (auto simp: freed_by_def)
next
  case (Cons l held)
  show ?case
  proof (cases "verifyLease (rc_uidBase uc) l")
    case False
    with Cons.prems show ?thesis
      by (intro exI [of _ "[]"] exI [of _ "l # held"]) (auto simp: freed_by_def)
  next
    case ok: True
    obtain e1 rep1 s1 where r: "reconcileLease uc sc l rep s = (e1, rep1, s1)" by (metis prod_cases3)
    show ?thesis
    proof (cases e1)
      case (Some x)
      with r have "s1 = s" using reconcileLease_error [OF assms(1) Cons.prems(1)] by simp
      with Cons.prems r Some ok show ?thesis
        by (intro exI [of _ "[]"] exI [of _ "l # held"]) (auto simp: freed_by_def)
    next
      case None
      note q = reconcileLease_quiet [OF assms(1) Cons.prems(1) r [unfolded None]]
      from Cons.prems(2) r None ok have "reconcile_loop uc sc held rep1 s1 = (e, rep', s')" by simp
      from Cons.IH [OF conjunct1 [OF q] this] obtain dn rest where d: "held = dn @ rest" "quiet s'"
        "e = None \<longrightarrow> rest = [] \<and> judged rep' = judged rep1 + int (length held)"
        "\<forall>d \<in> set dn. self_consistent (rc_uidBase uc) d \<and> (owner_settled uc sc d \<or> spent uc sc d)"
        "rows (bs_db s') = filter (\<lambda>l. \<not> freed_by uc sc dn l) (rows (bs_db s1))" by blast
      have "rows (bs_db s') = filter (\<lambda>x. \<not> freed_by uc sc (l # dn) x) (rows (bs_db s))"
        using q d(5) by (auto simp: freed_by_def delete_rows_def intro: filter_cong)
      with d q ok show ?thesis
        by (intro exI [of _ "l # dn"] exI [of _ rest]) (auto simp: verifyLease_iff)
    qed
  qed
qed

lemma Reconcile_stays_quiet:
  assumes "wired decommission artifacts uc sc" "checkScope uc = Inr sc" "quiet s" "Reconcile uc s = (None, rep, s')"
  shows "quiet s'"
proof -
  from assms(4,2) obtain ord where o: "resolveOrdinal uc sc = Inr ord"
    by (auto simp: Reconcile_def split: sum.splits)
  have w: "sc_leases sc = pg_repo" using assms(1) by (simp add: wired_def)
  note l = pg_ListByHost_quiet [OF assms(3) [unfolded quiet_def], of "rc_selfHost uc"]
  have s: "s\<lparr>bs_db := bs_db s\<rparr> = s" by simp
  have lq: "quiet t" if "reconcile_loop uc sc h r s = (e, r', t)" for h r e r' t
    using reconcile_loop_quiet [OF assms(1,3) that] by blast
  show ?thesis
    using assms(4) lq unfolding Reconcile_def assms(2) sum.case o Let_def w l prod.case s
    by (auto split: option.splits prod.splits)
qed

lemma Reconcile_quiet:
  assumes "wired decommission artifacts uc sc" "checkScope uc = Inr sc" "quiet s" "fenced (rows (bs_db s))"
    and "Reconcile uc s = (e, rep, s')"
  shows "\<exists>done. set done \<subseteq> {l \<in> set (rows (bs_db s)). nl_HostID l = rc_selfHost uc} \<and>
    (\<forall>d \<in> set done. self_consistent (rc_uidBase uc) d) \<and>
    rows (bs_db s') = filter (\<lambda>l. \<not> (l \<in> set done \<and> spent uc sc l)) (rows (bs_db s)) \<and>
    (e = None \<longrightarrow> set done = {l \<in> set (rows (bs_db s)). nl_HostID l = rc_selfHost uc} \<and>
      judged rep = int (length (filter (\<lambda>l. nl_HostID l = rc_selfHost uc) (rows (bs_db s)))))"
proof (cases "resolveOrdinal uc sc")
  case (Inl x)
  with assms(2,5) show ?thesis by (intro exI [of _ "[]"]) (auto simp: Reconcile_def)
next
  case (Inr ord)
  let ?h = "filter (\<lambda>l. nl_HostID l = rc_selfHost uc) (rows (bs_db s))"
  let ?held = "sort_key nl_LocalSlot ?h"
  let ?rep = "empty_report\<lparr>rp_HostOrdinal := ord, rp_Leases := int (length ?held)\<rparr>"
  obtain e1 rep1 s1 where r: "reconcile_loop uc sc ?held ?rep s = (e1, rep1, s1)" by (metis prod_cases3)
  have w: "sc_leases sc = pg_repo" using assms(1) by (simp add: wired_def)
  have l: "lr_ListByHost pg_repo (rc_selfHost uc) (bs_db s) = (Inr ?held, bs_db s)"
    using assms(3) by (simp add: pg_ListByHost_quiet quiet_def)
  have s: "s\<lparr>bs_db := bs_db s\<rparr> = s" by simp
  have "rep = rep1 \<and> s' = s1 \<and> (e = None \<longrightarrow> e1 = None)"
    using assms(5) unfolding Reconcile_def assms(2) sum.case Inr Let_def w l prod.case s r
    by (auto split: option.splits)
  then have same: "rep = rep1" "s' = s1" "e = None \<Longrightarrow> e1 = None" by simp_all
  from reconcile_loop_quiet [OF assms(1,3) r] obtain dn rest where d: "?held = dn @ rest"
    "e1 = None \<longrightarrow> rest = [] \<and> judged rep1 = judged ?rep + int (length ?held)"
    "\<forall>d \<in> set dn. self_consistent (rc_uidBase uc) d"
    "rows (bs_db s1) = filter (\<lambda>l. \<not> freed_by uc sc dn l) (rows (bs_db s))"
    by blast
  have sub: "set dn \<subseteq> {l \<in> set (rows (bs_db s)). nl_HostID l = rc_selfHost uc}"
    using arg_cong [OF d(1), of set] by auto
  have "d = l" if "l \<in> set (rows (bs_db s))" "d \<in> set dn" "owned_by (nl_OwnerKind d) (nl_OwnerID d) l" for d l
    using that sub fenced_members [OF assms(4), of d l] by (auto simp: owned_by_def fence_conflict_def)
  then have "freed_by uc sc dn l \<longleftrightarrow> l \<in> set dn \<and> spent uc sc l" if "l \<in> set (rows (bs_db s))" for l
    using that by (metis freed_by_def owned_by_def)
  then have rows: "rows (bs_db s') = filter (\<lambda>l. \<not> (l \<in> set dn \<and> spent uc sc l)) (rows (bs_db s))"
    unfolding same d(4) by (intro filter_cong) auto
  have fin: "set dn = {l \<in> set (rows (bs_db s)). nl_HostID l = rc_selfHost uc} \<and> judged rep = int (length ?h)"
    if "e = None"
  proof -
    from that same d(2) have z: "rest = []" "judged rep = judged ?rep + int (length ?held)" by simp_all
    moreover have "judged ?rep = 0" by (simp add: judged_def empty_report_def)
    moreover have "set dn = set ?held" using d(1) z(1) by simp
    ultimately show ?thesis by auto
  qed
  show ?thesis using sub d(3) rows fin by blast
qed

end

section \<open>The firecracker booter meets the contract\<close>

text \<open>The booter of a host over the Postgres lease table.\<close>

definition over_pg :: "lease_db ImageBooter \<Rightarrow> lease_db ImageBooter" where
  "over_pg b = b\<lparr>ib_alloc := map_option (\<lambda>a. a\<lparr>na_leases := Some pg_repo\<rparr>) (ib_alloc b)\<rparr>"

definition fc_decommission ::
  "lease_db ImageBooter \<Rightarrow> ImageDecommissionInput \<Rightarrow> lease_db booter_state \<Rightarrow> unit boot_result \<times> lease_db booter_state" where
  "fc_decommission b inp s =
     (case ImageBooter_Decommission (over_pg b) inp s of (r, s') \<Rightarrow> (map_sum BootFleet (\<lambda>u. u) r, s'))"

lemma proveTerminated_db: "proveTerminated b inp s = (p, s1) \<Longrightarrow> bs_db s1 = bs_db s"
  by (drule proveTerminated_run) (auto simp: stop_run_def)

lemma Release_rows_quiet:
  assumes "script db = []" "FleetNetAllocator_Release (a\<lparr>na_leases := Some pg_repo\<rparr>) k i db = (r, db')"
  shows "script db' = [] \<and> rows db' \<in> {rows db, delete_rows k i (rows db)}"
  using assms
  by (auto simp: FleetNetAllocator_Release_def pg_repo_def repo_defs split: if_splits option.splits)

lemma releaseLease_rows_quiet:
  assumes "quiet s" "releaseLease (over_pg b) k i s = (r, s')"
  shows "quiet s' \<and> rows (bs_db s') \<in> {rows (bs_db s), delete_rows k i (rows (bs_db s))}"
proof (cases "ib_alloc b")
  case None
  with assms show ?thesis by (simp add: releaseLease_def over_pg_def)
next
  case (Some a)
  obtain r' db where r: "FleetNetAllocator_Release (a\<lparr>na_leases := Some pg_repo\<rparr>) k i (bs_db s) = (r', db)" by force
  from assms have "script (bs_db s) = []" by (simp add: quiet_def)
  from Release_rows_quiet [OF this r] assms(2) Some r show ?thesis
    by (auto simp: releaseLease_def over_pg_def quiet_def emit_def)
qed

lemma fc_decommission_rows:
  assumes "quiet s"
  shows "quiet (snd (fc_decommission b inp s)) \<and> rows (bs_db (snd (fc_decommission b inp s))) \<in>
    {rows (bs_db s), delete_rows (di_OwnerKind inp) (di_OwnerID inp) (rows (bs_db s))}"
proof -
  obtain p s1 where p: "proveTerminated (over_pg b) inp s = (p, s1)" by force
  let ?s2 = "destroyTap (di_TapName inp) s1"
  obtain r s3 where r: "releaseLease (over_pg b) (di_OwnerKind inp) (di_OwnerID inp) ?s2 = (r, s3)" by force
  have db: "bs_db ?s2 = bs_db s" "bs_db s1 = bs_db s"
    using proveTerminated_db [OF p] by (simp_all add: destroyTap_log)
  have q: "quiet ?s2" using assms db by (simp add: quiet_def)
  have f: "bs_db (remove_host_files (over_pg b) inp s3) = bs_db s3" by (simp add: remove_host_files_log)
  show ?thesis
    using releaseLease_rows_quiet [OF q r] assms db f
    by (cases r) (simp_all add: fc_decommission_def ImageBooter_Decommission_def p r quiet_def)
qed

lemma ReclaimLeaseArtifacts_db: "bs_db (snd (ReclaimLeaseArtifacts b l s)) = bs_db s"
  by (simp add: ReclaimLeaseArtifacts_def emit_def Let_def)

interpretation fc: lease_teardown "fc_decommission b" "ReclaimLeaseArtifacts b" for b
  by unfold_locales (use fc_decommission_rows ReclaimLeaseArtifacts_db in blast)+


text \<open>Claim C18.  A successful start-up pass can leave the host refusing every boot: when it frees the
  lease of a replica whose row stays behind in an occupying state (dead, or resident with a vanished
  VMM) with an index of the host's own block, the verdict derived at the next boot finds that row
  without a lease.  The pass itself does not notice, because it still counts the freed lease.\<close>

theorem reconcile_then_boots_refused:
  assumes "checkScope uc = Inr sc" "wired (fc_decommission b) (ReclaimLeaseArtifacts b) uc sc"
    and "fenced (rows (bs_db s))" "script (bs_db s) = []" "inj (rc_uuidString uc)"
    and "Reconcile uc s = (None, rep, s')" "resolveOrdinal uc sc = Inr ordinal"
    and lease: "l \<in> set (rows (bs_db s))" "nl_HostID l = rc_selfHost uc" "spent uc sc l"
      "owned_by NetLeaseOwnerReplica (re_ID r) l"
    and row: "st \<in> set occupying" "rr_ListByState (sc_replicas sc) st = Inr rs" "r \<in> set rs"
      "re_HostID r = Some (rc_selfHost uc)"
      "ordinal * NetSlotStride < re_NetIndex r" "re_NetIndex r \<le> ordinal * NetSlotStride + NetMaxSlot"
  shows "fst (Verify uc (bs_db s')) \<noteq> None"
proof
  assume ok: "fst (Verify uc (bs_db s')) = None"
  from assms(4) have q: "quiet s" by (simp add: quiet_def)
  from assms(2) have pg: "sc_leases sc = pg_repo" by (simp add: wired_def)
  have rows: "rows (bs_db s') = filter (\<lambda>l. \<not> (nl_HostID l = rc_selfHost uc \<and> spent uc sc l)) (rows (bs_db s))"
    using fc.Reconcile_quiet [OF assms(2,1) q assms(3,6)] by (auto intro!: filter_cong)
  have q': "script (bs_db s') = []"
    using fc.Reconcile_stays_quiet [OF assms(2,1) q assms(6)] by (simp add: quiet_def)
  let ?held = "filter (\<lambda>l. nl_HostID l = rc_selfHost uc) (rows (bs_db s'))"
  from ok have "plane_proven uc sc ordinal ?held"
    unfolding Verify_iff [OF assms(1) pg q' assms(5)] assms(7) by simp
  with row have "replica_fenced uc ordinal ?held r" by (fastforce simp: plane_proven_def)
  moreover have "0 \<le> ordinal" using assms(7) by (auto simp: resolveOrdinal_iff)
  ultimately obtain m where m: "m \<in> set ?held" "owned_by NetLeaseOwnerReplica (re_ID r) m"
    using row(4-6) by (auto simp: replica_fenced_def NetSlotStride_def)
  then have "m \<in> set (rows (bs_db s))" "m \<noteq> l" using lease(2,3) by (auto simp: rows)
  with fenced_members [OF assms(3) _ lease(1), of m] m(2) lease(4) show False
    by (auto simp: fence_conflict_def owned_by_def)
qed

section \<open>A host after a restart\<close>

text \<open>Host 9 with ordinal 2 holds the lease of replica 7 at slot 1.\<close>

definition demo_lease :: NetLease where
  "demo_lease = \<lparr>nl_ID = 1, nl_HostID = 9, nl_HostOrdinal = 2, nl_LocalSlot = 1, nl_NetIndex = 2049,
     nl_HostIP = dotted 10 201 32 5, nl_GuestIP = dotted 10 201 32 6, nl_TapName = ''img'' @ show_int 1,
     nl_VMUID = 100001, nl_OwnerKind = NetLeaseOwnerReplica, nl_OwnerID = 7, nl_CreatedAt = 0, nl_UpdatedAt = 0\<rparr>"

definition demo_replica :: "ReplicaState \<Rightarrow> Replica" where
  "demo_replica st = \<lparr>re_ID = 7, re_AppID = 3, re_HostID = Some 9, re_ImageRepository = ''app'', re_ImageDigest = ''d'',
     re_State = st, re_Endpoint = '''', re_GuestIP = dotted 10 201 32 6, re_HostPort = 0, re_NetIndex = 2049,
     re_RootfsPath = '''', re_SocketPath = ''/run/u.sock'', re_TapName = ''img'' @ show_int 1, re_Port = 8080,
     re_PID = Some 4711, re_ExitCode = None, re_RestartPolicy = RestartPolicyAlways, re_Message = '''',
     re_CreatedAt = 0, re_UpdatedAt = 0\<rparr>"

lemma demo_lease_fields [simp]:
  "nl_HostID demo_lease = 9" "nl_OwnerKind demo_lease = NetLeaseOwnerReplica" "nl_OwnerID demo_lease = 7"
  "nl_GuestIP demo_lease = dotted 10 201 32 6" "nl_TapName demo_lease = ''img'' @ show_int 1"
  unfolding demo_lease_def by simp_all

lemma demo_replica_fields [simp]:
  "re_ID (demo_replica st) = 7" "re_HostID (demo_replica st) = Some 9" "re_NetIndex (demo_replica st) = 2049"
  "re_State (demo_replica st) = st" "re_PID (demo_replica st) = Some 4711"
  "re_GuestIP (demo_replica st) = dotted 10 201 32 6" "re_TapName (demo_replica st) = ''img'' @ show_int 1"
  unfolding demo_replica_def by simp_all

definition demo_reconciler :: "ReplicaState \<Rightarrow> lease_db FleetNetLeaseReconciler" where
  "demo_reconciler st = \<lparr>rc_leases = Some pg_repo, rc_hosts = Some (\<lambda>i. Inr ((demo_host i)\<lparr>ho_NetOrdinal := Some 2\<rparr>)),
     rc_replicas = Some (pg_replicas (Some [demo_replica st])), rc_workloads = Some (pg_workloads (Some [])),
     rc_booter = Some (fc_decommission obeys_term), rc_reclaimer = Some (ReclaimLeaseArtifacts obeys_term),
     rc_selfHost = 9, rc_uidBase = 100000, rc_processAlive = processAlive (\<lambda>_. True) (\<lambda>_. SigDelivered),
     rc_now = (\<lambda>_. 0), rc_uuidString = demo_uuidString\<rparr>"

definition demo_scope :: "ReplicaState \<Rightarrow> lease_db scope" where
  "demo_scope st = \<lparr>sc_leases = pg_repo, sc_hosts = (\<lambda>i. Inr ((demo_host i)\<lparr>ho_NetOrdinal := Some 2\<rparr>)),
     sc_replicas = pg_replicas (Some [demo_replica st]), sc_workloads = pg_workloads (Some [])\<rparr>"

definition restarted :: "lease_db booter_state" where
  "restarted = \<lparr>bs_db = \<lparr>rows = [demo_lease], script = []\<rparr>, bs_log = []\<rparr>"

lemma demo_checkScope: "checkScope (demo_reconciler st) = Inr (demo_scope st)"
  by (simp add: checkScope_def demo_reconciler_def demo_scope_def)

lemma demo_wired: "wired (fc_decommission obeys_term) (ReclaimLeaseArtifacts obeys_term) (demo_reconciler st) (demo_scope st)"
  by (auto simp: wired_def demo_reconciler_def demo_scope_def)

lemma demo_resolve: "resolveOrdinal (demo_reconciler st) (demo_scope st) = Inr 2"
  by (simp add: resolveOrdinal_def demo_scope_def net_consts)

lemma demo_consistent: "self_consistent 100000 demo_lease"
  by (simp add: self_consistent_def in_plane_def lease_coords_def index_of_def demo_lease_def net_consts
      go_add_def wrap64_def)

lemma demo_owner: "loadOwner (demo_scope st) demo_lease = Inr (Some (replica_owner (demo_replica st)))"
  by (simp add: loadOwner_def demo_scope_def pg_replicas_def replicaRepository_FindByID_def)

lemma demo_no_offender:
  "assertNoLeaselessOwner (demo_reconciler st) (demo_scope st) 2 (leased_owners demo_uuidString [demo_lease]) = None"
proof -
  have inj: "inj (rc_uuidString (demo_reconciler st))"
    using inj_demo_uuidString by (simp add: demo_reconciler_def)
  have v: "\<forall>l \<in> set [demo_lease]. NetLeaseOwnerKind_IsValid (nl_OwnerKind l)" by simp
  have "replica_fenced (demo_reconciler st) 2 [demo_lease] (demo_replica st)"
    by (simp add: replica_fenced_def owned_by_def)
  then show ?thesis
    using assertNoLeaselessOwner_iff [OF inj v, of "demo_scope st" 2]
    by (simp add: demo_reconciler_def demo_scope_def pg_replicas_def replicaRepository_ListByState_def)
qed

lemma demo_reconcile:
  obtains rep s' where "Reconcile (demo_reconciler ReplicaStateDead) restarted = (None, rep, s')"
proof -
  let ?uc = "demo_reconciler ReplicaStateDead" and ?sc = "demo_scope ReplicaStateDead"
  have q: "quiet restarted" by (simp add: quiet_def restarted_def)
  have terminal: "lo_terminal (replica_owner (demo_replica ReplicaStateDead))"
    by (simp add: replica_owner_def)
  obtain rep s' where "reconcileLease ?uc ?sc demo_lease (empty_report\<lparr>rp_HostOrdinal := 2, rp_Leases := 1\<rparr>) restarted = (None, rep, s')"
    unfolding reconcileLease_def demo_owner sum.case option.case if_P [OF terminal]
    by (rule fc.tearDown_quiet [OF demo_wired q demo_owner])
  moreover have "verifyLease (rc_uidBase ?uc) demo_lease"
    using demo_consistent by (simp add: verifyLease_iff) (simp add: demo_reconciler_def)
  moreover have "lr_ListByHost pg_repo 9 (bs_db restarted) = (Inr [demo_lease], bs_db restarted)"
    by (simp add: pg_ListByHost_quiet restarted_def)
  moreover have "sc_leases ?sc = pg_repo" "rc_selfHost ?uc = 9" "rc_uuidString ?uc = demo_uuidString"
    by (simp_all add: demo_scope_def demo_reconciler_def)
  ultimately have "Reconcile ?uc restarted = (None, rep, s')"
    by (simp add: Reconcile_def demo_checkScope demo_resolve Let_def demo_no_offender)
  then show ?thesis by (rule that)
qed

lemma demo_spent: "spent (demo_reconciler ReplicaStateDead) (demo_scope ReplicaStateDead) demo_lease"
  by (simp add: spent_def demo_owner replica_owner_def)


theorem reconcile_then_boots_refused_witness:
  "\<exists>rep s'. Reconcile (demo_reconciler ReplicaStateDead) restarted = (None, rep, s') \<and>
     fst (Verify (demo_reconciler ReplicaStateDead) (bs_db s')) \<noteq> None"
proof -
  obtain rep s' where r: "Reconcile (demo_reconciler ReplicaStateDead) restarted = (None, rep, s')"
    by (rule demo_reconcile)
  have inj: "inj (rc_uuidString (demo_reconciler ReplicaStateDead))"
    using inj_demo_uuidString by (simp add: demo_reconciler_def)
  have "fst (Verify (demo_reconciler ReplicaStateDead) (bs_db s')) \<noteq> None"
  proof (rule reconcile_then_boots_refused [where r = "demo_replica ReplicaStateDead",
        OF demo_checkScope demo_wired _ _ inj r demo_resolve])
    show "fenced (rows (bs_db restarted))" "script (bs_db restarted) = []" "demo_lease \<in> set (rows (bs_db restarted))"
      by (simp_all add: restarted_def)
    show "spent (demo_reconciler ReplicaStateDead) (demo_scope ReplicaStateDead) demo_lease" by (rule demo_spent)
    show "ReplicaStateDead \<in> set occupying" by (simp add: occupying_def)
    show "rr_ListByState (sc_replicas (demo_scope ReplicaStateDead)) ReplicaStateDead = Inr [demo_replica ReplicaStateDead]"
      by (simp add: demo_scope_def pg_replicas_def replicaRepository_ListByState_def)
  qed (simp_all add: demo_reconciler_def owned_by_def net_consts)
  with r show ?thesis by blast
qed

theorem guarded_boot_exact_witness:
  "fst (bp_BootTest (NetPlaneGuardedImageBooter_port
     \<lparr>gb_Real = Some \<lparr>bp_BootTest = (\<lambda>i s. (Inr (i + 1), s)), bp_BootResident = (\<lambda>i s. (Inr (), s)),
        bp_Decommission = (\<lambda>inp s. (Inr (), s))\<rparr>,
      gb_Verify = Some (Verify (demo_reconciler ReplicaStateResident))\<rparr>) (4::int) \<lparr>rows = [demo_lease], script = []\<rparr>) = Inr 5"
proof -
  let ?uc = "demo_reconciler ReplicaStateResident" and ?sc = "demo_scope ReplicaStateResident"
  let ?db = "\<lparr>rows = [demo_lease], script = []\<rparr>"
  have inj: "inj (rc_uuidString ?uc)"
    using inj_demo_uuidString by (simp add: demo_reconciler_def)
  have pg: "sc_leases ?sc = pg_repo" "script ?db = []" by (simp_all add: demo_scope_def)
  have v: "\<forall>l \<in> set [demo_lease]. NetLeaseOwnerKind_IsValid (nl_OwnerKind l)" by simp
  have "owner_settled ?uc ?sc demo_lease"
    by (simp add: owner_settled_def demo_owner replica_owner_def)
  moreover have "assertNoLeaselessOwner ?uc ?sc 2 (leased_owners (rc_uuidString ?uc) [demo_lease]) = None"
    using demo_no_offender by (simp add: demo_reconciler_def)
  moreover have "rc_uidBase ?uc = 100000" by (simp add: demo_reconciler_def)
  ultimately have "plane_proven ?uc ?sc 2 [demo_lease]"
    using demo_consistent unfolding plane_proven_def assertNoLeaselessOwner_iff [OF inj v] by simp
  moreover have "filter (\<lambda>l. nl_HostID l = rc_selfHost ?uc) (rows ?db) = [demo_lease]"
    by (simp add: demo_reconciler_def)
  ultimately have p: "\<exists>h ord. sc_hosts ?sc (rc_selfHost ?uc) = Inr h \<and> ho_NetOrdinal h = Some ord \<and>
      0 \<le> ord \<and> ord \<le> NetMaxOrdinal \<and> plane_proven ?uc ?sc ord (filter (\<lambda>l. nl_HostID l = rc_selfHost ?uc) (rows ?db))"
    by (simp add: demo_scope_def net_consts)
  show ?thesis
    using guarded_boot_exact [where i = "4 :: int" and real = "\<lparr>bp_BootTest = (\<lambda>i s. (Inr (i + 1), s)),
        bp_BootResident = (\<lambda>i s. (Inr (), s)), bp_Decommission = (\<lambda>inp s. (Inr (), s))\<rparr>",
        OF demo_checkScope pg inj refl refl] p by simp
qed

end
