(* ===== verification/Fleet_Store.thy ===== *)
theory Fleet_Store
  imports Fleet_Volumes Fleet_Scheduler Net_Reconcile
begin

text \<open>
  The shared tables of the fleet's control plane as one host process sees them: apps, replicas and
  routes (\<open>internal/repository/postgres/fleet_app_repository.go\<close>, \<open>fleet_replica_repository.go\<close>,
  \<open>fleet_route_repository.go\<close>, with the constraints of the migrations), the host registry and the
  volume ledger of the earlier theories, and what the process holds itself: its handed tokens, its
  staging directories and the state \<open>'h\<close> of its machine.

  A script says which of the process's own statements on the app, replica and route tables are lost on
  the way out or on the way back.  Other processes run between operations.  \<open>fw_tick\<close> counts the readings of the clock
  and of the random source.
\<close>

datatype op_error = OpFleet fleet_error | OpWorkload image_workload_error | OpResource resource_error
  | OpNetwork network_error

type_synonym 'a op_result = "op_error + 'a"

fun vol_op_error :: "volume_error \<Rightarrow> op_error" where
  "vol_op_error (VolFleet e) = OpFleet e"
| "vol_op_error (VolResource e) = OpResource e"
| "vol_op_error VolOther = OpFleet ErrOther"

fun boot_op_error :: "boot_error \<Rightarrow> op_error" where
  "boot_op_error (BootFleet e) = OpFleet e"
| "boot_op_error (BootWorkload e) = OpWorkload e"

record Route =
  ro_ID :: uuid
  ro_AppID :: uuid
  ro_HostPattern :: string
  ro_PathPrefix :: string
  ro_CustomDomain :: string
  ro_TLSCertRef :: string
  ro_CreatedAt :: instant
  ro_UpdatedAt :: instant

record ('f, 'h) fleet_world =
  fw_apps :: "FleetApp list"
  fw_replicas :: "Replica list"
  fw_routes :: "Route list"
  fw_script :: "fault list"
  fw_hosts :: host_db
  fw_vols :: "'f vol_world"
  fw_tokens :: "uuid \<rightharpoonup> string"
  fw_pullTokens :: "uuid \<rightharpoonup> string"
  fw_staging :: "string list"
  fw_host :: 'h
  fw_tick :: nat

definition next_fault :: "('f, 'h) fleet_world \<Rightarrow> fault \<times> ('f, 'h) fleet_world" where
  "next_fault w = (case fw_script w of [] \<Rightarrow> (NoFault, w) | f # fs \<Rightarrow> (f, w\<lparr>fw_script := fs\<rparr>))"

definition fread ::
  "(('f, 'h) fleet_world \<Rightarrow> 'a op_result) \<Rightarrow> ('f, 'h) fleet_world \<Rightarrow> 'a op_result \<times> ('f, 'h) fleet_world" where
  "fread q w0 = (case next_fault w0 of (f, w) \<Rightarrow> (if f = NoFault then q w else Inl (OpFleet ErrOther), w))"

text \<open>A write that a constraint refuses (\<open>Inl\<close>) changes nothing.\<close>

definition fwrite ::
  "(('f, 'h) fleet_world \<Rightarrow> op_error + ('f, 'h) fleet_world) \<Rightarrow> ('f, 'h) fleet_world \<Rightarrow>
   unit op_result \<times> ('f, 'h) fleet_world" where
  "fwrite stmt w0 =
     (case next_fault w0 of (f, w) \<Rightarrow>
        if f = LostCall then (Inl (OpFleet ErrOther), w)
        else (case stmt w of
            Inl e \<Rightarrow> (Inl e, w)
          | Inr w' \<Rightarrow> (if f = NoFault then Inr () else Inl (OpFleet ErrOther), w')))"

section \<open>Replicas\<close>

definition replica_refs :: "('f, 'h) fleet_world \<Rightarrow> Replica \<Rightarrow> bool" where
  "replica_refs w r \<longleftrightarrow> (\<exists>a \<in> set (fw_apps w). fa_ID a = re_AppID r) \<and>
     (case re_HostID r of None \<Rightarrow> True | Some h \<Rightarrow> \<exists>x \<in> set (h_rows (fw_hosts w)). ho_ID x = h)"

definition insert_replica :: "Replica \<Rightarrow> ('f, 'h) fleet_world \<Rightarrow> op_error + ('f, 'h) fleet_world" where
  "insert_replica r w =
     (if (\<forall>x \<in> set (fw_replicas w). re_ID x \<noteq> re_ID r) \<and> replica_refs w r
      then Inr (w\<lparr>fw_replicas := fw_replicas w @ [r]\<rparr>) else Inl (OpFleet ErrOther))"

definition save_replica :: "Replica \<Rightarrow> ('f, 'h) fleet_world \<Rightarrow> op_error + ('f, 'h) fleet_world" where
  "save_replica r w =
     (if \<exists>x \<in> set (fw_replicas w). re_ID x = re_ID r then
        (if replica_refs w r
         then Inr (w\<lparr>fw_replicas := map (\<lambda>x. if re_ID x = re_ID r then r else x) (fw_replicas w)\<rparr>)
         else Inl (OpFleet ErrOther))
      else insert_replica r w)"

definition delete_replica :: "uuid \<Rightarrow> ('f, 'h) fleet_world \<Rightarrow> ('f, 'h) fleet_world" where
  "delete_replica i w = w\<lparr>fw_replicas := filter (\<lambda>x. re_ID x \<noteq> i) (fw_replicas w)\<rparr>"

definition replicas_FindByID :: "uuid \<Rightarrow> ('f, 'h) fleet_world \<Rightarrow> Replica op_result \<times> ('f, 'h) fleet_world" where
  "replicas_FindByID i =
     fread (\<lambda>w. case find (\<lambda>r. re_ID r = i) (fw_replicas w) of
        None \<Rightarrow> Inl (OpFleet ErrReplicaNotFound) | Some r \<Rightarrow> Inr r)"

definition app_replicas_of :: "uuid \<Rightarrow> Replica list \<Rightarrow> Replica list" where
  "app_replicas_of appID rs = sort_key re_CreatedAt (filter (\<lambda>r. re_AppID r = appID) rs)"

definition host_replicas_of :: "uuid \<Rightarrow> Replica list \<Rightarrow> Replica list" where
  "host_replicas_of hostID rs = sort_key re_CreatedAt (filter (\<lambda>r. re_HostID r = Some hostID) rs)"

definition replicas_ListByApp :: "uuid \<Rightarrow> ('f, 'h) fleet_world \<Rightarrow> Replica list op_result \<times> ('f, 'h) fleet_world" where
  "replicas_ListByApp appID = fread (\<lambda>w. Inr (app_replicas_of appID (fw_replicas w)))"

definition replicas_ListByHost :: "uuid \<Rightarrow> ('f, 'h) fleet_world \<Rightarrow> Replica list op_result \<times> ('f, 'h) fleet_world" where
  "replicas_ListByHost hostID = fread (\<lambda>w. Inr (host_replicas_of hostID (fw_replicas w)))"

definition replicaRepository_Create :: "Replica \<Rightarrow> ('f, 'h) fleet_world \<Rightarrow> unit op_result \<times> ('f, 'h) fleet_world" where
  "replicaRepository_Create r = fwrite (insert_replica r)"

definition replicaRepository_Update :: "Replica \<Rightarrow> ('f, 'h) fleet_world \<Rightarrow> unit op_result \<times> ('f, 'h) fleet_world" where
  "replicaRepository_Update r = fwrite (save_replica r)"

definition replicaRepository_Delete :: "uuid \<Rightarrow> ('f, 'h) fleet_world \<Rightarrow> unit op_result \<times> ('f, 'h) fleet_world" where
  "replicaRepository_Delete i = fwrite (\<lambda>w. Inr (delete_replica i w))"

section \<open>Apps\<close>

definition same_claim :: "FleetApp \<Rightarrow> FleetApp \<Rightarrow> bool" where
  "same_claim a b \<longleftrightarrow> fa_ComponentID a = fa_ComponentID b \<and> fa_Env a = fa_Env b \<and> fa_OwnerOrg a = fa_OwnerOrg b"

definition insert_app :: "FleetApp \<Rightarrow> ('f, 'h) fleet_world \<Rightarrow> op_error + ('f, 'h) fleet_world" where
  "insert_app a w =
     (if \<forall>x \<in> set (fw_apps w). fa_ID x \<noteq> fa_ID a \<and> \<not> same_claim x a
      then Inr (w\<lparr>fw_apps := fw_apps w @ [a]\<rparr>) else Inl (OpFleet ErrOther))"

definition save_app :: "FleetApp \<Rightarrow> ('f, 'h) fleet_world \<Rightarrow> op_error + ('f, 'h) fleet_world" where
  "save_app a w =
     (if \<exists>x \<in> set (fw_apps w). fa_ID x = fa_ID a then
        (if \<forall>x \<in> set (fw_apps w). fa_ID x = fa_ID a \<or> \<not> same_claim x a
         then Inr (w\<lparr>fw_apps := map (\<lambda>x. if fa_ID x = fa_ID a then a else x) (fw_apps w)\<rparr>)
         else Inl (OpFleet ErrOther))
      else insert_app a w)"

text \<open>Deleting an app takes its replicas and routes with it (cascade) and is refused while a volume row
  names it (restrict).\<close>

definition delete_app :: "uuid \<Rightarrow> ('f, 'h) fleet_world \<Rightarrow> op_error + ('f, 'h) fleet_world" where
  "delete_app i w =
     (if \<exists>v \<in> set (vw_rows (fw_vols w)). vo_AppID v = Some i then Inl (OpFleet ErrOther)
      else Inr (w\<lparr>fw_apps := filter (\<lambda>x. fa_ID x \<noteq> i) (fw_apps w),
                  fw_replicas := filter (\<lambda>x. re_AppID x \<noteq> i) (fw_replicas w),
                  fw_routes := filter (\<lambda>x. ro_AppID x \<noteq> i) (fw_routes w)\<rparr>))"

definition fleetAppRepository_FindByID :: "uuid \<Rightarrow> ('f, 'h) fleet_world \<Rightarrow> FleetApp op_result \<times> ('f, 'h) fleet_world" where
  "fleetAppRepository_FindByID i =
     fread (\<lambda>w. case find (\<lambda>a. fa_ID a = i) (fw_apps w) of None \<Rightarrow> Inl (OpFleet ErrFleetAppNotFound) | Some a \<Rightarrow> Inr a)"

definition fleetAppRepository_FindByComponentEnv ::
  "string \<Rightarrow> string \<Rightarrow> string \<Rightarrow> ('f, 'h) fleet_world \<Rightarrow> FleetApp op_result \<times> ('f, 'h) fleet_world" where
  "fleetAppRepository_FindByComponentEnv componentID env ownerOrg =
     fread (\<lambda>w. case find (\<lambda>a. fa_ComponentID a = componentID \<and> fa_Env a = env \<and> fa_OwnerOrg a = ownerOrg) (fw_apps w) of
        None \<Rightarrow> Inl (OpFleet ErrFleetAppNotFound) | Some a \<Rightarrow> Inr a)"

definition fleetAppRepository_List :: "('f, 'h) fleet_world \<Rightarrow> FleetApp list op_result \<times> ('f, 'h) fleet_world" where
  "fleetAppRepository_List = fread (\<lambda>w. Inr (fw_apps w))"

definition fleetAppRepository_Create :: "FleetApp \<Rightarrow> ('f, 'h) fleet_world \<Rightarrow> unit op_result \<times> ('f, 'h) fleet_world" where
  "fleetAppRepository_Create a = fwrite (insert_app a)"

definition fleetAppRepository_Update :: "FleetApp \<Rightarrow> ('f, 'h) fleet_world \<Rightarrow> unit op_result \<times> ('f, 'h) fleet_world" where
  "fleetAppRepository_Update a = fwrite (save_app a)"

definition fleetAppRepository_Delete :: "uuid \<Rightarrow> ('f, 'h) fleet_world \<Rightarrow> unit op_result \<times> ('f, 'h) fleet_world" where
  "fleetAppRepository_Delete i = fwrite (delete_app i)"

section \<open>Routes\<close>

definition insert_route :: "Route \<Rightarrow> ('f, 'h) fleet_world \<Rightarrow> op_error + ('f, 'h) fleet_world" where
  "insert_route r w =
     (if \<exists>x \<in> set (fw_routes w). ro_ID x = ro_ID r then Inl (OpFleet ErrOther)
      else if \<exists>x \<in> set (fw_routes w). ro_HostPattern x = ro_HostPattern r then Inl (OpFleet ErrIngressHostTaken)
      else if \<not> (\<exists>a \<in> set (fw_apps w). fa_ID a = ro_AppID r) then Inl (OpFleet ErrOther)
      else Inr (w\<lparr>fw_routes := fw_routes w @ [r]\<rparr>))"

definition routeRepository_Create :: "Route \<Rightarrow> ('f, 'h) fleet_world \<Rightarrow> unit op_result \<times> ('f, 'h) fleet_world" where
  "routeRepository_Create r = fwrite (insert_route r)"

definition routeRepository_ListByApp :: "uuid \<Rightarrow> ('f, 'h) fleet_world \<Rightarrow> Route list op_result \<times> ('f, 'h) fleet_world" where
  "routeRepository_ListByApp appID = fread (\<lambda>w. Inr (sort_key ro_CreatedAt (filter (\<lambda>r. ro_AppID r = appID) (fw_routes w))))"

definition routeRepository_DeleteByApp :: "uuid \<Rightarrow> ('f, 'h) fleet_world \<Rightarrow> unit op_result \<times> ('f, 'h) fleet_world" where
  "routeRepository_DeleteByApp appID =
     fwrite (\<lambda>w. Inr (w\<lparr>fw_routes := filter (\<lambda>r. ro_AppID r \<noteq> appID) (fw_routes w)\<rparr>))"

definition routeRepository_FindByHost :: "string \<Rightarrow> ('f, 'h) fleet_world \<Rightarrow> Route op_result \<times> ('f, 'h) fleet_world" where
  "routeRepository_FindByHost host =
     fread (\<lambda>w. case sort_key ro_ID (filter (\<lambda>r. ro_HostPattern r = host \<or> ro_CustomDomain r = host) (fw_routes w)) of
        [] \<Rightarrow> Inl (OpFleet ErrRouteNotFound) | r # _ \<Rightarrow> Inr r)"

section \<open>The volume ledger and the host\<close>

definition on_vols ::
  "('f vol_world \<Rightarrow> 'a vol_result \<times> 'f vol_world) \<Rightarrow> ('f, 'h) fleet_world \<Rightarrow> 'a op_result \<times> ('f, 'h) fleet_world" where
  "on_vols f w =
     (case f (fw_vols w) of (r, v) \<Rightarrow>
        (case r of Inl e \<Rightarrow> Inl (vol_op_error e) | Inr a \<Rightarrow> Inr a, w\<lparr>fw_vols := v\<rparr>))"

definition on_host ::
  "('h \<Rightarrow> 'a boot_result \<times> 'h) \<Rightarrow> ('f, 'h) fleet_world \<Rightarrow> 'a op_result \<times> ('f, 'h) fleet_world" where
  "on_host f w =
     (case f (fw_host w) of (r, h) \<Rightarrow>
        (case r of Inl e \<Rightarrow> Inl (boot_op_error e) | Inr a \<Rightarrow> Inr a, w\<lparr>fw_host := h\<rparr>))"

definition tick :: "('f, 'h) fleet_world \<Rightarrow> ('f, 'h) fleet_world" where
  "tick w = w\<lparr>fw_tick := Suc (fw_tick w)\<rparr>"

end
