(* ===== verification/Fleet_Runtime.thy ===== *)
theory Fleet_Runtime
  imports Fleet_Store
begin

text \<open>
  The replica runtime (\<open>internal/usecase/fleet_replica_runtime.go\<close>): booting, tearing down and probing one
  replica on the machine that owns it.  The materializer, the booter, the secret resolver, the random
  source and the two host probes are fields of the runtime.  The text of an error (stored in the replica's
  message) is a parameter.
\<close>

record HostSecret =
  hs_Name :: string
  hs_Val :: string

record ImageMaterializeInput =
  mi_Registry :: string
  mi_Repository :: string
  mi_Digest :: string
  mi_ChangeID :: string
  mi_WorkDir :: string
  mi_EnvVars :: "string \<rightharpoonup> string"
  mi_Mode :: string
  mi_TestCommand :: string
  mi_JobCommand :: "string list"
  mi_Port :: int
  mi_ExpectSecrets :: bool
  mi_BootstrapNonce :: string
  mi_DataMountPath :: string
  mi_RegistryPullToken :: string

record ImageBootInput =
  bi_WorkloadID :: uuid
  bi_OwnerKind :: NetLeaseOwnerKind
  bi_RootfsPath :: string
  bi_VCPU :: int
  bi_MemoryMB :: int
  bi_Port :: int
  bi_TimeoutSeconds :: int
  bi_ExpectSecrets :: bool
  bi_Secrets :: "HostSecret list"
  bi_BootstrapNonce :: string
  bi_DataDiskPath :: string
  bi_DataMountPath :: string
  bi_EgressAllow :: "string list"

record ImageTestResult =
  tr_ExitCode :: int
  tr_Stdout :: string
  tr_Stderr :: string
  tr_TimedOut :: bool

record ImageResidentResult =
  ir_PID :: int
  ir_GuestIP :: string
  ir_HostPort :: int
  ir_NetIndex :: int
  ir_TapName :: string
  ir_SocketPath :: string

type_synonym 'h replica_booter = "(ImageBootInput, ImageTestResult, ImageResidentResult, 'h) ImageBooterPort"

text \<open>The principal a secret is resolved for: service, org, handed token.\<close>

record Principal =
  pn_Service :: string
  pn_OrgID :: string
  pn_Token :: string

record ('f, 'h) FleetReplicaRuntime =
  rt_materialize :: "ImageMaterializeInput \<Rightarrow> 'h \<Rightarrow> string boot_result \<times> 'h"
  rt_booter :: "'h replica_booter"
  rt_workDir :: string
  rt_resolver :: "(string \<Rightarrow> Principal \<Rightarrow> string op_result) option"
  rt_volumes :: "'f FleetVolumeManager option"
  rt_tokenStore :: bool
  rt_registryTokenStore :: bool
  rt_secretSelfTest :: bool
  rt_selfHost :: uuid
  rt_procAlive :: "int \<Rightarrow> 'h \<Rightarrow> bool"
  rt_dialGuest :: "string \<Rightarrow> int \<Rightarrow> 'h \<Rightarrow> bool"
  rt_nonce :: "nat \<Rightarrow> string option"
  rt_now :: "nat \<Rightarrow> instant"
  rt_uuidString :: "uuid \<Rightarrow> string"
  rt_errorText :: "op_error \<Rightarrow> string"

text \<open>The constructor refuses a runtime without a host identity.\<close>

definition NewFleetReplicaRuntime ::
  "('f, 'h) FleetReplicaRuntime \<Rightarrow> ('f, 'h) FleetReplicaRuntime op_result" where
  "NewFleetReplicaRuntime uc = (if rt_selfHost uc = uuid_Nil then Inl (OpFleet ErrReplicaHostMismatch) else Inr uc)"

definition selfTestSecret :: HostSecret where
  "selfTestSecret = \<lparr>hs_Name = ''__selftest__'', hs_Val = ''FLEET-VSOCK-SELFTEST-OK''\<rparr>"

text \<open>The part after the last \<open>#\<close>, when there is one and it is not empty.\<close>

definition fieldName :: "string \<Rightarrow> string" where
  "fieldName ref =
     (let tail = rev (takeWhile (\<lambda>c. c \<noteq> CHR ''#'') (rev ref)) in
      if CHR ''#'' \<in> set ref \<and> tail \<noteq> [] then tail else ref)"

fun resolve_refs :: "(string \<Rightarrow> Principal \<Rightarrow> string op_result) \<Rightarrow> Principal \<Rightarrow> string list \<Rightarrow> HostSecret list op_result" where
  "resolve_refs resolve p [] = Inr []"
| "resolve_refs resolve p (ref # refs) =
     (case resolve ref p of
        Inl e \<Rightarrow> Inl e
      | Inr v \<Rightarrow> (case resolve_refs resolve p refs of
          Inl e \<Rightarrow> Inl e
        | Inr ss \<Rightarrow> Inr (\<lparr>hs_Name = fieldName ref, hs_Val = v\<rparr> # ss)))"

definition resolveBootSecrets ::
  "(string \<Rightarrow> Principal \<Rightarrow> string op_result) option \<Rightarrow> string list \<Rightarrow> string \<Rightarrow> string \<Rightarrow> HostSecret list op_result" where
  "resolveBootSecrets resolver refs ownerOrg token =
     (case resolver of
        None \<Rightarrow> Inl (OpWorkload ErrSecretResolverUnavailable)
      | Some resolve \<Rightarrow>
          if ownerOrg = '''' then Inl (OpWorkload ErrSecretOwnerOrgMissing)
          else resolve_refs resolve \<lparr>pn_Service = ''runtime-fleet'', pn_OrgID = ownerOrg, pn_Token = token\<rparr> refs)"

definition stored_token :: "bool \<Rightarrow> (uuid \<rightharpoonup> string) \<Rightarrow> uuid \<Rightarrow> string" where
  "stored_token present tokens i = (if present then (case tokens i of Some t \<Rightarrow> t | None \<Rightarrow> '''') else '''')"

definition bootSecrets ::
  "('f, 'h) FleetReplicaRuntime \<Rightarrow> FleetApp \<Rightarrow> ('f, 'h) fleet_world \<Rightarrow> HostSecret list op_result" where
  "bootSecrets uc app w =
     (if fa_SecretRefs app \<noteq> [] then
        resolveBootSecrets (rt_resolver uc) (fa_SecretRefs app) (fa_OwnerOrg app)
          (stored_token (rt_tokenStore uc) (fw_tokens w) (fa_ID app))
      else if rt_secretSelfTest uc then Inr [selfTestSecret]
      else Inr [])"

definition requireOwnedReplica :: "uuid \<Rightarrow> Replica \<Rightarrow> op_error option" where
  "requireOwnedReplica selfHost replica =
     (case re_HostID replica of
        None \<Rightarrow> Some (OpFleet ErrReplicaHostMismatch)
      | Some h \<Rightarrow> if h \<noteq> selfHost then Some (OpFleet ErrReplicaHostMismatch) else None)"

definition staging_dir :: "('f, 'h) FleetReplicaRuntime \<Rightarrow> uuid \<Rightarrow> string" where
  "staging_dir uc replicaID = path_Join [rt_workDir uc, rt_uuidString uc replicaID]"

text \<open>\<open>os.RemoveAll\<close> on the directory; its error is only logged.\<close>

definition reclaimStagingDir :: "('f, 'h) FleetReplicaRuntime \<Rightarrow> uuid \<Rightarrow> ('f, 'h) fleet_world \<Rightarrow> ('f, 'h) fleet_world" where
  "reclaimStagingDir uc replicaID w =
     (if rt_workDir uc = '''' \<or> replicaID = uuid_Nil then w
      else w\<lparr>fw_staging := filter (\<lambda>d. d \<noteq> staging_dir uc replicaID) (fw_staging w)\<rparr>)"

definition markDead ::
  "('f, 'h) FleetReplicaRuntime \<Rightarrow> Replica \<Rightarrow> op_error \<Rightarrow> ('f, 'h) fleet_world \<Rightarrow> unit op_result \<times> ('f, 'h) fleet_world" where
  "markDead uc replica cause w =
     (let dead = replica\<lparr>re_State := ReplicaStateDead, re_Message := rt_errorText uc cause,
                         re_UpdatedAt := rt_now uc (fw_tick w)\<rparr> in
      (Inl cause, reclaimStagingDir uc (re_ID replica) (snd (replicaRepository_Update dead (tick w)))))"

text \<open>What a boot has settled before it touches the image: secrets, nonce, data disk.\<close>

record boot_plan =
  pl_secrets :: "HostSecret list"
  pl_nonce :: string
  pl_volume :: "Volume option"

definition plan_volume ::
  "('f, 'h) FleetReplicaRuntime \<Rightarrow> FleetApp \<Rightarrow> ('f, 'h) fleet_world \<Rightarrow> Volume option op_result \<times> ('f, 'h) fleet_world" where
  "plan_volume uc app w =
     (if rt_volumes uc = None then (Inr None, w)
      else (case on_vols (PrimaryVolume (fa_ID app)) w of
          (Inl e, w1) \<Rightarrow> (Inl e, w1)
        | (Inr None, w1) \<Rightarrow> (Inr None, w1)
        | (Inr (Some vol), w1) \<Rightarrow>
            if vo_Status vol = VolumeStatusRestoring then (Inl (OpFleet ErrVolumeRestoreInProgress), w1)
            else (Inr (Some vol), w1)))"

definition plan_boot ::
  "('f, 'h) FleetReplicaRuntime \<Rightarrow> FleetApp \<Rightarrow> ('f, 'h) fleet_world \<Rightarrow> boot_plan op_result \<times> ('f, 'h) fleet_world" where
  "plan_boot uc app w =
     (case bootSecrets uc app w of
        Inl e \<Rightarrow> (Inl e, w)
      | Inr secrets \<Rightarrow>
          (case (if secrets \<noteq> [] then rt_nonce uc (fw_tick w) else Some '''') of
             None \<Rightarrow> (Inl (OpFleet ErrOther), tick w)
           | Some nonce \<Rightarrow>
               (case plan_volume uc app (tick w) of
                  (Inl e, w1) \<Rightarrow> (Inl e, w1)
                | (Inr vol, w1) \<Rightarrow> (Inr \<lparr>pl_secrets = secrets, pl_nonce = nonce, pl_volume = vol\<rparr>, w1))))"

definition volume_path :: "Volume option \<Rightarrow> string" where
  "volume_path v = (case v of None \<Rightarrow> '''' | Some vol \<Rightarrow> vo_BackingPath vol)"

definition volume_mount :: "Volume option \<Rightarrow> string" where
  "volume_mount v = (case v of None \<Rightarrow> '''' | Some vol \<Rightarrow> vo_MountPath vol)"

definition materialize_input ::
  "('f, 'h) FleetReplicaRuntime \<Rightarrow> FleetApp \<Rightarrow> Replica \<Rightarrow> boot_plan \<Rightarrow> ('f, 'h) fleet_world \<Rightarrow> ImageMaterializeInput" where
  "materialize_input uc app replica plan w = \<lparr>
     mi_Registry = '''', mi_Repository = fa_ImageRepository app, mi_Digest = fa_ImageDigest app, mi_ChangeID = '''',
     mi_WorkDir = staging_dir uc (re_ID replica), mi_EnvVars = Map.empty, mi_Mode = ''resident'', mi_TestCommand = '''',
     mi_JobCommand = [], mi_Port = fa_Port app, mi_ExpectSecrets = (pl_secrets plan \<noteq> []),
     mi_BootstrapNonce = pl_nonce plan, mi_DataMountPath = volume_mount (pl_volume plan),
     mi_RegistryPullToken = stored_token (rt_registryTokenStore uc) (fw_pullTokens w) (fa_ID app)\<rparr>"

definition boot_input :: "FleetApp \<Rightarrow> Replica \<Rightarrow> boot_plan \<Rightarrow> string \<Rightarrow> ImageBootInput" where
  "boot_input app replica plan rootfs = \<lparr>
     bi_WorkloadID = re_ID replica, bi_OwnerKind = NetLeaseOwnerReplica, bi_RootfsPath = rootfs,
     bi_VCPU = fa_ResourcesVCPU app, bi_MemoryMB = fa_ResourcesMemMB app, bi_Port = fa_Port app, bi_TimeoutSeconds = 0,
     bi_ExpectSecrets = (pl_secrets plan \<noteq> []), bi_Secrets = pl_secrets plan, bi_BootstrapNonce = pl_nonce plan,
     bi_DataDiskPath = volume_path (pl_volume plan), bi_DataMountPath = volume_mount (pl_volume plan), bi_EgressAllow = []\<rparr>"

definition resident_row :: "FleetApp \<Rightarrow> Replica \<Rightarrow> string \<Rightarrow> ImageResidentResult \<Rightarrow> instant \<Rightarrow> Replica" where
  "resident_row app replica rootfs res now =
     replica\<lparr>re_PID := Some (ir_PID res), re_GuestIP := ir_GuestIP res, re_HostPort := ir_HostPort res,
       re_NetIndex := ir_NetIndex res, re_TapName := ir_TapName res, re_SocketPath := ir_SocketPath res,
       re_RootfsPath := rootfs, re_Port := fa_Port app,
       re_Endpoint := ''http://'' @ ir_GuestIP res @ '':'' @ show_int (fa_Port app),
       re_State := ReplicaStateResident, re_Message := '''', re_UpdatedAt := now\<rparr>"

text \<open>The VM is up: record it, or tear it down again.\<close>

definition commit_boot ::
  "('f, 'h) FleetReplicaRuntime \<Rightarrow> FleetApp \<Rightarrow> Replica \<Rightarrow> boot_plan \<Rightarrow> ('f, 'h) fleet_world \<Rightarrow>
   unit op_result \<times> ('f, 'h) fleet_world" where
  "commit_boot uc app resident plan w =
     (case replicaRepository_Update resident w of
        (Inl err, w1) \<Rightarrow>
          (case on_host (bp_Decommission (rt_booter uc) (replicaDecommissionInput resident)) w1 of
             (Inl derr, w2) \<Rightarrow> (Inl derr, w2)
           | (Inr _, w2) \<Rightarrow> (Inl err, reclaimStagingDir uc (re_ID resident) w2))
      | (Inr _, w1) \<Rightarrow>
          (Inr (),
           case (rt_volumes uc, pl_volume plan) of
             (Some vm, Some _) \<Rightarrow>
               snd (on_vols (AttachTo vm (fa_ID app) (re_ID resident) (rt_now uc (fw_tick w1))) (tick w1))
           | _ \<Rightarrow> w1))"

definition boot_planned ::
  "('f, 'h) FleetReplicaRuntime \<Rightarrow> FleetApp \<Rightarrow> Replica \<Rightarrow> boot_plan \<Rightarrow> ('f, 'h) fleet_world \<Rightarrow>
   unit op_result \<times> ('f, 'h) fleet_world" where
  "boot_planned uc app replica plan w0 =
     (let w = w0\<lparr>fw_staging := staging_dir uc (re_ID replica) # fw_staging w0\<rparr> in
      case on_host (rt_materialize uc (materialize_input uc app replica plan w0)) w of
        (Inl e, w1) \<Rightarrow> markDead uc replica e w1
      | (Inr rootfs, w1) \<Rightarrow>
          (case on_host (bp_BootResident (rt_booter uc) (boot_input app replica plan rootfs)) w1 of
             (Inl e, w2) \<Rightarrow> markDead uc replica e w2
           | (Inr res, w2) \<Rightarrow>
               commit_boot uc app (resident_row app replica rootfs res (rt_now uc (fw_tick w2))) plan (tick w2)))"

definition BootReplica ::
  "('f, 'h) FleetReplicaRuntime \<Rightarrow> uuid \<Rightarrow> ('f, 'h) fleet_world \<Rightarrow> unit op_result \<times> ('f, 'h) fleet_world" where
  "BootReplica uc replicaID w =
     (case replicas_FindByID replicaID w of
        (Inl e, w1) \<Rightarrow> (Inl e, w1)
      | (Inr replica, w1) \<Rightarrow>
          (case requireOwnedReplica (rt_selfHost uc) replica of
             Some e \<Rightarrow> (Inl e, w1)
           | None \<Rightarrow>
               if re_State replica = ReplicaStateResident then (Inr (), w1)
               else (case fleetAppRepository_FindByID (re_AppID replica) w1 of
                   (Inl e, w2) \<Rightarrow> (Inl e, w2)
                 | (Inr app, w2) \<Rightarrow>
                     let booting = replica\<lparr>re_State := ReplicaStateBooting, re_Message := '''',
                                           re_UpdatedAt := rt_now uc (fw_tick w2)\<rparr> in
                     (case replicaRepository_Update booting (tick w2) of
                        (Inl e, w3) \<Rightarrow> (Inl e, w3)
                      | (Inr _, w3) \<Rightarrow>
                          (case plan_boot uc app w3 of
                             (Inl e, w4) \<Rightarrow> markDead uc booting e w4
                           | (Inr plan, w4) \<Rightarrow> boot_planned uc app booting plan w4)))))"

definition has_artifacts :: "Replica \<Rightarrow> bool" where
  "has_artifacts r \<longleftrightarrow> re_PID r \<noteq> None \<or> re_SocketPath r \<noteq> '''' \<or> re_TapName r \<noteq> '''' \<or> 0 < re_NetIndex r"

definition DecommissionReplica ::
  "('f, 'h) FleetReplicaRuntime \<Rightarrow> uuid \<Rightarrow> ('f, 'h) fleet_world \<Rightarrow> unit op_result \<times> ('f, 'h) fleet_world" where
  "DecommissionReplica uc replicaID w =
     (case replicas_FindByID replicaID w of
        (Inl e, w1) \<Rightarrow> (if e = OpFleet ErrReplicaNotFound then Inr () else Inl e, w1)
      | (Inr replica, w1) \<Rightarrow>
          (case requireOwnedReplica (rt_selfHost uc) replica of
             Some e \<Rightarrow> (Inl e, w1)
           | None \<Rightarrow>
               (case (if has_artifacts replica
                      then on_host (bp_Decommission (rt_booter uc) (replicaDecommissionInput replica)) w1
                      else (Inr (), w1)) of
                  (Inl e, w2) \<Rightarrow> (Inl e, w2)
                | (Inr _, w2) \<Rightarrow>
                    let w3 = (case rt_volumes uc of
                                None \<Rightarrow> w2
                              | Some vm \<Rightarrow> snd (on_vols (DetachFrom vm (re_AppID replica) (rt_now uc (fw_tick w2))) (tick w2)))
                    in replicaRepository_Delete (re_ID replica) (reclaimStagingDir uc (re_ID replica) w3))))"

text \<open>The probe.  It also updates the caller's copy of the row, before the write that may fail.\<close>

definition replica_alive :: "('f, 'h) FleetReplicaRuntime \<Rightarrow> Replica \<Rightarrow> 'h \<Rightarrow> bool" where
  "replica_alive uc replica h \<longleftrightarrow>
     (case re_PID replica of None \<Rightarrow> False | Some pid \<Rightarrow> rt_procAlive uc pid h) \<and>
     (re_GuestIP replica \<noteq> '''' \<and> 0 < re_Port replica \<longrightarrow> rt_dialGuest uc (re_GuestIP replica) (re_Port replica) h)"

definition RefreshHealth ::
  "('f, 'h) FleetReplicaRuntime \<Rightarrow> Replica \<Rightarrow> ('f, 'h) fleet_world \<Rightarrow> bool op_result \<times> Replica \<times> ('f, 'h) fleet_world" where
  "RefreshHealth uc replica w =
     (case requireOwnedReplica (rt_selfHost uc) replica of
        Some e \<Rightarrow> (Inl e, replica, w)
      | None \<Rightarrow>
          if re_State replica \<noteq> ReplicaStateResident then (Inr False, replica, w)
          else if replica_alive uc replica (fw_host w) then (Inr True, replica, w)
          else
            let dead = replica\<lparr>re_State := ReplicaStateDead, re_Message := ''vm process exited'',
                               re_UpdatedAt := rt_now uc (fw_tick w)\<rparr> in
            (case replicaRepository_Update dead (tick w) of
               (Inl e, w1) \<Rightarrow> (Inl e, dead, w1)
             | (Inr _, w1) \<Rightarrow> (Inr False, dead, w1)))"

end
