(* ===== verification/Ingress_Names.thy ===== *)
theory Ingress_Names
  imports Fleet_Entities "HOL-Library.Char_ord"
begin

text \<open>
  The platform-issued host names of \<open>internal/usecase/fleet_orchestrator.go\<close>: the slug of a free-text
  label, the DNS label held inside 63 octets, and the host of an app.  SHA-256 (\<open>crypto/sha256\<close>) is
  written out on 32-bit words.
\<close>

section \<open>SHA-256\<close>

definition sha_K :: "32 word list" where
  "sha_K =
     [1116352408, 1899447441, 3049323471, 3921009573, 961987163, 1508970993, 2453635748, 2870763221,
      3624381080, 310598401, 607225278, 1426881987, 1925078388, 2162078206, 2614888103, 3248222580,
      3835390401, 4022224774, 264347078, 604807628, 770255983, 1249150122, 1555081692, 1996064986,
      2554220882, 2821834349, 2952996808, 3210313671, 3336571891, 3584528711, 113926993, 338241895,
      666307205, 773529912, 1294757372, 1396182291, 1695183700, 1986661051, 2177026350, 2456956037,
      2730485921, 2820302411, 3259730800, 3345764771, 3516065817, 3600352804, 4094571909, 275423344,
      430227734, 506948616, 659060556, 883997877, 958139571, 1322822218, 1537002063, 1747873779,
      1955562222, 2024104815, 2227730452, 2361852424, 2428436474, 2756734187, 3204031479, 3329325298]"

definition sha_init :: "32 word list" where
  "sha_init = [1779033703, 3144134277, 1013904242, 2773480762, 1359893119, 2600822924, 528734635, 1541459225]"

definition rotr :: "nat \<Rightarrow> 32 word \<Rightarrow> 32 word" where
  "rotr n x = drop_bit n x OR push_bit (32 - n) x"

definition sha_pad :: "8 word list \<Rightarrow> 8 word list" where
  "sha_pad m =
     (let n = length m in
      m @ [0x80] @ replicate ((119 - n mod 64) mod 64) 0
        @ map (\<lambda>i. word_of_nat (8 * n div 256 ^ i)) (rev [0..<8]))"

fun be_words :: "8 word list \<Rightarrow> 32 word list" where
  "be_words (a # b # c # d # r) =
     (push_bit 24 (ucast a) OR push_bit 16 (ucast b) OR push_bit 8 (ucast c) OR ucast d) # be_words r"
| "be_words _ = []"

text \<open>The message schedule, newest word first.\<close>

fun sha_extend :: "nat \<Rightarrow> 32 word list \<Rightarrow> 32 word list" where
  "sha_extend 0 w = w"
| "sha_extend (Suc k) w =
     (let x = w ! 14; y = w ! 1;
          s0 = rotr 7 x XOR rotr 18 x XOR drop_bit 3 x;
          s1 = rotr 17 y XOR rotr 19 y XOR drop_bit 10 y in
      sha_extend k ((w ! 15 + s0 + w ! 6 + s1) # w))"

fun sha_round :: "32 word \<times> 32 word \<Rightarrow> 32 word list \<Rightarrow> 32 word list" where
  "sha_round (k, w) [a, b, c, d, e, f, g, h] =
     (let s1 = rotr 6 e XOR rotr 11 e XOR rotr 25 e;
          ch = (e AND f) XOR (NOT e AND g);
          t1 = h + s1 + ch + k + w;
          s0 = rotr 2 a XOR rotr 13 a XOR rotr 22 a;
          mj = (a AND b) XOR (a AND c) XOR (b AND c) in
      [t1 + (s0 + mj), a, b, c, d + t1, e, f, g])"
| "sha_round _ st = st"

definition sha_block :: "32 word list \<Rightarrow> 32 word list \<Rightarrow> 32 word list" where
  "sha_block h blk =
     map2 (+) h (fold sha_round (zip sha_K (rev (sha_extend 48 (rev blk)))) h)"

fun sha_blocks :: "nat \<Rightarrow> 32 word list \<Rightarrow> 32 word list \<Rightarrow> 32 word list" where
  "sha_blocks 0 ws h = h"
| "sha_blocks (Suc n) ws h = sha_blocks n (drop 16 ws) (sha_block h (take 16 ws))"

definition be_bytes :: "32 word \<Rightarrow> 8 word list" where
  "be_bytes w = map (\<lambda>i. ucast (drop_bit (8 * i) w)) [3, 2, 1, 0]"

definition Sum256 :: "8 word list \<Rightarrow> 8 word list" where
  "Sum256 m = (let ws = be_words (sha_pad m) in concat (map be_bytes (sha_blocks (length ws div 16) ws sha_init)))"

definition hex_digit :: "nat \<Rightarrow> char" where "hex_digit n = ''0123456789abcdef'' ! n"

definition hex_EncodeToString :: "8 word list \<Rightarrow> string" where
  "hex_EncodeToString bs = concat (map (\<lambda>b. [hex_digit (unat b div 16), hex_digit (unat b mod 16)]) bs)"

definition string_bytes :: "string \<Rightarrow> 8 word list" where
  "string_bytes s = map (\<lambda>c. word_of_nat (of_char c)) s"

section \<open>Slugs and labels\<close>

function trim_left :: "string \<Rightarrow> string" where
  "trim_left s = (if s = [] \<or> space_len s = 0 then s else trim_left (drop (space_len s) s))"
  by auto
termination by (relation "measure length") auto

declare trim_left.simps [simp del]

text \<open>The bytes of the white-space rune a string ends in.\<close>

definition last_space_len :: "string \<Rightarrow> nat" where
  "last_space_len s =
     (case find (\<lambda>n. n \<le> length s \<and> space_len (drop (length s - n) s) = n) [1, 2, 3] of None \<Rightarrow> 0 | Some n \<Rightarrow> n)"

function trim_right :: "string \<Rightarrow> string" where
  "trim_right s = (if s = [] \<or> last_space_len s = 0 then s else trim_right (take (length s - last_space_len s) s))"
  by auto
termination by (relation "measure length") auto

declare trim_right.simps [simp del]

definition TrimSpace :: "string \<Rightarrow> string" where "TrimSpace s = trim_right (trim_left s)"

text \<open>\<open>strings.ToLower\<close> as the slug loop sees it.  Of the letters outside ASCII exactly two have an ASCII
  lower case, the Kelvin sign (\<open>k\<close>) and the dotted capital I (\<open>i\<close>); every other one stays outside ASCII
  and its bytes stay what they are to the loop, separators.\<close>

fun ToLower :: "string \<Rightarrow> string" where
  "ToLower [] = []"
| "ToLower (c # s) =
     (if take 3 (c # s) = [CHR 0xE2, CHR 0x84, CHR 0xAA] then CHR ''k'' # ToLower (drop 2 s)
      else if take 2 (c # s) = [CHR 0xC4, CHR 0xB0] then CHR ''i'' # ToLower (drop 1 s)
      else ascii_lower c # ToLower s)"

definition slug_char :: "char \<Rightarrow> bool" where
  "slug_char c \<longleftrightarrow> CHR ''a'' \<le> c \<and> c \<le> CHR ''z'' \<or> CHR ''0'' \<le> c \<and> c \<le> CHR ''9''"

fun slug_loop :: "string \<Rightarrow> string \<Rightarrow> bool \<Rightarrow> string" where
  "slug_loop [] b prevDash = b"
| "slug_loop (r # s) b prevDash =
     (if slug_char r then slug_loop s (b @ [r]) False
      else if \<not> prevDash \<and> b \<noteq> [] then slug_loop s (b @ [CHR ''-'']) True
      else slug_loop s b prevDash)"

definition trim_right_dash :: "string \<Rightarrow> string" where
  "trim_right_dash s = rev (dropWhile (\<lambda>c. c = CHR ''-'') (rev s))"

definition trim_dash :: "string \<Rightarrow> string" where
  "trim_dash s = trim_right_dash (dropWhile (\<lambda>c. c = CHR ''-'') s)"

definition sanitizeSlug :: "string \<Rightarrow> string" where
  "sanitizeSlug s = trim_dash (slug_loop (ToLower (TrimSpace s)) [] False)"

definition dnsLabelMaxLen :: nat where "dnsLabelMaxLen = 63"

definition hostLabelHashLen :: nat where "hostLabelHashLen = 8"

definition dnsLabel :: "string \<Rightarrow> string" where
  "dnsLabel label =
     (if length label \<le> dnsLabelMaxLen then label
      else
        let sum = Sum256 (string_bytes label);
            suffix = take hostLabelHashLen (hex_EncodeToString sum);
            prefix = trim_right_dash (take (dnsLabelMaxLen - 1 - hostLabelHashLen) label) in
        prefix @ ''-'' @ suffix)"

definition hostForApp :: "string \<Rightarrow> FleetApp \<Rightarrow> string" where
  "hostForApp ingressDomain app =
     dnsLabel (sanitizeSlug (fa_ComponentID app) @ ''-'' @ sanitizeSlug (fa_Env app)) @ ''.'' @ ingressDomain"

definition trim_prefix :: "string \<Rightarrow> string \<Rightarrow> string" where
  "trim_prefix p s = (if take (length p) s = p then drop (length p) s else s)"

definition stripScheme :: "string \<Rightarrow> string" where
  "stripScheme endpoint = trim_prefix ''https://'' (trim_prefix ''http://'' endpoint)"

section \<open>The shape of a digest\<close>

lemma length_sha_round: "length (sha_round kw st) = length st"
  by (cases "(kw, st)" rule: sha_round.cases) (simp_all add: Let_def)

lemma length_fold_sha_round: "length (fold sha_round kws st) = length st"
  by (induction kws arbitrary: st) (simp_all add: length_sha_round)

lemma length_sha_blocks: "length (sha_blocks n ws h) = length h"
  by (induction n ws h rule: sha_blocks.induct) (simp_all add: sha_block_def length_fold_sha_round)

lemma length_Sum256: "length (Sum256 m) = 32"
proof -
  have "length (concat (map be_bytes ws)) = 4 * length ws" for ws
    by (induction ws) (simp_all add: be_bytes_def)
  then show ?thesis by (simp add: Sum256_def Let_def length_sha_blocks sha_init_def)
qed

lemma length_hex: "length (hex_EncodeToString bs) = 2 * length bs"
  by (induction bs) (simp_all add: hex_EncodeToString_def)

lemma hex_digit_slug:
  assumes "n < 16"
  shows "slug_char (hex_digit n)"
proof -
  have "\<forall>n < 16. slug_char (hex_digit n)" by code_simp
  then show ?thesis using assms by blast
qed

lemma hex_slug: "c \<in> set (hex_EncodeToString bs) \<Longrightarrow> slug_char c"
proof -
  assume "c \<in> set (hex_EncodeToString bs)"
  then obtain b :: "8 word" where "c = hex_digit (unat b div 16) \<or> c = hex_digit (unat b mod 16)"
    by (auto simp: hex_EncodeToString_def)
  moreover have "unat b div 16 < 16" using unsigned_less [of b, where 'a = nat] by simp
  ultimately show ?thesis using hex_digit_slug by force
qed

section \<open>Slugs\<close>

definition label_char :: "char \<Rightarrow> bool" where "label_char c \<longleftrightarrow> slug_char c \<or> c = CHR ''-''"

abbreviation dashes_apart :: "string \<Rightarrow> bool" where
  "dashes_apart \<equiv> successively (\<lambda>a b. \<not> (a = CHR ''-'' \<and> b = CHR ''-''))"

definition is_slug :: "string \<Rightarrow> bool" where
  "is_slug t \<longleftrightarrow> (\<forall>c \<in> set t. label_char c) \<and> (t \<noteq> [] \<longrightarrow> hd t \<noteq> CHR ''-'' \<and> last t \<noteq> CHR ''-'') \<and> dashes_apart t"

lemma slug_char_dash [simp]: "\<not> slug_char (CHR ''-'')"
  by code_simp

lemma slug_loop_shape:
  assumes "\<forall>c \<in> set b. label_char c" "b \<noteq> [] \<longrightarrow> hd b \<noteq> CHR ''-''" "dashes_apart b"
    and "d \<longleftrightarrow> b \<noteq> [] \<and> last b = CHR ''-''"
  shows "(\<forall>c \<in> set (slug_loop s b d). label_char c) \<and>
         (slug_loop s b d \<noteq> [] \<longrightarrow> hd (slug_loop s b d) \<noteq> CHR ''-'') \<and> dashes_apart (slug_loop s b d)"
  using assms
proof (induction s b d rule: slug_loop.induct)
  case (1 b d)
  then show ?case by simp
next
  case (2 r s b d)
  consider (keep) "slug_char r" | (dash) "\<not> slug_char r" "\<not> d" "b \<noteq> []" | (skip) "\<not> slug_char r" "d \<or> b = []"
    by blast
  then show ?case
  proof cases
    case keep
    then have "r \<noteq> CHR ''-''" by auto
    with keep 2 show ?thesis by (simp add: label_char_def successively_append_iff hd_append)
  next
    case dash
    with 2 show ?thesis by (simp add: label_char_def successively_append_iff)
  next
    case skip
    with 2 show ?thesis by auto
  qed
qed

lemma trim_right_dash_prefix: "\<exists>n. s = trim_right_dash s @ replicate n (CHR ''-'')"
proof -
  have "rev s = takeWhile (\<lambda>c. c = CHR ''-'') (rev s) @ dropWhile (\<lambda>c. c = CHR ''-'') (rev s)"
    by simp
  moreover have "takeWhile (\<lambda>c. c = CHR ''-'') (rev s)
      = replicate (length (takeWhile (\<lambda>c. c = CHR ''-'') (rev s))) (CHR ''-'')"
    by (rule replicate_length_same [symmetric]) (auto dest: set_takeWhileD)
  ultimately show ?thesis
    by (metis rev_append rev_replicate rev_rev_ident trim_right_dash_def)
qed

lemma trim_right_dash_last: "trim_right_dash s \<noteq> [] \<Longrightarrow> last (trim_right_dash s) \<noteq> CHR ''-''"
  by (metis (mono_tags, lifting) hd_dropWhile last_rev rev_is_Nil_conv trim_right_dash_def)

lemma trim_right_dash_nonempty:
  assumes "s \<noteq> []" "hd s \<noteq> CHR ''-''"
  shows "trim_right_dash s \<noteq> []" "hd (trim_right_dash s) = hd s"
proof -
  from trim_right_dash_prefix obtain n where n: "s = trim_right_dash s @ replicate n (CHR ''-'')" by blast
  show 1: "trim_right_dash s \<noteq> []"
  proof
    assume "trim_right_dash s = []"
    then have "s = replicate n (CHR ''-'')" using n by simp
    then show False using assms by (cases n) auto
  qed
  show "hd (trim_right_dash s) = hd s" using n 1 by (metis hd_append2)
qed

lemma is_slug_trim:
  assumes "\<forall>c \<in> set s. label_char c" "s \<noteq> [] \<longrightarrow> hd s \<noteq> CHR ''-''" "dashes_apart s"
  shows "is_slug (trim_dash s)"
proof -
  from trim_right_dash_prefix obtain n where n: "s = trim_right_dash s @ replicate n (CHR ''-'')" by blast
  have d: "dropWhile (\<lambda>c. c = CHR ''-'') s = s" using assms(2) by (cases s) auto
  have "dashes_apart (trim_right_dash s)" using assms(3) n by (metis successively_append_iff)
  moreover have "\<forall>c \<in> set (trim_right_dash s). label_char c" using assms(1) n by (metis Un_iff set_append)
  moreover have "trim_right_dash s \<noteq> [] \<longrightarrow> hd (trim_right_dash s) \<noteq> CHR ''-''"
    using assms(2) n by (metis append_is_Nil_conv hd_append2)
  ultimately show ?thesis
    by (simp add: is_slug_def trim_dash_def d trim_right_dash_last)
qed

lemma sanitizeSlug_is_slug: "is_slug (sanitizeSlug s)"
  unfolding sanitizeSlug_def by (rule is_slug_trim) (use slug_loop_shape [of "[]" False] in auto)

lemma label_char_code: "label_char c \<Longrightarrow> (of_char c :: nat) \<in> {45} \<union> {48..57} \<union> {97..122}"
  by (auto simp: label_char_def slug_char_def less_eq_char_def)

lemma space_len_label:
  assumes "label_char c"
  shows "space_len (c # s) = 0"
proof -
  let ?n = "of_char c :: nat"
  have "?n \<noteq> 0x20" "\<not> ?n \<le> 13" "?n \<noteq> 0xC2" "?n \<noteq> 0xE1" "?n \<noteq> 0xE2" "?n \<noteq> 0xE3"
    using label_char_code [OF assms] by auto
  then show ?thesis by (simp add: space_len_def Let_def)
qed

lemma trim_left_label:
  assumes "\<forall>c \<in> set s. label_char c"
  shows "trim_left s = s"
proof (cases s)
  case Nil
  then show ?thesis by (simp add: trim_left.simps [of "[]"])
next
  case (Cons c t)
  then show ?thesis using assms by (simp add: trim_left.simps [of "c # t"] space_len_label)
qed

lemma last_space_len_label:
  assumes "\<forall>c \<in> set s. label_char c"
  shows "last_space_len s = 0"
proof -
  have "space_len (drop k s) = 0" if "k < length s" for k
  proof -
    have "drop k s = s ! k # drop (Suc k) s" using that by (rule Cons_nth_drop_Suc [symmetric])
    then show ?thesis using assms that by (simp add: space_len_label)
  qed
  then have "\<not> (n \<le> length s \<and> space_len (drop (length s - n) s) = n)" if "0 < n" for n
    using that by (metis diff_less less_le_trans nat_neq_iff)
  then show ?thesis by (simp add: last_space_len_def)
qed

lemma TrimSpace_label:
  assumes "\<forall>c \<in> set s. label_char c"
  shows "TrimSpace s = s"
  using assms by (simp add: TrimSpace_def trim_left_label trim_right.simps [of s] last_space_len_label)

lemma ToLower_label: "\<forall>c \<in> set s. label_char c \<Longrightarrow> ToLower s = s"
proof (induction s rule: ToLower.induct)
  case (2 c s)
  then have "label_char c" by simp
  note code = label_char_code [OF this]
  have "c \<noteq> CHR 0xE2" "c \<noteq> CHR 0xC4" using code by auto
  moreover have "ascii_lower c = c" using code by (auto simp: ascii_lower_def)
  ultimately show ?case using 2 by simp
qed simp

lemma slug_loop_id:
  assumes "\<forall>c \<in> set t. label_char c" "dashes_apart t" "t \<noteq> [] \<and> hd t = CHR ''-'' \<longrightarrow> \<not> d \<and> b \<noteq> []"
  shows "slug_loop t b d = b @ t"
  using assms
proof (induction t arbitrary: b d)
  case (Cons r t)
  then have r: "slug_char r \<or> r = CHR ''-''" by (simp add: label_char_def)
  show ?case
  proof (cases "slug_char r")
    case True
    with Cons show ?thesis by (cases t) auto
  next
    case False
    with r have "r = CHR ''-''" by simp
    with False Cons show ?thesis by (cases t) auto
  qed
qed simp

lemma trim_dash_slug: "is_slug t \<Longrightarrow> trim_dash t = t"
proof -
  assume t: "is_slug t"
  have id: "dropWhile (\<lambda>c. c = CHR ''-'') u = u" if "u \<noteq> [] \<longrightarrow> hd u \<noteq> CHR ''-''" for u
    using that by (cases u) auto
  have "dropWhile (\<lambda>c. c = CHR ''-'') t = t" using t by (intro id) (simp add: is_slug_def)
  moreover have "dropWhile (\<lambda>c. c = CHR ''-'') (rev t) = rev t"
    using t by (intro id) (simp add: is_slug_def hd_rev)
  ultimately show ?thesis by (simp add: trim_dash_def trim_right_dash_def)
qed

lemma sanitizeSlug_id: "is_slug t \<Longrightarrow> sanitizeSlug t = t"
proof -
  assume t: "is_slug t"
  then have c: "\<forall>c \<in> set t. label_char c" and d: "dashes_apart t" and h: "t \<noteq> [] \<longrightarrow> hd t \<noteq> CHR ''-''"
    by (simp_all add: is_slug_def)
  have "slug_loop t [] False = t" using slug_loop_id [OF c d, of False "[]"] h by auto
  then show ?thesis by (simp add: sanitizeSlug_def TrimSpace_label [OF c] ToLower_label [OF c] trim_dash_slug [OF t])
qed

text \<open>Claim C33.  Slugs: for every byte string the slug uses only \<open>[a-z0-9-]\<close>, neither starts nor ends
  with a dash and has no two dashes in a row; and the strings that are their own slug are exactly
  the strings of that shape, so slugging twice changes nothing.\<close>

theorem sanitizeSlug_projection:
  "is_slug (sanitizeSlug s) \<and> sanitizeSlug (sanitizeSlug s) = sanitizeSlug s \<and> (sanitizeSlug t = t \<longleftrightarrow> is_slug t)"
  using sanitizeSlug_is_slug [of s] sanitizeSlug_is_slug [of t] sanitizeSlug_id by metis

section \<open>Labels and hosts\<close>


definition label_suffix :: "string \<Rightarrow> string" where
  "label_suffix l = take 8 (hex_EncodeToString (Sum256 (string_bytes l)))"

lemma label_suffix_shape:
  "length (label_suffix l) = 8" "\<forall>c \<in> set (label_suffix l). slug_char c"
  by (auto simp: label_suffix_def length_hex length_Sum256 dest: in_set_takeD hex_slug)

lemma dnsLabel_long:
  "63 < length l \<Longrightarrow> dnsLabel l = trim_right_dash (take 54 l) @ ''-'' @ label_suffix l"
  by (simp add: dnsLabel_def dnsLabelMaxLen_def hostLabelHashLen_def label_suffix_def Let_def)

lemma dnsLabel_short: "length l \<le> 63 \<Longrightarrow> dnsLabel l = l"
  by (simp add: dnsLabel_def dnsLabelMaxLen_def)

lemma set_trim_right_dash: "set (trim_right_dash s) \<subseteq> set s"
  unfolding trim_right_dash_def using set_dropWhileD by fastforce

lemma length_trim_right_dash: "length (trim_right_dash s) \<le> length s"
  by (metis length_rev length_dropWhile_le trim_right_dash_def)

lemma dnsLabel_length: "length (dnsLabel l) \<le> 63"
proof (cases "length l \<le> 63")
  case False
  have "length (trim_right_dash (take 54 l)) \<le> 54"
    using length_trim_right_dash [of "take 54 l"] by simp
  with False show ?thesis by (simp add: dnsLabel_long label_suffix_shape)
qed (simp add: dnsLabel_short)

lemma dnsLabel_chars:
  assumes "\<forall>c \<in> set l. label_char c"
  shows "\<forall>c \<in> set (dnsLabel l). label_char c"
proof (cases "length l \<le> 63")
  case False
  have "set (trim_right_dash (take 54 l)) \<subseteq> set l" using set_trim_right_dash set_take_subset by fastforce
  then show ?thesis
    using False assms label_suffix_shape(2) [of l] by (auto simp: dnsLabel_long label_char_def)
qed (simp add: dnsLabel_short assms)

lemma dnsLabel_last:
  assumes "63 < length l"
  shows "last (dnsLabel l) \<noteq> CHR ''-''"
proof -
  have "label_suffix l \<noteq> []" using label_suffix_shape(1) [of l] by auto
  moreover from this have "slug_char (last (label_suffix l))" using label_suffix_shape(2) [of l] by simp
  ultimately show ?thesis using assms by (auto simp: dnsLabel_long)
qed

text \<open>The first character survives the truncation: the cut prefix is trimmed from its end only, and it
  starts with a letter or digit, or with a dash and then a letter or digit.\<close>

lemma dnsLabel_hd:
  assumes "l \<noteq> []" "hd l \<noteq> CHR ''-'' \<or> hd (tl l) \<noteq> CHR ''-''"
  shows "hd (dnsLabel l) = hd l"
proof (cases "length l \<le> 63")
  case False
  then obtain a b r where l: "l = a # b # r" by (cases l; cases "tl l") auto
  from trim_right_dash_prefix obtain n where n: "take 54 l = trim_right_dash (take 54 l) @ replicate n (CHR ''-'')"
    by blast
  have "trim_right_dash (take 54 l) \<noteq> []"
  proof
    assume "trim_right_dash (take 54 l) = []"
    then have "\<forall>c \<in> set (take 54 l). c = CHR ''-''" using n by (metis append_Nil in_set_replicate)
    then show False using l assms(2) by simp
  qed
  moreover from this have "hd (trim_right_dash (take 54 l)) = hd (take 54 l)" using n by (metis hd_append2)
  ultimately show ?thesis using False l by (simp add: dnsLabel_long)
qed (simp add: dnsLabel_short)

text \<open>Claim C29.  The host of an app is a label and the ingress domain; whatever the component id and the
  environment are, the label has at least one and at most 63 octets, all of \<open>[a-z0-9-]\<close>.  It starts with a dash exactly
  when the component id has an empty slug, and ends with one exactly when the environment has an empty slug and
  nothing was cut off.\<close>

theorem hostForApp_label:
  "\<exists>label. hostForApp ingressDomain app = label @ ''.'' @ ingressDomain \<and>
     label \<noteq> [] \<and> length label \<le> 63 \<and> list_all label_char label \<and>
     (hd label = CHR ''-'' \<longleftrightarrow> sanitizeSlug (fa_ComponentID app) = []) \<and>
     (last label = CHR ''-'' \<longleftrightarrow> sanitizeSlug (fa_Env app) = [] \<and> length (sanitizeSlug (fa_ComponentID app)) \<le> 62)"
proof -
  define c e where "c = sanitizeSlug (fa_ComponentID app)" and "e = sanitizeSlug (fa_Env app)"
  let ?l = "c @ ''-'' @ e"
  have c: "is_slug c" and e: "is_slug e" by (simp_all add: c_def e_def sanitizeSlug_is_slug)
  have chars: "\<forall>x \<in> set ?l. label_char x" using c e by (auto simp: is_slug_def label_char_def)
  have h: "hd ?l \<noteq> CHR ''-'' \<or> hd (tl ?l) \<noteq> CHR ''-'' \<or> ?l = ''-''"
    using c e by (cases c; cases e) (auto simp: is_slug_def)
  have hd: "hd (dnsLabel ?l) = hd ?l"
  proof (cases "?l = ''-''")
    case True
    then show ?thesis by (simp add: dnsLabel_short)
  next
    case False
    then show ?thesis using h by (intro dnsLabel_hd) auto
  qed
  have hd_iff: "hd (dnsLabel ?l) = CHR ''-'' \<longleftrightarrow> c = []" using c hd by (auto simp: is_slug_def hd_append)
  have last_iff: "last (dnsLabel ?l) = CHR ''-'' \<longleftrightarrow> e = [] \<and> length c \<le> 62"
  proof (cases "length ?l \<le> 63")
    case True
    then show ?thesis using e by (auto simp: dnsLabel_short is_slug_def)
  next
    case False
    then show ?thesis using dnsLabel_last [of ?l] by auto
  qed
  have "dnsLabel ?l \<noteq> []" by (cases "length ?l \<le> 63") (simp_all add: dnsLabel_short dnsLabel_long)
  moreover have "hostForApp ingressDomain app = dnsLabel ?l @ ''.'' @ ingressDomain" by (simp add: hostForApp_def c_def e_def)
  ultimately show ?thesis
    using dnsLabel_length [of ?l] dnsLabel_chars [OF chars] hd_iff last_iff
    unfolding c_def [symmetric] e_def [symmetric] list_all_iff by blast
qed

end
