(* ===== verification/Ext4_Probe.thy ===== *)
theory Ext4_Probe
  imports Prelude
begin

unbundle bit_operations_syntax

text \<open>
  The superblock probe of \<open>internal/usecase/fleet_volume_ext4_probe.go\<close>: the decision whether a backing
  file could be mounted, on the bytes of its primary superblock.  The integers keep their Go widths; the
  verdict and the reported size are compared with unbounded arithmetic.
\<close>

datatype ext4Verdict = ext4Mountable | ext4NoSuperblock | ext4Truncated

fun ext4Verdict_reason :: "ext4Verdict \<Rightarrow> string" where
  "ext4Verdict_reason ext4NoSuperblock = ''no-ext4-superblock''"
| "ext4Verdict_reason ext4Truncated = ''filesystem-larger-than-file''"
| "ext4Verdict_reason ext4Mountable = ''mountable''"

definition ext4SuperblockOffset :: int where "ext4SuperblockOffset = 1024"

definition ext4SuperblockLen :: int where "ext4SuperblockLen = 1024"

definition ext4OffBlocksCountLo :: nat where "ext4OffBlocksCountLo = 4"

definition ext4OffLogBlockSize :: nat where "ext4OffLogBlockSize = 24"

definition ext4OffMagic :: nat where "ext4OffMagic = 56"

definition ext4OffBlocksCountHi :: nat where "ext4OffBlocksCountHi = 336"

definition ext4Magic :: "16 word" where "ext4Magic = 61267"

definition ext4MaxLogBlockSize :: "32 word" where "ext4MaxLogBlockSize = 6"

definition ext4MinPlausibleBytes :: int where
  "ext4MinPlausibleBytes = ext4SuperblockOffset + ext4SuperblockLen"

definition maxInt64 :: int where "maxInt64 = 9223372036854775807"

text \<open>\<open>binary.LittleEndian\<close> at an offset: the caller has checked that the bytes are there.\<close>

definition le16 :: "8 word list \<Rightarrow> nat \<Rightarrow> 16 word" where
  "le16 b i = ucast (b ! i) OR push_bit 8 (ucast (b ! (i + 1)))"

definition le32 :: "8 word list \<Rightarrow> nat \<Rightarrow> 32 word" where
  "le32 b i = ucast (b ! i) OR push_bit 8 (ucast (b ! (i + 1))) OR push_bit 16 (ucast (b ! (i + 2)))
     OR push_bit 24 (ucast (b ! (i + 3)))"

definition saturatingBytes :: "64 word \<Rightarrow> 64 word \<Rightarrow> int" where
  "saturatingBytes blocks blockSize =
     (if word_of_int maxInt64 div blockSize < blocks then maxInt64 else sint (blocks * blockSize))"

definition superblock_blocks :: "8 word list \<Rightarrow> 64 word" where
  "superblock_blocks sb =
     ucast (le32 sb ext4OffBlocksCountLo) OR push_bit 32 (ucast (le32 sb ext4OffBlocksCountHi))"

definition parseExt4Superblock :: "8 word list \<Rightarrow> int \<Rightarrow> ext4Verdict \<times> int" where
  "parseExt4Superblock sb fileBytes =
     (if fileBytes < ext4MinPlausibleBytes \<or> length sb < ext4OffBlocksCountHi + 4 then (ext4NoSuperblock, 0)
      else if le16 sb ext4OffMagic \<noteq> ext4Magic then (ext4NoSuperblock, 0)
      else
        let logBlockSize = le32 sb ext4OffLogBlockSize in
        if ext4MaxLogBlockSize < logBlockSize then (ext4Mountable, 0)
        else
          let blockSize = push_bit (unat logBlockSize) (1024 :: 64 word);
              blocks = superblock_blocks sb in
          if blocks = 0 then (ext4Mountable, 0)
          else if word_of_int fileBytes div blockSize < blocks
            then (ext4Truncated, saturatingBytes blocks blockSize)
          else (ext4Mountable, sint (blocks * blockSize)))"

text \<open>What the file answers: \<open>None\<close> when it cannot be opened, otherwise the bytes one \<open>ReadAt\<close> at the
  superblock's offset delivers.  An error result is \<open>None\<close>.\<close>

definition probeExt4Mountable :: "8 word list option \<Rightarrow> int \<Rightarrow> (ext4Verdict \<times> int) option" where
  "probeExt4Mountable readAt fileBytes =
     (if fileBytes < ext4MinPlausibleBytes then Some (parseExt4Superblock [] fileBytes)
      else case readAt of
        None \<Rightarrow> None
      | Some buf \<Rightarrow> if int (length buf) < ext4SuperblockLen then None else Some (parseExt4Superblock buf fileBytes))"

section \<open>The reference in unbounded arithmetic\<close>

definition byte_at :: "8 word list \<Rightarrow> nat \<Rightarrow> int" where "byte_at sb i = uint (sb ! i)"

definition field16 :: "8 word list \<Rightarrow> nat \<Rightarrow> int" where
  "field16 sb i = byte_at sb i + 256 * byte_at sb (i + 1)"

definition field32 :: "8 word list \<Rightarrow> nat \<Rightarrow> int" where
  "field32 sb i = field16 sb i + 65536 * field16 sb (i + 2)"

definition claimed_bytes :: "8 word list \<Rightarrow> int" where
  "claimed_bytes sb = (field32 sb 4 + 2 ^ 32 * field32 sb 336) * (1024 * 2 ^ nat (field32 sb 24))"

definition ext4_reference :: "8 word list \<Rightarrow> int \<Rightarrow> ext4Verdict \<times> int" where
  "ext4_reference sb fileBytes =
     (if fileBytes < 2048 \<or> length sb < 340 \<or> field16 sb 56 \<noteq> 61267 then (ext4NoSuperblock, 0)
      else if 6 < field32 sb 24 then (ext4Mountable, 0)
      else if fileBytes < claimed_bytes sb then (ext4Truncated, min maxInt64 (claimed_bytes sb))
      else (ext4Mountable, claimed_bytes sb))"

lemma or_push_bit_add:
  fixes a b :: int
  assumes "0 \<le> a" "a < 2 ^ n"
  shows "a OR push_bit n b = a + 2 ^ n * b"
proof -
  have "a = take_bit n a" using assms by (simp add: take_bit_int_eq_self)
  then have "a AND push_bit n b = take_bit n a AND push_bit n b" by simp
  also have "\<dots> = 0" by (rule bit_eqI) (auto simp: bit_simps)
  finally show ?thesis by (simp add: disjunctive_add_eq_or [symmetric] push_bit_eq_mult mult.commute)
qed

lemma uint_ucast_up:
  assumes "LENGTH('a::len) \<le> LENGTH('b::len)"
  shows "uint (ucast (x :: 'a word) :: 'b word) = uint x"
proof -
  have "uint x < 2 ^ LENGTH('b)"
    using uint_lt2p [of x] power_increasing [OF assms, of "2::int"] by linarith
  then show ?thesis by (simp add: unsigned_ucast_eq take_bit_int_eq_self)
qed

text \<open>Joining the fields of a word: what lies below the shift is added.\<close>

lemma uint_join:
  fixes a b :: "'a::len word"
  assumes "uint a < 2 ^ n" "2 ^ n * uint b < 2 ^ LENGTH('a)"
  shows "uint (a OR push_bit n b) = uint a + 2 ^ n * uint b"
proof -
  have "take_bit LENGTH('a) (push_bit n (uint b)) = push_bit n (uint b)"
    using assms by (simp add: take_bit_int_eq_self push_bit_eq_mult mult.commute)
  then show ?thesis
    using assms by (simp add: unsigned_or_eq unsigned_push_bit_eq or_push_bit_add)
qed

lemma byte_at_range: "0 \<le> byte_at sb i" "byte_at sb i < 256"
  using uint_lt2p [of "sb ! i"] by (simp_all add: byte_at_def)

lemma field16_range: "0 \<le> field16 sb i" "field16 sb i < 65536"
  using byte_at_range [of sb i] byte_at_range [of sb "i + 1"] by (simp_all add: field16_def)

lemma field32_range: "0 \<le> field32 sb i" "field32 sb i < 4294967296"
  using field16_range [of sb i] field16_range [of sb "i + 2"] by (simp_all add: field32_def)

lemma uint_le16: "uint (le16 sb i) = field16 sb i"
  using byte_at_range [of sb i] byte_at_range [of sb "i + 1"]
  unfolding le16_def field16_def byte_at_def
  by (subst uint_join) (simp_all add: uint_ucast_up)

lemma uint_le32: "uint (le32 sb i) = field32 sb i"
proof -
  have e: "le32 sb i = ((ucast (sb ! i) OR push_bit 8 (ucast (sb ! (i + 1)))) OR push_bit 16 (ucast (sb ! (i + 2))))
     OR push_bit 24 (ucast (sb ! (i + 3)))" (is "_ = (?ab OR _) OR _")
    by (simp add: le32_def or.assoc)
  note r = byte_at_range [of sb i] byte_at_range [of sb "i + 1"] byte_at_range [of sb "i + 2"]
    byte_at_range [of sb "i + 3"]
  note u = r [unfolded byte_at_def]
  have ab: "uint ?ab = uint (sb ! i) + 256 * uint (sb ! (i + 1))"
    using u by (subst uint_join) (simp_all add: uint_ucast_up)
  have abc: "uint (?ab OR push_bit 16 (ucast (sb ! (i + 2))))
      = uint ?ab + 65536 * uint (sb ! (i + 2))"
    using u ab by (subst uint_join) (simp_all add: uint_ucast_up)
  have "uint (le32 sb i) = uint (?ab OR push_bit 16 (ucast (sb ! (i + 2)))) + 16777216 * uint (sb ! (i + 3))"
    unfolding e using u ab abc by (subst uint_join) (simp_all add: uint_ucast_up)
  then show ?thesis
    using ab abc by (simp add: field32_def field16_def byte_at_def numeral_eq_Suc)
qed

lemma uint_superblock_blocks: "uint (superblock_blocks sb) = field32 sb 4 + 2 ^ 32 * field32 sb 336"
  unfolding superblock_blocks_def ext4OffBlocksCountLo_def ext4OffBlocksCountHi_def
  using field32_range [of sb 4] field32_range [of sb 336]
  by (subst uint_join) (simp_all add: uint_ucast_up uint_le32)

lemma quotient_below:
  fixes b s f :: int
  assumes "0 < s"
  shows "f div s < b \<longleftrightarrow> f < b * s"
  using pos_imp_zdiv_nonneg_iff [OF assms, of "f - b * s"] assms
  by (simp add: div_mult_self1 [of s f "- b", simplified] linorder_not_le [symmetric] algebra_simps)

text \<open>A product that fits keeps its value through the signed conversion.\<close>

lemma sint_product:
  fixes a b :: "64 word"
  assumes "uint a * uint b \<le> maxInt64"
  shows "sint (a * b) = uint a * uint b"
proof -
  have r: "0 \<le> uint a * uint b" "uint a * uint b < 2 ^ 63" using assms by (simp_all add: maxInt64_def)
  have "a * b = word_of_int (uint a * uint b)" by simp
  then have "sint (a * b) = sint (word_of_int (uint a * uint b) :: 64 word)" by (rule arg_cong)
  then have "sint (a * b) = signed_take_bit 63 (uint a * uint b)" by (simp only: sint_sbintrunc') simp
  also have "\<dots> = uint a * uint b"
    by (rule signed_take_bit_int_eq_self) (use r in linarith)+
  finally show ?thesis .
qed

lemma saturatingBytes_min:
  assumes "0 < uint s"
  shows "saturatingBytes b s = min maxInt64 (uint b * uint s)"
proof -
  have m: "uint (word_of_int maxInt64 :: 64 word) = maxInt64" by (simp add: maxInt64_def)
  have "word_of_int maxInt64 div s < b \<longleftrightarrow> maxInt64 < uint b * uint s"
    by (simp add: word_less_def uint_div m quotient_below assms)
  then show ?thesis by (auto simp: saturatingBytes_def sint_product min_def)
qed

lemma uint_block_size:
  assumes "k \<le> 6"
  shows "uint (push_bit k (1024 :: 64 word)) = 1024 * 2 ^ k"
proof -
  have "(2::int) ^ k \<le> 2 ^ 6" using assms by (intro power_increasing) simp_all
  then have "take_bit 64 (push_bit k (1024::int)) = push_bit k 1024"
    by (intro take_bit_int_eq_self) (simp_all add: push_bit_eq_mult)
  moreover have "uint (push_bit k (1024 :: 64 word)) = take_bit 64 (push_bit k 1024)"
    by (subst unsigned_push_bit_eq) simp
  ultimately show ?thesis by (simp add: push_bit_eq_mult)
qed

lemma probe_decision:
  assumes fb: "2048 \<le> fb" "fb \<le> maxInt64" and k: "uint lg = field32 sb 24" "field32 sb 24 \<le> 6"
  defines "s \<equiv> push_bit (unat lg) (1024 :: 64 word)" and "n \<equiv> superblock_blocks sb"
  shows "(if n = 0 then (ext4Mountable, 0)
          else if word_of_int fb div s < n then (ext4Truncated, saturatingBytes n s)
          else (ext4Mountable, sint (n * s)))
       = (if fb < claimed_bytes sb then (ext4Truncated, min maxInt64 (claimed_bytes sb))
          else (ext4Mountable, claimed_bytes sb))"
proof -
  have lg: "unat lg = nat (field32 sb 24)" using k by (metis unat_eq_nat_uint)
  have s: "uint s = 1024 * 2 ^ nat (field32 sb 24)"
    unfolding s_def lg using k by (intro uint_block_size) simp
  then have s0: "0 < uint s" by simp
  have c: "claimed_bytes sb = uint n * uint s"
    by (simp add: claimed_bytes_def n_def s uint_superblock_blocks)
  have f: "uint (word_of_int fb :: 64 word) = fb"
    using fb by (simp add: maxInt64_def uint_word_of_int)
  have lt: "word_of_int fb div s < n \<longleftrightarrow> fb < claimed_bytes sb"
    by (simp add: word_less_def uint_div f c quotient_below s0)
  show ?thesis
  proof (cases "fb < claimed_bytes sb")
    case True
    then have "n \<noteq> 0" using fb by (auto simp: c)
    with True lt show ?thesis by (simp add: saturatingBytes_min [OF s0] c)
  next
    case False
    then have "uint n * uint s \<le> maxInt64" using fb c by simp
    with False lt show ?thesis by (simp add: sint_product c)
  qed
qed

text \<open>Claim C28.  The superblock probe, computed on 16, 32 and 64-bit unsigned words with a division in place
  of a multiplication, gives for every file size and every byte string the verdict and the size of the
  reference in unbounded integers: a file is truncated exactly when the filesystem the superblock claims is
  larger than the file, and the reported size saturates instead of wrapping.\<close>

theorem parseExt4Superblock_reference:
  fixes fileBytes :: "64 word"
  shows "parseExt4Superblock sb (sint fileBytes) = ext4_reference sb (sint fileBytes)"
proof -
  have hi: "sint fileBytes \<le> maxInt64"
    using sint_lt [of fileBytes] by (simp add: maxInt64_def)
  have m: "le16 sb 56 \<noteq> ext4Magic \<longleftrightarrow> field16 sb 56 \<noteq> 61267"
    by (simp add: word_uint_eq_iff uint_le16 ext4Magic_def)
  have l: "ext4MaxLogBlockSize < le32 sb 24 \<longleftrightarrow> 6 < field32 sb 24"
    by (simp add: word_less_def uint_le32 ext4MaxLogBlockSize_def)
  note offsets = ext4MinPlausibleBytes_def ext4SuperblockOffset_def ext4SuperblockLen_def ext4OffBlocksCountHi_def
    ext4OffMagic_def ext4OffLogBlockSize_def
  show ?thesis
  proof (cases "sint fileBytes < 2048 \<or> length sb < 340 \<or> field16 sb 56 \<noteq> 61267 \<or> 6 < field32 sb 24")
    case True
    then show ?thesis using m l by (auto simp: parseExt4Superblock_def ext4_reference_def offsets Let_def)
  next
    case False
    then have "2048 \<le> sint fileBytes" "field32 sb 24 \<le> 6" by auto
    from probe_decision [OF this(1) hi uint_le32 this(2)] False m l show ?thesis
      by (simp add: parseExt4Superblock_def ext4_reference_def offsets Let_def)
  qed
qed

end
