(* ===== verification/Fleet_Orchestrator.thy ===== *)
theory Fleet_Orchestrator
  imports Fleet_Runtime Ingress_Names Ext4_Probe
begin

text \<open>
  The reconciler of \<open>internal/usecase/fleet_orchestrator.go\<close>: it drives each app's replica set toward its
  desired count, placing rows anywhere and acting only on the rows of its own host.  The scheduler is an
  interface (locale \<open>placement\<close>), interpreted on the fleet scheduler; the network fabric, the ingress
  gateway, the access-log feed and the claim ledger are fields.  The in-process mutex around the actuation
  pass makes it one operation; log lines, counters and the log throttle are left out.
\<close>

datatype stat_reply = StatAbsent | StatError | StatFile int

datatype claim_lookup = NoLiveClaim | ClaimLookupFailed | LiveClaim

record IngressRoute =
  ig_Host :: string
  ig_CustomDomain :: string
  ig_Upstreams :: "string list"

record ('f, 'h) FleetOrchestrator =
  fo_runtime :: "('f, 'h) FleetReplicaRuntime"
  fo_SelectHost :: "PlacementRequest \<Rightarrow> ('f, 'h) fleet_world \<Rightarrow> uuid op_result \<times> ('f, 'h) fleet_world"
  fo_IsHostLive :: "uuid \<Rightarrow> ('f, 'h) fleet_world \<Rightarrow> bool op_result \<times> ('f, 'h) fleet_world"
  fo_resources :: "(uuid \<Rightarrow> claim_lookup) option"
  fo_volumes :: "'f FleetVolumeManager option"
  fo_routes :: bool
  fo_ingressDomain :: string
  fo_ingress :: "(IngressRoute list \<Rightarrow> unit op_result) option"
  fo_activityFeed :: "(bool \<times> (string \<Rightarrow> instant option)) option"
  fo_tokenStore :: bool
  fo_registryTokenStore :: bool
  fo_RequireNetwork :: "(string \<Rightarrow> string \<Rightarrow> op_error option) option"
  fo_SyncForApp :: "string \<Rightarrow> string \<Rightarrow> Replica list \<Rightarrow> 'h \<Rightarrow> 'h"
  fo_stat :: "string \<Rightarrow> 'f \<Rightarrow> stat_reply"
  fo_readSuperblock :: "string \<Rightarrow> 'f \<Rightarrow> 8 word list option"
  fo_selfHost :: uuid
  fo_newID :: "nat \<Rightarrow> uuid"
  fo_now :: "nat \<Rightarrow> instant"

definition NewFleetOrchestrator :: "('f, 'h) FleetOrchestrator \<Rightarrow> ('f, 'h) FleetOrchestrator op_result" where
  "NewFleetOrchestrator uc = (if fo_selfHost uc = uuid_Nil then Inl (OpFleet ErrReplicaHostMismatch) else Inr uc)"

definition ownsReplica :: "('f, 'h) FleetOrchestrator \<Rightarrow> Replica \<Rightarrow> bool" where
  "ownsReplica uc r \<longleftrightarrow> re_HostID r = Some (fo_selfHost uc)"

section \<open>Routes\<close>

definition residentPGPort :: int where "residentPGPort = 5432"

text \<open>The fields of a provision descriptor the app path reads.\<close>

record FleetProvisionInput =
  fp_ComponentID :: string
  fp_Env :: string
  fp_OwnerOrg :: string
  fp_Repository :: string
  fp_Digest :: string
  fp_VCPU :: int
  fp_MemoryMB :: int
  fp_SecretRefs :: "string list"
  fp_Port :: int
  fp_SystemID :: string
  fp_Volumes :: "VolumeSpecInput list"
  fp_ScaleToZero :: bool
  fp_IdleTTLSeconds :: int
  fp_MinReplicas :: int
  fp_MaxReplicas :: int
  fp_VaultToken :: string
  fp_RegistryPullToken :: string
  fp_ResourceClass :: string

definition httpServedWorkload :: "FleetProvisionInput \<Rightarrow> bool" where
  "httpServedWorkload i \<longleftrightarrow> fp_ResourceClass i = '''' \<and> fp_Port i \<noteq> residentPGPort"

definition ensureRoute ::
  "('f, 'h) FleetOrchestrator \<Rightarrow> FleetApp \<Rightarrow> ('f, 'h) fleet_world \<Rightarrow> unit op_result \<times> ('f, 'h) fleet_world" where
  "ensureRoute uc app w =
     (if \<not> fo_routes uc then (Inr (), w)
      else (case routeRepository_ListByApp (fa_ID app) w of
          (Inl e, w1) \<Rightarrow> (Inl e, w1)
        | (Inr existing, w1) \<Rightarrow>
            if existing \<noteq> [] then (Inr (), w1)
            else routeRepository_Create \<lparr>ro_ID = fo_newID uc (fw_tick w1), ro_AppID = fa_ID app,
                   ro_HostPattern = hostForApp (fo_ingressDomain uc) app, ro_PathPrefix = ''/'', ro_CustomDomain = '''',
                   ro_TLSCertRef = '''', ro_CreatedAt = fo_now uc (fw_tick w1), ro_UpdatedAt = fo_now uc (fw_tick w1)\<rparr>
                   (tick w1)))"

definition upstreams :: "Replica list \<Rightarrow> string list" where
  "upstreams rs = map (\<lambda>r. stripScheme (re_Endpoint r))
     (filter (\<lambda>r. re_State r = ReplicaStateResident \<and> re_Endpoint r \<noteq> '''') rs)"

fun collect_routes ::
  "FleetApp list \<Rightarrow> ('f, 'h) fleet_world \<Rightarrow> IngressRoute list op_result \<times> ('f, 'h) fleet_world" where
  "collect_routes [] w = (Inr [], w)"
| "collect_routes (a # apps) w =
     (case routeRepository_ListByApp (fa_ID a) w of
        (Inl e, w1) \<Rightarrow> (Inl e, w1)
      | (Inr routes, w1) \<Rightarrow>
          if routes = [] then collect_routes apps w1
          else (case replicas_ListByApp (fa_ID a) w1 of
              (Inl e, w2) \<Rightarrow> (Inl e, w2)
            | (Inr rs, w2) \<Rightarrow>
                (case collect_routes apps w2 of
                   (Inl e, w3) \<Rightarrow> (Inl e, w3)
                 | (Inr rest, w3) \<Rightarrow>
                     (Inr (map (\<lambda>r. \<lparr>ig_Host = ro_HostPattern r, ig_CustomDomain = ro_CustomDomain r,
                                       ig_Upstreams = upstreams rs\<rparr>) routes @ rest), w3))))"

definition SyncIngress :: "('f, 'h) FleetOrchestrator \<Rightarrow> ('f, 'h) fleet_world \<Rightarrow> unit op_result \<times> ('f, 'h) fleet_world" where
  "SyncIngress uc w =
     (case fo_ingress uc of
        None \<Rightarrow> (Inr (), w)
      | Some sync \<Rightarrow>
          if \<not> fo_routes uc then (Inr (), w)
          else (case fleetAppRepository_List w of
              (Inl e, w1) \<Rightarrow> (Inl e, w1)
            | (Inr apps, w1) \<Rightarrow>
                (case collect_routes apps w1 of
                   (Inl e, w2) \<Rightarrow> (Inl e, w2)
                 | (Inr desired, w2) \<Rightarrow> (sync desired, w2))))"

section \<open>Placement on data\<close>

definition conditionBackingFileMissing :: string where
  "conditionBackingFileMissing = ''backing-file-missing''"

definition conditionVolumeStoreUnavailable :: string where
  "conditionVolumeStoreUnavailable = ''volume-store-unavailable''"

definition conditionBackingFileUnmountable :: string where
  "conditionBackingFileUnmountable = ''backing-file-unmountable''"

definition evalPlaceableOnBackingFile ::
  "('f, 'h) FleetOrchestrator \<Rightarrow> uuid \<Rightarrow> ('f, 'h) fleet_world \<Rightarrow> (bool \<times> string) \<times> ('f, 'h) fleet_world" where
  "evalPlaceableOnBackingFile uc appID w =
     (if fo_volumes uc = None then ((True, ''''), w)
      else (case on_vols (PrimaryVolume appID) w of
          (Inl _, w1) \<Rightarrow> ((True, ''''), w1)
        | (Inr None, w1) \<Rightarrow> ((True, ''''), w1)
        | (Inr (Some vol), w1) \<Rightarrow>
            let path = vo_BackingPath vol; fs = vw_files (fw_vols w1) in
            (if path = '''' then (True, '''')
             else (case fo_stat uc path fs of
                 StatFile bytes \<Rightarrow>
                   (case probeExt4Mountable (fo_readSuperblock uc path fs) bytes of
                      None \<Rightarrow> (True, '''')
                    | Some (verdict, _) \<Rightarrow>
                        if verdict = ext4Mountable then (True, '''') else (False, conditionBackingFileUnmountable))
               | StatError \<Rightarrow> (True, '''')
               | StatAbsent \<Rightarrow>
                   (case fo_stat uc (path_Dir path) fs of
                      StatFile _ \<Rightarrow> (False, conditionBackingFileMissing)
                    | _ \<Rightarrow> (False, conditionVolumeStoreUnavailable))), w1)))"

section \<open>One reconcile pass\<close>

definition record_teardown :: "op_error option \<Rightarrow> unit op_result \<Rightarrow> op_error option" where
  "record_teardown err r = (case err of Some _ \<Rightarrow> err | None \<Rightarrow> (case r of Inl e \<Rightarrow> Some e | Inr _ \<Rightarrow> None))"

fun drain ::
  "('f, 'h) FleetOrchestrator \<Rightarrow> Replica list \<Rightarrow> op_error option \<Rightarrow> ('f, 'h) fleet_world \<Rightarrow> op_error option \<times> ('f, 'h) fleet_world" where
  "drain uc [] err w = (err, w)"
| "drain uc (r # rs) err w =
     (case DecommissionReplica (fo_runtime uc) (re_ID r) w of (x, w1) \<Rightarrow> drain uc rs (record_teardown err x) w1)"

definition dead_rows :: "('f, 'h) FleetOrchestrator \<Rightarrow> Replica list \<Rightarrow> Replica list" where
  "dead_rows uc rs = filter (\<lambda>r. re_State r = ReplicaStateDead \<and> ownsReplica uc r) rs"

text \<open>The health loop returns the slice as the probes left it.\<close>

fun health_pass ::
  "('f, 'h) FleetOrchestrator \<Rightarrow> Replica list \<Rightarrow> op_error option \<Rightarrow> ('f, 'h) fleet_world \<Rightarrow>
   Replica list \<times> op_error option \<times> ('f, 'h) fleet_world" where
  "health_pass uc [] err w = ([], err, w)"
| "health_pass uc (r # rs) err w =
     (if re_State r \<noteq> ReplicaStateResident \<or> \<not> ownsReplica uc r then
        (case health_pass uc rs err w of (rs', err', w') \<Rightarrow> (r # rs', err', w'))
      else (case RefreshHealth (fo_runtime uc) r w of (h, r', w1) \<Rightarrow>
          (case (if h = Inr False
                 then (case DecommissionReplica (fo_runtime uc) (re_ID r') w1 of (x, w2) \<Rightarrow> (record_teardown err x, w2))
                 else (err, w1)) of (err1, w3) \<Rightarrow>
             (case health_pass uc rs err1 w3 of (rs', err', w') \<Rightarrow> (r' # rs', err', w')))))"

definition occupies :: "Replica \<Rightarrow> bool" where
  "occupies r \<longleftrightarrow> re_State r \<in> {ReplicaStateScheduled, ReplicaStateBooting, ReplicaStateResident}"

definition drainRank :: "ReplicaState \<Rightarrow> int" where
  "drainRank s = (if s = ReplicaStateScheduled \<or> s = ReplicaStateBooting then 0 else 1)"

text \<open>\<open>sort.SliceStable\<close> by rank, then newest first.\<close>

definition surplusOrder :: "Replica list \<Rightarrow> Replica list" where
  "surplusOrder rs = sort_key (\<lambda>r. drainRank (re_State r)) (sort_key (\<lambda>r. - re_CreatedAt r) rs)"

definition placement_request :: "FleetApp \<Rightarrow> uuid option \<Rightarrow> PlacementRequest" where
  "placement_request app aff = \<lparr>pr_AppID = fa_ID app, pr_NeedVCPU = fa_ResourcesVCPU app, pr_NeedMemMB = fa_ResourcesMemMB app,
     pr_NeedDiskMB = 0, pr_Constraint = PlacementConstraintBinPack, pr_AffinityHostID = aff, pr_AffinityLabels = []\<rparr>"

definition scheduled_row :: "FleetApp \<Rightarrow> uuid \<Rightarrow> uuid \<Rightarrow> instant \<Rightarrow> Replica" where
  "scheduled_row app i host now = \<lparr>re_ID = i, re_AppID = fa_ID app, re_HostID = Some host,
     re_ImageRepository = fa_ImageRepository app, re_ImageDigest = fa_ImageDigest app, re_State = ReplicaStateScheduled,
     re_Endpoint = '''', re_GuestIP = '''', re_HostPort = 0, re_NetIndex = 0, re_RootfsPath = '''', re_SocketPath = '''',
     re_TapName = '''', re_Port = fa_Port app, re_PID = None, re_ExitCode = None, re_RestartPolicy = fa_RestartPolicy app,
     re_Message = '''', re_CreatedAt = now, re_UpdatedAt = now\<rparr>"

text \<open>The way through the switch: leave the function with a result, or go on to the network sync.\<close>

datatype flow = Return "op_error option" | GoOn "op_error option"

fun place ::
  "('f, 'h) FleetOrchestrator \<Rightarrow> FleetApp \<Rightarrow> uuid option \<Rightarrow> nat \<Rightarrow> ('f, 'h) fleet_world \<Rightarrow> flow \<times> ('f, 'h) fleet_world" where
  "place uc app aff 0 w = (GoOn None, w)"
| "place uc app aff (Suc n) w =
     (case fo_SelectHost uc (placement_request app aff) w of
        (Inl e, w1) \<Rightarrow> (if e = OpFleet ErrNoSchedulableHost then Return None else Return (Some e), w1)
      | (Inr host, w1) \<Rightarrow>
          if aff \<noteq> None \<and> aff \<noteq> Some host then (Return (Some (OpFleet ErrVolumeHostMismatch)), w1)
          else (case replicaRepository_Create
                  (scheduled_row app (fo_newID uc (fw_tick w1)) host (fo_now uc (fw_tick w1))) (tick w1) of
              (Inl e, w2) \<Rightarrow> (Return (Some e), w2)
            | (Inr _, w2) \<Rightarrow> place uc app aff n w2))"

definition fill_shortfall ::
  "('f, 'h) FleetOrchestrator \<Rightarrow> FleetApp \<Rightarrow> op_error option \<Rightarrow> nat \<Rightarrow> ('f, 'h) fleet_world \<Rightarrow> flow \<times> ('f, 'h) fleet_world" where
  "fill_shortfall uc app teardownErr n w =
     (if teardownErr \<noteq> None then (GoOn teardownErr, w)
      else (case evalPlaceableOnBackingFile uc (fa_ID app) w of ((placeable, _), w1) \<Rightarrow>
          if \<not> placeable then (Return None, w1)
          else (case (if fo_volumes uc = None then (Inr (None, False), w1) else on_vols (AffinityHost (fa_ID app)) w1) of
              (Inl e, w2) \<Rightarrow> (Return (Some e), w2)
            | (Inr (h, pinned), w2) \<Rightarrow> place uc app (if pinned then h else None) n w2)))"

text \<open>The stateful stand-off: \<open>True\<close> when the pass must stop because the host of the data is gone.\<close>

definition stateful_standoff ::
  "('f, 'h) FleetOrchestrator \<Rightarrow> FleetApp \<Rightarrow> ('f, 'h) fleet_world \<Rightarrow> bool \<times> ('f, 'h) fleet_world" where
  "stateful_standoff uc app w =
     (if fo_volumes uc = None then (False, w)
      else (case on_vols (AffinityHost (fa_ID app)) w of
          (Inr (Some host, True), w1) \<Rightarrow>
            (case fo_IsHostLive uc host w1 of
               (Inr False, w2) \<Rightarrow> (True, snd (on_vols (MarkDegraded (fa_ID app) (fo_now uc (fw_tick w2))) (tick w2)))
             | (_, w2) \<Rightarrow> (False, w2))
        | (_, w1) \<Rightarrow> (False, w1)))"

definition settle ::
  "('f, 'h) FleetOrchestrator \<Rightarrow> FleetApp \<Rightarrow> Replica list \<Rightarrow> op_error option \<Rightarrow> ('f, 'h) fleet_world \<Rightarrow> flow \<times> ('f, 'h) fleet_world" where
  "settle uc app occ teardownErr w =
     (if int (length occ) < fa_DesiredReplicas app then
        fill_shortfall uc app teardownErr (nat (fa_DesiredReplicas app - int (length occ))) w
      else if fa_DesiredReplicas app < int (length occ) then
        (case drain uc (take (nat (int (length occ) - fa_DesiredReplicas app))
                          (surplusOrder (filter (ownsReplica uc) occ))) teardownErr w of
           (err, w1) \<Rightarrow> (GoOn err, w1))
      else (GoOn teardownErr, w))"

definition sync_network ::
  "('f, 'h) FleetOrchestrator \<Rightarrow> FleetApp \<Rightarrow> ('f, 'h) fleet_world \<Rightarrow> ('f, 'h) fleet_world" where
  "sync_network uc app w =
     (if fo_RequireNetwork uc \<noteq> None \<and> fa_SystemID app \<noteq> ''''
      then w\<lparr>fw_host := fo_SyncForApp uc (fa_SystemID app) (fa_Env app) (fw_replicas w) (fw_host w)\<rparr> else w)"

definition err_result :: "op_error option \<Rightarrow> unit op_result" where
  "err_result e = (case e of None \<Rightarrow> Inr () | Some x \<Rightarrow> Inl x)"

definition reconcile_replicas ::
  "('f, 'h) FleetOrchestrator \<Rightarrow> FleetApp \<Rightarrow> Replica list \<Rightarrow> ('f, 'h) fleet_world \<Rightarrow> unit op_result \<times> ('f, 'h) fleet_world" where
  "reconcile_replicas uc app replicas w =
     (case drain uc (dead_rows uc replicas) None w of (err1, w1) \<Rightarrow>
        (case health_pass uc replicas err1 w1 of (probed, err2, w2) \<Rightarrow>
           (case settle uc app (filter occupies probed) err2 w2 of
              (Return r, w3) \<Rightarrow> (err_result r, w3)
            | (GoOn err, w3) \<Rightarrow> (err_result err, sync_network uc app w3))))"

definition ReconcileApp ::
  "('f, 'h) FleetOrchestrator \<Rightarrow> uuid \<Rightarrow> ('f, 'h) fleet_world \<Rightarrow> unit op_result \<times> ('f, 'h) fleet_world" where
  "ReconcileApp uc appID w =
     (case fleetAppRepository_FindByID appID w of
        (Inl e, w1) \<Rightarrow> (if e = OpFleet ErrFleetAppNotFound then Inr () else Inl e, w1)
      | (Inr app, w1) \<Rightarrow>
          (case replicas_ListByApp (fa_ID app) w1 of
             (Inl e, w2) \<Rightarrow> (Inl e, w2)
           | (Inr replicas, w2) \<Rightarrow>
               (case stateful_standoff uc app w2 of (stop, w3) \<Rightarrow>
                  if stop then (Inr (), w3) else reconcile_replicas uc app replicas w3)))"

fun actuate_rows :: "('f, 'h) FleetOrchestrator \<Rightarrow> Replica list \<Rightarrow> ('f, 'h) fleet_world \<Rightarrow> ('f, 'h) fleet_world" where
  "actuate_rows uc [] w = w"
| "actuate_rows uc (r # rs) w =
     actuate_rows uc rs (if re_State r \<noteq> ReplicaStateScheduled then w else snd (BootReplica (fo_runtime uc) (re_ID r) w))"

definition actuateScheduledOwned ::
  "('f, 'h) FleetOrchestrator \<Rightarrow> ('f, 'h) fleet_world \<Rightarrow> unit op_result \<times> ('f, 'h) fleet_world" where
  "actuateScheduledOwned uc w =
     (case replicas_ListByHost (fo_selfHost uc) w of
        (Inl e, w1) \<Rightarrow> (Inl e, w1)
      | (Inr placed, w1) \<Rightarrow> (Inr (), actuate_rows uc placed w1))"

definition ReconcileAll ::
  "('f, 'h) FleetOrchestrator \<Rightarrow> ('f, 'h) fleet_world \<Rightarrow> unit op_result \<times> ('f, 'h) fleet_world" where
  "ReconcileAll uc w =
     (case fleetAppRepository_List w of
        (Inl e, w1) \<Rightarrow> (Inl e, w1)
      | (Inr apps, w1) \<Rightarrow> actuateScheduledOwned uc (fold (\<lambda>a w. snd (ReconcileApp uc (fa_ID a) w)) apps w1))"

section \<open>The app surface\<close>

text \<open>\<open>FleetSecretTokenStore\<close> and \<open>FleetRegistryTokenStore\<close> as the maps they keep: an empty token is not
  stored.  The renewer of a stored Vault token runs beside the model.\<close>

definition put_token :: "uuid \<Rightarrow> string \<Rightarrow> (uuid \<rightharpoonup> string) \<Rightarrow> (uuid \<rightharpoonup> string)" where
  "put_token i t m = (if t = '''' then m else m(i \<mapsto> t))"

definition ScaleApp ::
  "('f, 'h) FleetOrchestrator \<Rightarrow> uuid \<Rightarrow> int \<Rightarrow> ('f, 'h) fleet_world \<Rightarrow> (bool \<times> op_error option) \<times> ('f, 'h) fleet_world" where
  "ScaleApp uc appID n w =
     (case fleetAppRepository_FindByID appID w of
        (Inl e, w1) \<Rightarrow> ((False, if e = OpFleet ErrFleetAppNotFound then None else Some e), w1)
      | (Inr app, w1) \<Rightarrow>
          (let replicas = (if n < 0 then 0 else n) in
           case (if 1 < replicas \<and> fo_volumes uc \<noteq> None then on_vols (HasVolumes (fa_ID app)) w1 else (Inr False, w1)) of
             (Inl e, w2) \<Rightarrow> ((True, Some e), w2)
           | (Inr hasVol, w2) \<Rightarrow>
               if hasVol then ((True, Some (OpFleet ErrVolumeAppNotScalable)), w2)
               else (case fleetAppRepository_Update
                       (app\<lparr>fa_DesiredReplicas := replicas, fa_UpdatedAt := fo_now uc (fw_tick w2)\<rparr>) (tick w2) of
                   (Inl e, w3) \<Rightarrow> ((True, Some e), w3)
                 | (Inr _, w3) \<Rightarrow>
                     (case ReconcileApp uc (fa_ID app) w3 of
                        (Inl e, w4) \<Rightarrow> ((True, Some e), w4)
                      | (Inr _, w4) \<Rightarrow> ((True, None), w4)))))"

definition refuseIfResourceBacked :: "('f, 'h) FleetOrchestrator \<Rightarrow> uuid \<Rightarrow> op_error option" where
  "refuseIfResourceBacked uc appID =
     (case fo_resources uc of
        None \<Rightarrow> Some (OpFleet ErrAppBacksDurableResource)
      | Some ledger \<Rightarrow> (case ledger appID of
          NoLiveClaim \<Rightarrow> None
        | ClaimLookupFailed \<Rightarrow> Some (OpFleet ErrOther)
        | LiveClaim \<Rightarrow> Some (OpFleet ErrAppBacksDurableResource)))"

text \<open>What is left after the drain decides whether anything may be deleted.\<close>

definition refuse_remaining ::
  "('f, 'h) FleetOrchestrator \<Rightarrow> Replica list \<Rightarrow> unit op_result \<Rightarrow> op_error option" where
  "refuse_remaining uc remaining drained =
     (if \<exists>r \<in> set remaining. ownsReplica uc r then
        (case drained of Inl e \<Rightarrow> Some e | Inr _ \<Rightarrow> Some (OpFleet ErrVMTerminationUnproven))
      else (case drained of Inl e \<Rightarrow> Some e
        | Inr _ \<Rightarrow> if remaining \<noteq> [] then Some (OpFleet ErrReplicaHostMismatch) else None))"

definition finalize_app ::
  "('f, 'h) FleetOrchestrator \<Rightarrow> uuid \<Rightarrow> ('f, 'h) fleet_world \<Rightarrow> (bool \<times> op_error option) \<times> ('f, 'h) fleet_world" where
  "finalize_app uc appID w =
     (case (case fo_volumes uc of None \<Rightarrow> (Inr (), w) | Some vm \<Rightarrow> on_vols (DeleteAppVolumes vm appID) w) of
        (Inl e, w1) \<Rightarrow> ((True, Some e), w1)
      | (Inr _, w1) \<Rightarrow>
          (case (if fo_routes uc then routeRepository_DeleteByApp appID w1 else (Inr (), w1)) of
             (Inl e, w2) \<Rightarrow> ((True, Some e), w2)
           | (Inr _, w2) \<Rightarrow>
               (case fleetAppRepository_Delete appID w2 of
                  (Inl e, w3) \<Rightarrow> ((True, Some e), w3)
                | (Inr _, w3) \<Rightarrow>
                    ((True, None),
                     w3\<lparr>fw_tokens := (if fo_tokenStore uc then (fw_tokens w3)(appID := None) else fw_tokens w3),
                        fw_pullTokens := (if fo_registryTokenStore uc then (fw_pullTokens w3)(appID := None)
                                          else fw_pullTokens w3)\<rparr>))))"

definition DecommissionApp ::
  "('f, 'h) FleetOrchestrator \<Rightarrow> uuid \<Rightarrow> ('f, 'h) fleet_world \<Rightarrow> (bool \<times> op_error option) \<times> ('f, 'h) fleet_world" where
  "DecommissionApp uc appID w =
     (case fleetAppRepository_FindByID appID w of
        (Inl e, w1) \<Rightarrow> ((False, if e = OpFleet ErrFleetAppNotFound then None else Some e), w1)
      | (Inr app, w1) \<Rightarrow>
          (case refuseIfResourceBacked uc (fa_ID app) of
             Some e \<Rightarrow> ((True, Some e), w1)
           | None \<Rightarrow>
               (case fleetAppRepository_Update
                       (app\<lparr>fa_DesiredReplicas := 0, fa_UpdatedAt := fo_now uc (fw_tick w1)\<rparr>) (tick w1) of
                  (Inl e, w2) \<Rightarrow> ((True, Some e), w2)
                | (Inr _, w2) \<Rightarrow>
                    (case ReconcileApp uc (fa_ID app) w2 of (drained, w3) \<Rightarrow>
                       (case replicas_ListByApp (fa_ID app) w3 of
                          (Inl e, w4) \<Rightarrow> ((True, Some e), w4)
                        | (Inr remaining, w4) \<Rightarrow>
                            (case refuse_remaining uc remaining drained of
                               Some e \<Rightarrow> ((True, Some e), w4)
                             | None \<Rightarrow> finalize_app uc (fa_ID app) w4))))))"

definition OwnerOrgForApp :: "uuid \<Rightarrow> ('f, 'h) fleet_world \<Rightarrow> (string \<times> bool) op_result \<times> ('f, 'h) fleet_world" where
  "OwnerOrgForApp appID w =
     (case fleetAppRepository_FindByID appID w of
        (Inl e, w1) \<Rightarrow> (if e = OpFleet ErrFleetAppNotFound then Inr ('''', False) else Inl e, w1)
      | (Inr app, w1) \<Rightarrow> (Inr (fa_OwnerOrg app, True), w1))"

section \<open>Provisioning\<close>

definition claimed_vcpu :: "FleetProvisionInput \<Rightarrow> int" where
  "claimed_vcpu i = (if fp_VCPU i < 1 then 1 else fp_VCPU i)"

definition claimed_mem :: "FleetProvisionInput \<Rightarrow> int" where
  "claimed_mem i = (if fp_MemoryMB i < 512 then 512 else fp_MemoryMB i)"

definition max_replicas :: "FleetProvisionInput \<Rightarrow> int" where
  "max_replicas i = (if fp_MaxReplicas i < 1 then 1 else fp_MaxReplicas i)"

definition min_replicas :: "FleetProvisionInput \<Rightarrow> int" where
  "min_replicas i = (if fp_MinReplicas i < 0 then 0 else fp_MinReplicas i)"

definition updated_app :: "FleetProvisionInput \<Rightarrow> instant \<Rightarrow> FleetApp \<Rightarrow> FleetApp" where
  "updated_app i now app =
     app\<lparr>fa_SystemID := fp_SystemID i, fa_ImageRepository := fp_Repository i, fa_ImageDigest := fp_Digest i,
       fa_Port := fp_Port i, fa_ResourcesVCPU := claimed_vcpu i, fa_ResourcesMemMB := claimed_mem i,
       fa_OwnerOrg := fp_OwnerOrg i, fa_SecretRefs := fp_SecretRefs i, fa_MinReplicas := min_replicas i,
       fa_MaxReplicas := max_replicas i, fa_ScaleToZero := fp_ScaleToZero i, fa_IdleTTLSeconds := fp_IdleTTLSeconds i,
       fa_DesiredReplicas := (if fa_DesiredReplicas app < 1 then 1 else fa_DesiredReplicas app),
       fa_LastActiveAt := now, fa_UpdatedAt := now\<rparr>"

definition created_app :: "FleetProvisionInput \<Rightarrow> uuid \<Rightarrow> instant \<Rightarrow> FleetApp" where
  "created_app i appID now = \<lparr>fa_ID = appID, fa_ComponentID = fp_ComponentID i, fa_Env = fp_Env i,
     fa_ImageRepository = fp_Repository i, fa_ImageDigest = fp_Digest i, fa_OwnerOrg = fp_OwnerOrg i,
     fa_SystemID = fp_SystemID i, fa_DesiredReplicas = 1, fa_MinReplicas = min_replicas i, fa_MaxReplicas = max_replicas i,
     fa_ScaleToZero = fp_ScaleToZero i, fa_Port = fp_Port i, fa_ResourcesVCPU = claimed_vcpu i,
     fa_ResourcesMemMB = claimed_mem i, fa_RestartPolicy = RestartPolicyAlways, fa_SecretRefs = fp_SecretRefs i,
     fa_IdleTTLSeconds = fp_IdleTTLSeconds i, fa_LastActiveAt = now, fa_CreatedAt = now, fa_UpdatedAt = now\<rparr>"

definition network_gate :: "('f, 'h) FleetOrchestrator \<Rightarrow> FleetProvisionInput \<Rightarrow> op_error option" where
  "network_gate uc i =
     (if fp_SystemID i = '''' then None
      else (case fo_RequireNetwork uc of
          None \<Rightarrow> Some (OpNetwork ErrNetworkEnforcerUnavailable)
        | Some require \<Rightarrow> require (fp_SystemID i) (fp_Env i)))"

definition upsert_app ::
  "('f, 'h) FleetOrchestrator \<Rightarrow> FleetProvisionInput \<Rightarrow> ('f, 'h) fleet_world \<Rightarrow> FleetApp op_result \<times> ('f, 'h) fleet_world" where
  "upsert_app uc i w =
     (case fleetAppRepository_FindByComponentEnv (fp_ComponentID i) (fp_Env i) (fp_OwnerOrg i) w of
        (Inr app, w1) \<Rightarrow>
          (let app' = updated_app i (fo_now uc (fw_tick w1)) app in
           case fleetAppRepository_Update app' (tick w1) of (Inl e, w2) \<Rightarrow> (Inl e, w2) | (Inr _, w2) \<Rightarrow> (Inr app', w2))
      | (Inl e, w1) \<Rightarrow>
          if e = OpFleet ErrFleetAppNotFound then
            (let app' = created_app i (fo_newID uc (fw_tick w1)) (fo_now uc (fw_tick w1)) in
             case fleetAppRepository_Create app' (tick w1) of (Inl e, w2) \<Rightarrow> (Inl e, w2) | (Inr _, w2) \<Rightarrow> (Inr app', w2))
          else (Inl e, w1))"

definition stash_tokens ::
  "('f, 'h) FleetOrchestrator \<Rightarrow> FleetProvisionInput \<Rightarrow> uuid \<Rightarrow> ('f, 'h) fleet_world \<Rightarrow> ('f, 'h) fleet_world" where
  "stash_tokens uc i appID w =
     w\<lparr>fw_tokens := (if fo_tokenStore uc then put_token appID (fp_VaultToken i) (fw_tokens w) else fw_tokens w),
       fw_pullTokens := (if fo_registryTokenStore uc then put_token appID (fp_RegistryPullToken i) (fw_pullTokens w)
                         else fw_pullTokens w)\<rparr>"

text \<open>The volume specs with the identifier and the instant each would be stamped with.\<close>

definition stamped_specs :: "('f, 'h) FleetOrchestrator \<Rightarrow> nat \<Rightarrow> VolumeSpecInput list \<Rightarrow> (VolumeSpecInput \<times> uuid \<times> instant) list" where
  "stamped_specs uc t specs = map (\<lambda>(k, s). (s, fo_newID uc k, fo_now uc k)) (enumerate t specs)"

definition ensure_data ::
  "('f, 'h) FleetOrchestrator \<Rightarrow> FleetProvisionInput \<Rightarrow> FleetApp \<Rightarrow> ('f, 'h) fleet_world \<Rightarrow> unit op_result \<times> ('f, 'h) fleet_world" where
  "ensure_data uc i app w =
     (case fo_volumes uc of
        None \<Rightarrow> (Inr (), w)
      | Some vm \<Rightarrow>
          (case on_vols (EnsureAppVolumes vm (fa_ID app) (stamped_specs uc (fw_tick w) (fp_Volumes i)))
                  (w\<lparr>fw_tick := fw_tick w + length (fp_Volumes i)\<rparr>) of
             (Inl e, w1) \<Rightarrow> (Inl e, w1)
           | (Inr vols, w1) \<Rightarrow>
               (if vols \<noteq> [] \<and> 1 < fa_DesiredReplicas app then Inl (OpFleet ErrVolumeAppNotScalable) else Inr (), w1)))"

definition resident_url :: "Replica list \<Rightarrow> string" where
  "resident_url rs = (case find (\<lambda>r. re_State r = ReplicaStateResident) rs of None \<Rightarrow> '''' | Some r \<Rightarrow> re_Endpoint r)"

definition ProvisionApp ::
  "('f, 'h) FleetOrchestrator \<Rightarrow> FleetProvisionInput \<Rightarrow> ('f, 'h) fleet_world \<Rightarrow> (uuid \<times> string) op_result \<times> ('f, 'h) fleet_world" where
  "ProvisionApp uc i w =
     (if fp_OwnerOrg i = '''' then (Inl (OpFleet ErrFleetAppOwnerOrgRequired), w)
      else case network_gate uc i of
        Some e \<Rightarrow> (Inl e, w)
      | None \<Rightarrow>
          (case upsert_app uc i w of
             (Inl e, w1) \<Rightarrow> (Inl e, w1)
           | (Inr app, w1) \<Rightarrow>
               (case ensure_data uc i app (stash_tokens uc i (fa_ID app) w1) of
                  (Inl e, w2) \<Rightarrow> (Inl e, w2)
                | (Inr _, w2) \<Rightarrow>
                    (case (if httpServedWorkload i then ensureRoute uc app w2 else (Inr (), w2)) of
                       (Inl e, w3) \<Rightarrow> (Inl e, w3)
                     | (Inr _, w3) \<Rightarrow>
                         (case ReconcileApp uc (fa_ID app) w3 of
                            (Inl e, w4) \<Rightarrow> (Inl e, w4)
                          | (Inr _, w4) \<Rightarrow>
                              if fo_routes uc \<and> httpServedWorkload i
                              then (Inr (fa_ID app, ''https://'' @ hostForApp (fo_ingressDomain uc) app), w4)
                              else (case replicas_ListByApp (fa_ID app) w4 of
                                  (Inl e, w5) \<Rightarrow> (Inl e, w5)
                                | (Inr rs, w5) \<Rightarrow> (Inr (fa_ID app, resident_url rs), w5)))))))"

section \<open>Health\<close>

record FleetHealthOutput =
  fh_State :: string
  fh_Healthy :: bool
  fh_ExitCode :: int
  fh_Message :: string
  fh_StdoutTail :: string
  fh_StderrTail :: string
  fh_URL :: string

definition hostLive ::
  "('f, 'h) FleetOrchestrator \<Rightarrow> uuid option \<Rightarrow> ('f, 'h) fleet_world \<Rightarrow> bool op_result \<times> ('f, 'h) fleet_world" where
  "hostLive uc hostID w = (case hostID of None \<Rightarrow> (Inr False, w) | Some h \<Rightarrow> fo_IsHostLive uc h w)"

text \<open>Whether one resident row counts as healthy: the own ones are probed, a foreign one is believed while
  its host is live.\<close>

definition resident_healthy ::
  "('f, 'h) FleetOrchestrator \<Rightarrow> Replica \<Rightarrow> ('f, 'h) fleet_world \<Rightarrow> bool \<times> ('f, 'h) fleet_world" where
  "resident_healthy uc r w =
     (if ownsReplica uc r then
        (case RefreshHealth (fo_runtime uc) r w of (h, _, w1) \<Rightarrow> (h = Inr True, w1))
      else (case hostLive uc (re_HostID r) w of (l, w1) \<Rightarrow> (l = Inr True, w1)))"

fun health_loop ::
  "('f, 'h) FleetOrchestrator \<Rightarrow> Replica list \<Rightarrow> int \<Rightarrow> int \<Rightarrow> string \<Rightarrow> ('f, 'h) fleet_world \<Rightarrow>
   (int \<times> int \<times> string) \<times> ('f, 'h) fleet_world" where
  "health_loop uc [] healthy pending url w = ((healthy, pending, url), w)"
| "health_loop uc (r # rs) healthy pending url w =
     (if re_State r = ReplicaStateResident then
        (case resident_healthy uc r w of (h, w1) \<Rightarrow>
           if h then health_loop uc rs (healthy + 1) pending (if url = '''' then re_Endpoint r else url) w1
           else health_loop uc rs healthy pending url w1)
      else if re_State r = ReplicaStateScheduled \<or> re_State r = ReplicaStateBooting
        then health_loop uc rs healthy (pending + 1) url w
      else health_loop uc rs healthy pending url w)"

definition health_message :: "bool \<Rightarrow> string \<Rightarrow> int \<Rightarrow> int \<Rightarrow> int \<Rightarrow> int \<Rightarrow> string" where
  "health_message placeable cond healthy pending desired replicas =
     (if placeable then '''' else ''placement blocked: '' @ cond @ ''; '') @
     ''healthy='' @ show_int healthy @ '' pending='' @ show_int pending @ '' desired='' @ show_int desired @
     '' replicas='' @ show_int replicas"

definition app_health ::
  "('f, 'h) FleetOrchestrator \<Rightarrow> FleetApp \<Rightarrow> Replica list \<Rightarrow> ('f, 'h) fleet_world \<Rightarrow> FleetHealthOutput \<times> ('f, 'h) fleet_world" where
  "app_health uc app rs w =
     (case health_loop uc rs 0 0 '''' w of ((healthy, pending, url), w1) \<Rightarrow>
        (case evalPlaceableOnBackingFile uc (fa_ID app) w1 of ((placeable, cond), w2) \<Rightarrow>
           (\<lparr>fh_State = (if 0 < healthy then ''running'' else if 0 < pending then ''booting'' else ''failed''),
             fh_Healthy = (0 < healthy), fh_ExitCode = 0,
             fh_Message = health_message placeable cond healthy pending (fa_DesiredReplicas app) (int (length rs)),
             fh_StdoutTail = '''', fh_StderrTail = '''',
             fh_URL = (if fo_routes uc then ''https://'' @ hostForApp (fo_ingressDomain uc) app else url)\<rparr>, w2)))"

definition degraded_health :: FleetHealthOutput where
  "degraded_health = \<lparr>fh_State = ''degraded'', fh_Healthy = False, fh_ExitCode = 0,
     fh_Message = ''stateful app affinity host unavailable'', fh_StdoutTail = '''', fh_StderrTail = '''', fh_URL = ''''\<rparr>"

text \<open>\<open>None\<close>: no such app.\<close>

definition HealthApp ::
  "('f, 'h) FleetOrchestrator \<Rightarrow> uuid \<Rightarrow> ('f, 'h) fleet_world \<Rightarrow> FleetHealthOutput option op_result \<times> ('f, 'h) fleet_world" where
  "HealthApp uc appID w =
     (case fleetAppRepository_FindByID appID w of
        (Inl e, w1) \<Rightarrow> (if e = OpFleet ErrFleetAppNotFound then Inr None else Inl e, w1)
      | (Inr app, w1) \<Rightarrow>
          (case (if fo_volumes uc = None then (Inr False, w1) else on_vols (IsDegraded (fa_ID app)) w1) of (degraded, w2) \<Rightarrow>
             if degraded = Inr True then (Inr (Some degraded_health), w2)
             else (case replicas_ListByApp (fa_ID app) w2 of
                 (Inl e, w3) \<Rightarrow> (Inl e, w3)
               | (Inr rs, w3) \<Rightarrow> (case app_health uc app rs w3 of (out, w4) \<Rightarrow> (Inr (Some out), w4)))))"

section \<open>Scale to zero\<close>

text \<open>\<open>time.Time{}\<close> in nanoseconds from the Unix epoch, and \<open>Time.Sub\<close>, which saturates.\<close>

definition zero_time :: instant where "zero_time = - 62135596800 * 1000000000"

definition time_Sub :: "instant \<Rightarrow> instant \<Rightarrow> int" where
  "time_Sub a b = max min_int64 (min max_int64 (a - b))"

definition appHosts ::
  "('f, 'h) FleetOrchestrator \<Rightarrow> FleetApp \<Rightarrow> ('f, 'h) fleet_world \<Rightarrow> string list op_result \<times> ('f, 'h) fleet_world" where
  "appHosts uc app w =
     (if \<not> fo_routes uc then (Inr [hostForApp (fo_ingressDomain uc) app], w)
      else (case routeRepository_ListByApp (fa_ID app) w of
          (Inl e, w1) \<Rightarrow> (Inl e, w1)
        | (Inr routes, w1) \<Rightarrow>
            (Inr (concat (map (\<lambda>r. filter (\<lambda>h. h \<noteq> '''') [ro_HostPattern r, ro_CustomDomain r]) routes)), w1)))"

definition stampActive ::
  "('f, 'h) FleetOrchestrator \<Rightarrow> FleetApp \<Rightarrow> ('f, 'h) fleet_world \<Rightarrow> ('f, 'h) fleet_world" where
  "stampActive uc app w =
     (let now = fo_now uc (fw_tick w) in
      snd (fleetAppRepository_Update (app\<lparr>fa_LastActiveAt := now, fa_UpdatedAt := now\<rparr>) (tick w)))"

definition sweepBlockedByActivity ::
  "('f, 'h) FleetOrchestrator \<Rightarrow> FleetApp \<Rightarrow> ('f, 'h) fleet_world \<Rightarrow> bool \<times> ('f, 'h) fleet_world" where
  "sweepBlockedByActivity uc app w =
     (case fo_activityFeed uc of
        None \<Rightarrow> (False, w)
      | Some (warm, lastActivity) \<Rightarrow>
          if \<not> warm then (True, w)
          else (case appHosts uc app w of
              (Inl e, w1) \<Rightarrow> (True, w1)
            | (Inr hosts, w1) \<Rightarrow>
                let times = List.map_filter lastActivity hosts in
                if times \<noteq> [] \<and> fa_LastActiveAt app < fold max times zero_time then (True, stampActive uc app w1)
                else (False, w1)))"

definition sweep_app ::
  "('f, 'h) FleetOrchestrator \<Rightarrow> instant \<Rightarrow> FleetApp \<Rightarrow> ('f, 'h) fleet_world \<Rightarrow> ('f, 'h) fleet_world" where
  "sweep_app uc now app w =
     (if \<not> fa_ScaleToZero app \<or> fa_IdleTTLSeconds app \<le> 0 then w
      else if time_Sub now (fa_LastActiveAt app) \<le> go_mul (fa_IdleTTLSeconds app) 1000000000 then w
      else (case replicas_ListByApp (fa_ID app) w of
          (Inl _, w1) \<Rightarrow> w1
        | (Inr rs, w1) \<Rightarrow>
            if \<not> (\<exists>r \<in> set rs. re_State r = ReplicaStateResident) then w1
            else (case sweepBlockedByActivity uc app w1 of (blocked, w2) \<Rightarrow>
                if blocked then w2 else snd (ScaleApp uc (fa_ID app) 0 w2))))"

definition SweepIdle :: "('f, 'h) FleetOrchestrator \<Rightarrow> ('f, 'h) fleet_world \<Rightarrow> unit op_result \<times> ('f, 'h) fleet_world" where
  "SweepIdle uc w =
     (case fleetAppRepository_List w of
        (Inl e, w1) \<Rightarrow> (Inl e, w1)
      | (Inr apps, w1) \<Rightarrow> (Inr (), fold (sweep_app uc (fo_now uc (fw_tick w1))) apps (tick w1)))"

section \<open>The wiring\<close>

text \<open>What the scheduler of this process has: the clock reading and staleness it judges heartbeats by, the
  rendering of identifiers, and which of its replica reads fail.\<close>

record scheduler_env =
  se_uuidString :: "uuid \<Rightarrow> string"
  se_now :: instant
  se_staleness :: int
  se_readable :: "uuid \<Rightarrow> bool"

definition find_app :: "('f, 'h) fleet_world \<Rightarrow> uuid \<Rightarrow> FleetApp fleet_result" where
  "find_app w i = (case find (\<lambda>a. fa_ID a = i) (fw_apps w) of None \<Rightarrow> Inl ErrFleetAppNotFound | Some a \<Rightarrow> Inr a)"

definition lift_fleet :: "'a fleet_result \<Rightarrow> 'a op_result" where
  "lift_fleet r = (case r of Inl e \<Rightarrow> Inl (OpFleet e) | Inr a \<Rightarrow> Inr a)"

definition scheduler_SelectHost ::
  "scheduler_env \<Rightarrow> PlacementRequest \<Rightarrow> ('f, 'h) fleet_world \<Rightarrow> uuid op_result \<times> ('f, 'h) fleet_world" where
  "scheduler_SelectHost env req w =
     (case SelectHost (se_uuidString env) (ListLive (se_now env))
             (\<lambda>h. replicaRepository_ListByHost (if se_readable env h then Some (fw_replicas w) else None) h)
             (find_app w) (se_staleness env) req (fw_hosts w) of
        (r, db) \<Rightarrow> (lift_fleet r, w\<lparr>fw_hosts := db\<rparr>))"

definition scheduler_IsHostLive ::
  "scheduler_env \<Rightarrow> uuid \<Rightarrow> ('f, 'h) fleet_world \<Rightarrow> bool op_result \<times> ('f, 'h) fleet_world" where
  "scheduler_IsHostLive env h w =
     (case IsHostLive (ListLive (se_now env)) (se_staleness env) h (fw_hosts w) of
        (r, db) \<Rightarrow> (lift_fleet r, w\<lparr>fw_hosts := db\<rparr>))"

text \<open>The container builds the runtime and the orchestrator with one host identity, one volume manager and
  the fleet scheduler.\<close>

definition wire_fleet :: "scheduler_env \<Rightarrow> ('f, 'h) FleetOrchestrator \<Rightarrow> ('f, 'h) FleetOrchestrator" where
  "wire_fleet env uc =
     uc\<lparr>fo_SelectHost := scheduler_SelectHost env, fo_IsHostLive := scheduler_IsHostLive env,
        fo_runtime := (fo_runtime uc)\<lparr>rt_selfHost := fo_selfHost uc, rt_volumes := fo_volumes uc\<rparr>\<rparr>"

end
