(* ===== verification/Fleet_Activator.thy ===== *)
theory Fleet_Activator
  imports Fleet_Orchestrator
begin

text \<open>
  The scale-to-zero wake path (\<open>internal/usecase/fleet_activator.go\<close>).  The poll loop is a partial
  function: a loop that never returns has no value.  Poll number n reads the clock once more
  (\<open>ac_clock (Suc n)\<close>), then sleeps while \<open>ac_env n\<close> happens to the world, unless the request is
  cancelled first (\<open>ac_done n\<close>).
\<close>

record ('f, 'h) FleetActivator =
  ac_orch :: "('f, 'h) FleetOrchestrator"
  ac_timeout :: int
  ac_poll :: int
  ac_healthy :: "Replica \<Rightarrow> 'h \<Rightarrow> bool"
  ac_clock :: "nat \<Rightarrow> instant"
  ac_env :: "nat \<Rightarrow> ('f, 'h) fleet_world \<Rightarrow> ('f, 'h) fleet_world"
  ac_done :: "nat \<Rightarrow> bool"

definition activatePollInterval :: int where "activatePollInterval = 250 * 1000000"

text \<open>The constructor: a non-positive budget becomes 30 s.\<close>

definition NewFleetActivator :: "('f, 'h) FleetActivator \<Rightarrow> ('f, 'h) FleetActivator" where
  "NewFleetActivator uc =
     uc\<lparr>ac_timeout := (if ac_timeout uc \<le> 0 then 30 * 1000000000 else ac_timeout uc), ac_poll := activatePollInterval\<rparr>"

definition wakeableApp :: "FleetApp \<Rightarrow> op_error option" where
  "wakeableApp app =
     (if \<not> fa_ScaleToZero app then Some (OpFleet ErrAnonymousWakeRefused)
      else if fa_MinReplicas app \<noteq> 0 then Some (OpFleet ErrAnonymousWakeRefused)
      else if fa_Port app \<le> 0 then Some (OpFleet ErrAnonymousWakeRefused)
      else if fa_Port app = residentPGPort then Some (OpFleet ErrAnonymousWakeRefused)
      else None)"

definition replica_endpoint :: "Replica \<Rightarrow> string" where
  "replica_endpoint r =
     (if re_Endpoint r \<noteq> '''' then re_Endpoint r else ''http://'' @ re_GuestIP r @ '':'' @ show_int (re_Port r))"

definition serving :: "('f, 'h) FleetActivator \<Rightarrow> 'h \<Rightarrow> Replica \<Rightarrow> bool" where
  "serving uc h r \<longleftrightarrow> re_State r = ReplicaStateResident \<and> ac_healthy uc r h"

definition residentEndpoint ::
  "('f, 'h) FleetActivator \<Rightarrow> uuid \<Rightarrow> ('f, 'h) fleet_world \<Rightarrow> string option op_result \<times> ('f, 'h) fleet_world" where
  "residentEndpoint uc appID w =
     (case replicas_ListByApp appID w of
        (Inl e, w1) \<Rightarrow> (Inl e, w1)
      | (Inr rs, w1) \<Rightarrow> (Inr (map_option replica_endpoint (find (serving uc (fw_host w1)) rs)), w1))"

definition activator_stampActive ::
  "('f, 'h) FleetActivator \<Rightarrow> uuid \<Rightarrow> ('f, 'h) fleet_world \<Rightarrow> ('f, 'h) fleet_world" where
  "activator_stampActive uc appID w =
     (case fleetAppRepository_FindByID appID w of
        (Inl _, w1) \<Rightarrow> w1
      | (Inr app, w1) \<Rightarrow> stampActive (ac_orch uc) app w1)"

partial_function (option) await_resident ::
  "('f, 'h) FleetActivator \<Rightarrow> uuid \<Rightarrow> instant \<Rightarrow> nat \<Rightarrow> ('f, 'h) fleet_world \<Rightarrow>
   (string op_result \<times> ('f, 'h) fleet_world) option" where
  "await_resident uc appID deadline n w =
     (case residentEndpoint uc appID w of
        (Inl e, w1) \<Rightarrow> Some (Inl e, w1)
      | (Inr (Some endpoint), w1) \<Rightarrow> Some (Inr endpoint, activator_stampActive uc appID w1)
      | (Inr None, w1) \<Rightarrow>
          if deadline \<le> ac_clock uc (Suc n) then Some (Inl (OpFleet ErrActivationTimeout), w1)
          else if ac_done uc n then Some (Inl (OpFleet ErrOther), w1)
          else await_resident uc appID deadline (Suc n) (ac_env uc n w1))"

declare await_resident.simps [code]

definition wake ::
  "('f, 'h) FleetActivator \<Rightarrow> uuid \<Rightarrow> ('f, 'h) fleet_world \<Rightarrow> (string op_result \<times> ('f, 'h) fleet_world) option" where
  "wake uc appID w =
     (case ScaleApp (ac_orch uc) appID 1 w of
        ((_, Some e), w1) \<Rightarrow> Some (Inl e, w1)
      | ((isApp, None), w1) \<Rightarrow>
          if \<not> isApp then Some (Inl (OpFleet ErrRouteNotFound), w1)
          else await_resident uc appID (ac_clock uc 0 + ac_timeout uc) 0 (snd (actuateScheduledOwned (ac_orch uc) w1)))"

definition Activate ::
  "('f, 'h) FleetActivator \<Rightarrow> string \<Rightarrow> ('f, 'h) fleet_world \<Rightarrow> (string op_result \<times> ('f, 'h) fleet_world) option" where
  "Activate uc host w =
     (if host = '''' then Some (Inl (OpFleet ErrRouteNotFound), w)
      else case routeRepository_FindByHost host w of
        (Inl e, w1) \<Rightarrow> Some (Inl e, w1)
      | (Inr route, w1) \<Rightarrow>
          (case fleetAppRepository_FindByID (ro_AppID route) w1 of
             (Inl e, w2) \<Rightarrow>
               Some (Inl (if e = OpFleet ErrFleetAppNotFound then OpFleet ErrRouteNotFound else e), w2)
           | (Inr app, w2) \<Rightarrow>
               (case wakeableApp app of
                  Some e \<Rightarrow> Some (Inl e, w2)
                | None \<Rightarrow> wake uc (ro_AppID route) w2)))"

section \<open>The wake path returns\<close>

text \<open>The clock the loop needs: between two polls it advances by at least the poll interval.\<close>

definition clock_advances :: "('f, 'h) FleetActivator \<Rightarrow> bool" where
  "clock_advances uc \<longleftrightarrow> 0 < ac_poll uc \<and> (\<forall>n. ac_clock uc n + ac_poll uc \<le> ac_clock uc (Suc n))"

lemma clock_lower:
  assumes "clock_advances uc"
  shows "ac_clock uc 0 + int n * ac_poll uc \<le> ac_clock uc n"
proof (induction n)
  case (Suc n)
  have "ac_clock uc n + ac_poll uc \<le> ac_clock uc (Suc n)" using assms by (simp add: clock_advances_def)
  with Suc show ?case by (simp add: algebra_simps)
qed simp

lemma await_returns:
  assumes adv: "clock_advances uc" and budget: "deadline \<le> ac_clock uc 0 + int (Suc (n + k)) * ac_poll uc"
  shows "\<exists>r. await_resident uc appID deadline n w = Some r"
  using budget
proof (induction k arbitrary: n w)
  case 0
  then have "deadline \<le> ac_clock uc (Suc n)" using clock_lower [OF adv, of "Suc n"] by simp
  then show ?case
    by (subst await_resident.simps) (auto split: prod.splits sum.splits option.splits)
next
  case (Suc k)
  have ih: "\<exists>r. await_resident uc appID deadline (Suc n) v = Some r" for v
    using Suc.IH [of "Suc n" v] Suc.prems by (simp add: algebra_simps)
  then show ?case
    by (subst await_resident.simps) (auto split: prod.splits sum.splits option.splits)
qed

end
