(* ===== verification/Fleet_Fence.thy ===== *)
theory Fleet_Fence
  imports Fleet_Activator
begin

text \<open>
  The host fence: whatever a host's runtime and orchestrator do, the replica rows of other hosts (and
  the rows of no host) stay as they are; a host adds rows for others only as bare placements.  The steps
  of one host process form a relation and the fence is proved along every run of it.
\<close>

section \<open>The rows a host may not touch\<close>

definition foreign :: "uuid \<Rightarrow> ('f, 'h) fleet_world \<Rightarrow> Replica list" where
  "foreign self w = filter (\<lambda>r. re_HostID r \<noteq> Some self) (fw_replicas w)"

definition ids_distinct :: "('f, 'h) fleet_world \<Rightarrow> bool" where
  "ids_distinct w \<longleftrightarrow> distinct (map re_ID (fw_replicas w))"

text \<open>\<open>own_id self i w\<close>: no foreign row has the identifier i.\<close>

definition own_id :: "uuid \<Rightarrow> uuid \<Rightarrow> ('f, 'h) fleet_world \<Rightarrow> bool" where
  "own_id self i w \<longleftrightarrow> i \<notin> re_ID ` set (foreign self w)"

text \<open>An action on the own rows: the foreign part of the table and the app table are untouched.\<close>

definition own_step :: "uuid \<Rightarrow> ('f, 'h) fleet_world \<Rightarrow> ('f, 'h) fleet_world \<Rightarrow> bool" where
  "own_step self w w' \<longleftrightarrow>
     foreign self w' = foreign self w \<and> (ids_distinct w \<longrightarrow> ids_distinct w') \<and> fw_apps w' = fw_apps w \<and>
     fw_routes w' = fw_routes w \<and> vw_files (fw_vols w') = vw_files (fw_vols w)"

named_theorems own_intros \<open>one rule per operation that acts on the own rows only\<close>

lemma own_step_refl [simp, own_intros]: "own_step self w w"
  by (simp add: own_step_def)

lemma own_step_trans: "own_step self w w' \<Longrightarrow> own_step self w' w'' \<Longrightarrow> own_step self w w''"
  by (simp add: own_step_def)

lemma own_id_step: "own_step self w w' \<Longrightarrow> own_id self i w' \<longleftrightarrow> own_id self i w"
  by (simp add: own_step_def own_id_def)

lemma ids_step: "own_step self w w' \<Longrightarrow> ids_distinct w \<Longrightarrow> ids_distinct w'"
  by (simp add: own_step_def)

lemma own_step_same:
  "\<lbrakk>fw_replicas w' = fw_replicas w; fw_apps w' = fw_apps w; fw_routes w' = fw_routes w;
    vw_files (fw_vols w') = vw_files (fw_vols w)\<rbrakk> \<Longrightarrow> own_step self w w'"
  by (simp add: own_step_def foreign_def ids_distinct_def)

section \<open>Statements\<close>

lemma next_fault_fields [simp]:
  "fw_replicas (snd (next_fault w)) = fw_replicas w" "fw_apps (snd (next_fault w)) = fw_apps w"
  "fw_routes (snd (next_fault w)) = fw_routes w" "fw_vols (snd (next_fault w)) = fw_vols w"
  "fw_hosts (snd (next_fault w)) = fw_hosts w" "fw_host (snd (next_fault w)) = fw_host w"
  "fw_staging (snd (next_fault w)) = fw_staging w" "fw_tick (snd (next_fault w)) = fw_tick w"
  by (simp_all add: next_fault_def split: list.split)

lemma snd_fread: "snd (fread q w) = snd (next_fault w)"
  by (simp add: fread_def split: prod.split)

lemma fread_own [own_intros]: "own_step self w (snd (fread q w))"
  by (simp add: snd_fread own_step_same)

lemma fread_Inr: "fread q w = (Inr a, w') \<Longrightarrow> q w' = Inr a \<and> w' = snd (next_fault w)"
  by (auto simp: fread_def split: prod.splits if_splits)

lemma own_step_fwrite:
  assumes "\<And>v v'. \<lbrakk>fw_replicas v = fw_replicas w; own_step self w v; stmt v = Inr v'\<rbrakk> \<Longrightarrow> own_step self v v'"
  shows "own_step self w (snd (fwrite stmt w))"
proof -
  obtain f v where nf: "next_fault w = (f, v)" by fastforce
  have v: "fw_replicas v = fw_replicas w" "own_step self w v"
    using next_fault_fields [of w] by (simp_all add: own_step_same nf)
  show ?thesis
  proof (cases "stmt v")
    case (Inl e)
    then show ?thesis using v by (simp add: fwrite_def nf)
  next
    case (Inr v')
    from assms [OF v Inr] v(2) have "own_step self w v'" by (blast intro: own_step_trans)
    with Inr v(2) show ?thesis by (simp add: fwrite_def nf)
  qed
qed

lemma filter_map_own:
  assumes "P r = Q" "\<And>x. x \<in> set xs \<Longrightarrow> re_ID x = re_ID r \<Longrightarrow> \<not> P x" "\<not> Q"
  shows "filter P (map (\<lambda>x. if re_ID x = re_ID r then r else x) xs) = filter P xs"
  using assms by (induction xs) auto

lemma own_id_iff: "own_id self i w \<longleftrightarrow> (\<forall>x \<in> set (fw_replicas w). re_ID x = i \<longrightarrow> re_HostID x = Some self)"
  by (auto simp: own_id_def foreign_def)

lemma own_step_rows:
  assumes "filter (\<lambda>r. re_HostID r \<noteq> Some self) rs = foreign self w" "ids_distinct w \<longrightarrow> distinct (map re_ID rs)"
  shows "own_step self w (w\<lparr>fw_replicas := rs\<rparr>)"
  using assms by (simp add: own_step_def foreign_def ids_distinct_def)

lemma distinct_map_replace:
  "distinct (map re_ID xs) \<Longrightarrow> distinct (map re_ID (map (\<lambda>x. if re_ID x = re_ID r then r else x) xs))"
  by (simp add: o_def if_distrib [of re_ID] cong: if_cong)

lemma save_own:
  assumes "re_HostID r = Some self" "own_id self (re_ID r) w" "save_replica r w = Inr w'"
  shows "own_step self w w'"
proof (cases "\<exists>x \<in> set (fw_replicas w). re_ID x = re_ID r")
  case True
  then have w': "w' = w\<lparr>fw_replicas := map (\<lambda>x. if re_ID x = re_ID r then r else x) (fw_replicas w)\<rparr>"
    using assms(3) by (simp add: save_replica_def split: if_splits)
  have "filter (\<lambda>r. re_HostID r \<noteq> Some self) (map (\<lambda>x. if re_ID x = re_ID r then r else x) (fw_replicas w))
      = foreign self w"
    unfolding foreign_def using assms(1,2) by (intro filter_map_own [where Q = False]) (auto simp: own_id_iff)
  then show ?thesis
    unfolding w' by (intro own_step_rows) (simp_all add: ids_distinct_def distinct_map_replace del: map_map)
next
  case False
  then have w': "w' = w\<lparr>fw_replicas := fw_replicas w @ [r]\<rparr>"
    using assms(3) by (auto simp: save_replica_def insert_replica_def split: if_splits)
  show ?thesis
    unfolding w' using False assms(1) by (intro own_step_rows) (auto simp: foreign_def ids_distinct_def)
qed

lemma delete_own: "own_id self i w \<Longrightarrow> own_step self w (delete_replica i w)"
proof -
  assume "own_id self i w"
  then have "filter (\<lambda>r. re_HostID r \<noteq> Some self) (filter (\<lambda>x. re_ID x \<noteq> i) (fw_replicas w)) = foreign self w"
    by (auto simp: own_id_iff foreign_def intro!: filter_cong)
  then show ?thesis
    unfolding delete_replica_def by (intro own_step_rows) (auto simp: ids_distinct_def intro: distinct_map_filter)
qed

lemma Update_own [own_intros]:
  assumes "re_HostID r = Some self" "own_id self (re_ID r) w"
  shows "own_step self w (snd (replicaRepository_Update r w))"
  unfolding replicaRepository_Update_def
  by (rule own_step_fwrite) (use assms in \<open>auto simp: own_id_step intro: save_own\<close>)

lemma Delete_own [own_intros]:
  assumes "own_id self i w"
  shows "own_step self w (snd (replicaRepository_Delete i w))"
  unfolding replicaRepository_Delete_def
  by (rule own_step_fwrite) (use assms in \<open>auto simp: own_id_step intro: delete_own\<close>)

section \<open>The replica runtime\<close>

lemma volume_reads_files [simp]:
  "vw_files (snd (PrimaryVolume a v)) = vw_files v" "vw_files (snd (AffinityHost a v)) = vw_files v"
  "vw_files (snd (HasVolumes a v)) = vw_files v" "vw_files (snd (IsDegraded a v)) = vw_files v"
  by (auto simp: PrimaryVolume_def AffinityHost_def HasVolumes_def IsDegraded_def split: prod.split sum.split list.split
      dest: repo_files(1))

lemma save_all_files: "vw_files (snd (save_all upd vs v)) = vw_files v"
  by (induction vs arbitrary: v) (auto split: prod.split sum.split dest!: repo_files(3))

lemma volume_writes_files [simp]:
  "vw_files (snd (AttachTo m a r t v)) = vw_files v" "vw_files (snd (DetachFrom m a t v)) = vw_files v"
  "vw_files (snd (MarkDegraded a t v)) = vw_files v"
  by (auto simp: AttachTo_def DetachFrom_def MarkDegraded_def ownedVolumes_def save_all_files
      split: prod.split sum.split dest!: repo_files(1))

lemma on_vols_own [own_intros]:
  "vw_files (snd (f (fw_vols w))) = vw_files (fw_vols w) \<Longrightarrow> own_step self w (snd (on_vols f w))"
  by (rule own_step_same) (auto simp: on_vols_def split: prod.splits)

lemma on_host_own [own_intros]: "own_step self w (snd (on_host f w))"
  by (rule own_step_same) (simp_all add: on_host_def split: prod.splits)

lemma tick_own [own_intros]: "own_step self w (tick w)"
  by (rule own_step_same) (simp_all add: tick_def)

lemma own_id_tick [simp]: "own_id self i (tick w) \<longleftrightarrow> own_id self i w"
  by (rule own_id_step [OF tick_own])

lemma reclaim_own [own_intros]: "own_step self w (reclaimStagingDir uc i w)"
  by (rule own_step_same) (simp_all add: reclaimStagingDir_def)

lemma own_idI:
  assumes "ids_distinct w" "r \<in> set (fw_replicas w)" "re_HostID r = Some self"
  shows "own_id self (re_ID r) w"
  unfolding own_id_iff
proof (intro ballI impI)
  fix x assume "x \<in> set (fw_replicas w)" "re_ID x = re_ID r"
  then have "x = r" using assms(1,2) by (metis ids_distinct_def inj_on_contraD distinct_map)
  then show "re_HostID x = Some self" using assms(3) by simp
qed

lemma requireOwned_None [simp]: "requireOwnedReplica self r = None \<longleftrightarrow> re_HostID r = Some self"
  by (simp add: requireOwnedReplica_def split: option.split)

lemma FindByID_Inr:
  assumes "replicas_FindByID i w = (Inr r, w1)"
  shows "r \<in> set (fw_replicas w)" "re_ID r = i" "own_step self w w1" "fw_replicas w1 = fw_replicas w"
proof -
  from fread_Inr [OF assms [unfolded replicas_FindByID_def]]
  have f: "find (\<lambda>r. re_ID r = i) (fw_replicas w) = Some r" and w1: "w1 = snd (next_fault w)"
    by (auto split: option.splits)
  from f show "r \<in> set (fw_replicas w)" "re_ID r = i" by (auto simp: find_Some_iff)
  show "own_step self w w1" "fw_replicas w1 = fw_replicas w" by (simp_all add: w1 own_step_same)
qed

lemma reads_own [own_intros]:
  "own_step self w (snd (replicas_FindByID i w))" "own_step self w (snd (fleetAppRepository_FindByID i w))"
  "own_step self w (snd (replicas_ListByApp i w))" "own_step self w (snd (replicas_ListByHost i w))"
  "own_step self w (snd (fleetAppRepository_List w))" "own_step self w (snd (routeRepository_ListByApp i w))"
  "own_step self w (snd (routeRepository_FindByHost h w))"
  "own_step self w (snd (fleetAppRepository_FindByComponentEnv c e o' w))"
  by (simp_all add: replicas_FindByID_def fleetAppRepository_FindByID_def replicas_ListByApp_def replicas_ListByHost_def
      fleetAppRepository_List_def routeRepository_ListByApp_def routeRepository_FindByHost_def
      fleetAppRepository_FindByComponentEnv_def fread_own)

text \<open>The form in which the rules are used in a chain: the operation's outcome is named.\<close>

lemma own_result: "own_step self w (snd x) \<Longrightarrow> x = (r, w') \<Longrightarrow> own_step self w w'"
  by simp

lemma markDead_own [own_intros]:
  assumes "re_HostID r = Some self" "own_id self (re_ID r) w"
  shows "own_step self w (snd (markDead uc r cause w))"
proof -
  let ?d = "r\<lparr>re_State := ReplicaStateDead, re_Message := rt_errorText uc cause, re_UpdatedAt := rt_now uc (fw_tick w)\<rparr>"
  have "own_step self (tick w) (snd (replicaRepository_Update ?d (tick w)))"
    using assms by (intro Update_own) simp_all
  then show ?thesis
    unfolding markDead_def Let_def snd_conv by (blast intro: own_step_trans tick_own reclaim_own)
qed

lemma plan_volume_own: "own_step self w (snd (plan_volume uc app w))"
proof -
  have "own_step self w (snd (on_vols (PrimaryVolume (fa_ID app)) w))" by (simp add: on_vols_own)
  then show ?thesis by (auto simp: plan_volume_def split: prod.split sum.split option.split)
qed

lemma plan_boot_own [own_intros]: "own_step self w (snd (plan_boot uc app w))"
proof -
  obtain x w1 where p: "plan_volume uc app (tick w) = (x, w1)" by fastforce
  have "own_step self w w1" using own_step_trans [OF tick_own own_result [OF plan_volume_own p]] .
  then show ?thesis
    by (cases "bootSecrets uc app w"; cases x) (auto simp: plan_boot_def p tick_own split: option.split)
qed

lemma commit_boot_own:
  assumes "re_HostID r = Some self" "own_id self (re_ID r) w"
  shows "own_step self w (snd (commit_boot uc app r plan w))"
proof -
  obtain x w1 where u: "replicaRepository_Update r w = (x, w1)" by fastforce
  from own_result [OF Update_own [OF assms] u] have 1: "own_step self w w1" .
  obtain y w2 where d: "on_host (bp_Decommission (rt_booter uc) (replicaDecommissionInput r)) w1 = (y, w2)" by fastforce
  from own_result [OF on_host_own d] have 2: "own_step self w1 w2" .
  have v: "own_step self w1 (snd (on_vols (AttachTo vm (fa_ID app) (re_ID r) t) (tick w1)))" for vm t
    by (rule own_step_trans [OF tick_own on_vols_own]) simp
  have w2: "own_step self w w2" and re: "own_step self w (reclaimStagingDir uc (re_ID r) w2)"
    using own_step_trans [OF 1 2] own_step_trans [OF own_step_trans [OF 1 2] reclaim_own] .
  have at: "own_step self w (snd (on_vols (AttachTo vm (fa_ID app) (re_ID r) t) (tick w1)))" for vm t
    using own_step_trans [OF 1 v] .
  show ?thesis
    by (cases x; cases y) (simp_all add: commit_boot_def u d 1 w2 re at split: option.split)
qed

lemma staging_own: "own_step self w (w\<lparr>fw_staging := ds\<rparr>)"
  by (rule own_step_same) simp_all

lemma boot_planned_own:
  assumes "re_HostID r = Some self" "own_id self (re_ID r) w"
  shows "own_step self w (snd (boot_planned uc app r plan w))"
proof -
  let ?w0 = "w\<lparr>fw_staging := staging_dir uc (re_ID r) # fw_staging w\<rparr>"
  obtain x w1 where m: "on_host (rt_materialize uc (materialize_input uc app r plan w)) ?w0 = (x, w1)" by fastforce
  have 1: "own_step self w w1" using own_step_trans [OF staging_own own_result [OF on_host_own m]] .
  have dead1: "own_step self w (snd (markDead uc r e w1))" for e
    using 1 assms by (blast intro: own_step_trans markDead_own own_id_step [THEN iffD2])
  show ?thesis
  proof (cases x)
    case (Inl e)
    then show ?thesis by (simp add: boot_planned_def m dead1)
  next
    case (Inr rootfs)
    obtain y w2 where b: "on_host (bp_BootResident (rt_booter uc) (boot_input app r plan rootfs)) w1 = (y, w2)" by fastforce
    have 2: "own_step self w w2" using own_step_trans [OF 1 own_result [OF on_host_own b]] .
    then have 3: "own_step self w (tick w2)" by (blast intro: own_step_trans tick_own)
    have id: "own_id self (re_ID r) w2" "own_id self (re_ID r) (tick w2)"
      using assms(2) own_id_step [OF 2] by simp_all
    have dead2: "own_step self w (snd (markDead uc r e w2))" for e
      using 2 id(1) assms(1) by (blast intro: own_step_trans markDead_own)
    have ok: "own_step self w (snd (commit_boot uc app (resident_row app r rootfs res t) plan (tick w2)))" for res t
      using id(2) assms(1) by (intro own_step_trans [OF 3] commit_boot_own) (simp_all add: resident_row_def)
    show ?thesis by (cases y) (simp_all add: boot_planned_def m Inr b dead2 ok)
  qed
qed

lemma BootReplica_own [own_intros]:
  assumes "ids_distinct w" "rt_selfHost uc = self"
  shows "own_step self w (snd (BootReplica uc i w))"
proof -
  obtain x w1 where f: "replicas_FindByID i w = (x, w1)" by fastforce
  have 1: "own_step self w w1" by (rule own_result [OF reads_own(1) f])
  show ?thesis
  proof (cases x)
    case (Inl e)
    then show ?thesis by (simp add: BootReplica_def f 1)
  next
    case (Inr r)
    show ?thesis
    proof (cases "re_HostID r = Some self \<and> re_State r \<noteq> ReplicaStateResident")
      case False
      then show ?thesis
        using assms(2) by (auto simp: BootReplica_def f Inr 1 requireOwnedReplica_def split: option.split)
    next
      case True
      then have own: "re_HostID r = Some self" by simp
      note found = FindByID_Inr [OF f [unfolded Inr]]
      have id1: "own_id self (re_ID r) w1" using own_idI [OF assms(1) found(1) own] own_id_step [OF 1] by simp
      obtain y w2 where a: "fleetAppRepository_FindByID (re_AppID r) w1 = (y, w2)" by fastforce
      have 2: "own_step self w w2" using own_step_trans [OF 1 own_result [OF reads_own(2) a]] .
      define b where "b = r\<lparr>re_State := ReplicaStateBooting, re_Message := '''', re_UpdatedAt := rt_now uc (fw_tick w2)\<rparr>"
      have b: "re_HostID b = Some self" "re_ID b = re_ID r" by (simp_all add: b_def own)
      obtain z w3 where u: "replicaRepository_Update b (tick w2) = (z, w3)" by fastforce
      have id2: "own_id self (re_ID b) (tick w2)" using id1 own_id_step [OF 1] own_id_step [OF 2] b by simp
      have 3: "own_step self w w3"
        using own_step_trans [OF own_step_trans [OF 2 tick_own] own_result [OF Update_own [OF b(1) id2] u]] .
      have 4: "own_step self w (snd (plan_boot uc app w3))" for app using own_step_trans [OF 3 plan_boot_own] .
      have id4: "own_id self (re_ID b) (snd (plan_boot uc app w3))" for app
        using id2 own_id_step [OF 2] own_id_step [OF 4 [of app]] by simp
      have dead: "own_step self w (snd (markDead uc b e (snd (plan_boot uc app w3))))" for e app
        using own_step_trans [OF 4 markDead_own [OF b(1) id4]] .
      have go: "own_step self w (snd (boot_planned uc app b plan (snd (plan_boot uc app w3))))" for app plan
        using own_step_trans [OF 4 boot_planned_own [OF b(1) id4]] .
      have body: "own_step self w (snd (case plan_boot uc app w3 of (Inl e, w4) \<Rightarrow> markDead uc b e w4
            | (Inr plan, w4) \<Rightarrow> boot_planned uc app b plan w4))" for app
        using dead [of _ app] go [of app] by (auto split: prod.split sum.split)
      show ?thesis
        using True assms(2) 2 3 body [unfolded b_def]
        by (cases y; cases z) (simp_all add: BootReplica_def f Inr a u [unfolded b_def] Let_def requireOwnedReplica_def)
    qed
  qed
qed

lemma DecommissionReplica_own [own_intros]:
  assumes "ids_distinct w" "rt_selfHost uc = self"
  shows "own_step self w (snd (DecommissionReplica uc i w))"
proof -
  obtain x w1 where f: "replicas_FindByID i w = (x, w1)" by fastforce
  have 1: "own_step self w w1" by (rule own_result [OF reads_own(1) f])
  show ?thesis
  proof (cases x)
    case (Inl e)
    then show ?thesis by (simp add: DecommissionReplica_def f 1)
  next
    case (Inr r)
    show ?thesis
    proof (cases "re_HostID r = Some self")
      case False
      then show ?thesis
        using assms(2) by (auto simp: DecommissionReplica_def f Inr 1 requireOwnedReplica_def split: option.split)
    next
      case own: True
      note found = FindByID_Inr [OF f [unfolded Inr]]
      have id1: "own_id self (re_ID r) w" using own_idI [OF assms(1) found(1) own] .
      obtain y w2 where d: "(if has_artifacts r
          then on_host (bp_Decommission (rt_booter uc) (replicaDecommissionInput r)) w1 else (Inr (), w1)) = (y, w2)"
        by fastforce
      have "own_step self w1 w2" using own_result [OF on_host_own, of _ w1] d by (auto split: if_splits)
      then have 2: "own_step self w w2" using own_step_trans [OF 1] by blast
      define w3 where "w3 = (case rt_volumes uc of None \<Rightarrow> w2
          | Some vm \<Rightarrow> snd (on_vols (DetachFrom vm (re_AppID r) (rt_now uc (fw_tick w2))) (tick w2)))"
      have "own_step self w2 w3"
        by (auto simp: w3_def split: option.split intro!: own_step_trans [OF tick_own] on_vols_own)
      then have 4: "own_step self w (reclaimStagingDir uc (re_ID r) w3)"
        using own_step_trans [OF 2] reclaim_own by (blast intro: own_step_trans)
      then have "own_step self w (snd (replicaRepository_Delete (re_ID r) (reclaimStagingDir uc (re_ID r) w3)))"
        using own_step_trans [OF 4 Delete_own] id1 own_id_step [OF 4] by blast
      then show ?thesis
        using own assms(2) 2
        by (cases y) (simp_all add: DecommissionReplica_def f Inr d Let_def w3_def [symmetric] requireOwnedReplica_def)
    qed
  qed
qed

lemma RefreshHealth_own:
  assumes "rt_selfHost uc = self" "own_id self (re_ID r) w"
  shows "own_step self w (snd (snd (RefreshHealth uc r w)))"
proof -
  let ?d = "r\<lparr>re_State := ReplicaStateDead, re_Message := ''vm process exited'', re_UpdatedAt := rt_now uc (fw_tick w)\<rparr>"
  have "own_step self (tick w) (snd (replicaRepository_Update ?d (tick w)))" if "re_HostID r = Some self"
    using assms(2) that by (intro Update_own) simp_all
  then have u: "own_step self w (snd (replicaRepository_Update ?d (tick w)))" if "re_HostID r = Some self"
    using that own_step_trans [OF tick_own] by blast
  show ?thesis
  proof (cases "re_HostID r = Some self")
    case True
    obtain x v where x: "replicaRepository_Update ?d (tick w) = (x, v)" by fastforce
    have "own_step self w v" using u [OF True] x by simp
    then show ?thesis using True assms(1) by (cases x) (simp_all add: RefreshHealth_def requireOwnedReplica_def x)
  next
    case False
    then show ?thesis using assms(1) by (auto simp: RefreshHealth_def requireOwnedReplica_def split: option.split)
  qed
qed

section \<open>The orchestrator\<close>

text \<open>A row as a placement writes it: nothing has been started for it.\<close>

definition placed_bare :: "Replica \<Rightarrow> bool" where
  "placed_bare r \<longleftrightarrow> re_State r = ReplicaStateScheduled \<and> \<not> has_artifacts r"

definition host_fenced :: "uuid \<Rightarrow> ('f, 'h) fleet_world \<Rightarrow> ('f, 'h) fleet_world \<Rightarrow> bool" where
  "host_fenced self w w' \<longleftrightarrow>
     (ids_distinct w \<longrightarrow> ids_distinct w' \<and> set (foreign self w) \<subseteq> set (foreign self w') \<and>
        (\<forall>r \<in> set (foreign self w'). r \<in> set (foreign self w) \<or> placed_bare r))"

named_theorems fence_intros \<open>one rule per operation of the orchestrator\<close>

lemma own_fenced: "own_step self w w' \<Longrightarrow> host_fenced self w w'"
  by (simp add: own_step_def host_fenced_def)

lemma fenced_refl [simp]: "host_fenced self w w"
  by (simp add: host_fenced_def)

lemma fenced_trans: "host_fenced self w w' \<Longrightarrow> host_fenced self w' w'' \<Longrightarrow> host_fenced self w w''"
  by (auto simp: host_fenced_def)

lemma fenced_ids: "host_fenced self w w' \<Longrightarrow> ids_distinct w \<Longrightarrow> ids_distinct w'"
  by (simp add: host_fenced_def)

lemma fenced_same: "fw_replicas w' = fw_replicas w \<Longrightarrow> host_fenced self w w'"
  by (simp add: host_fenced_def ids_distinct_def foreign_def)

text \<open>A chain may use that the identifiers are still distinct.\<close>

lemma fenced_chain:
  "host_fenced self w w' \<Longrightarrow> (ids_distinct w' \<Longrightarrow> host_fenced self w' w'') \<Longrightarrow> host_fenced self w w''"
  by (auto simp: host_fenced_def)

lemma fenced_result: "host_fenced self w (snd x) \<Longrightarrow> x = (r, w') \<Longrightarrow> host_fenced self w w'"
  by simp

lemma Create_fenced:
  assumes "placed_bare r"
  shows "host_fenced self w (snd (replicaRepository_Create r w))"
proof -
  obtain f v where nf: "next_fault w = (f, v)" by fastforce
  have rows: "fw_replicas v = fw_replicas w" using next_fault_fields(1) [of w] nf by simp
  show ?thesis
  proof (cases "insert_replica r v")
    case (Inl e)
    then show ?thesis using rows by (simp add: replicaRepository_Create_def fwrite_def nf fenced_same)
  next
    case (Inr v')
    then have "v' = v\<lparr>fw_replicas := fw_replicas w @ [r]\<rparr>" "re_ID r \<notin> re_ID ` set (fw_replicas w)"
      using rows by (auto simp: insert_replica_def split: if_splits)
    then have "host_fenced self w v'"
      using assms by (auto simp: host_fenced_def ids_distinct_def foreign_def)
    then show ?thesis using rows by (simp add: replicaRepository_Create_def fwrite_def nf Inr fenced_same)
  qed
qed

text \<open>A step of a reconcile pass also leaves the apps, the routes and this host's files alone.\<close>

definition pass_step :: "uuid \<Rightarrow> ('f, 'h) fleet_world \<Rightarrow> ('f, 'h) fleet_world \<Rightarrow> bool" where
  "pass_step self w w' \<longleftrightarrow> host_fenced self w w' \<and>
     (ids_distinct w \<longrightarrow> fw_apps w' = fw_apps w \<and> fw_routes w' = fw_routes w \<and> vw_files (fw_vols w') = vw_files (fw_vols w))"

lemma own_pass: "own_step self w w' \<Longrightarrow> pass_step self w w'"
  using own_fenced by (auto simp: pass_step_def own_step_def)

lemma pass_trans: "pass_step self w w' \<Longrightarrow> pass_step self w' w'' \<Longrightarrow> pass_step self w w''"
  by (auto simp: pass_step_def intro: fenced_trans dest: fenced_ids)

lemma pass_refl [simp]: "pass_step self w w"
  by (simp add: pass_step_def)

lemma pass_result: "pass_step self w (snd x) \<Longrightarrow> x = (r, w') \<Longrightarrow> pass_step self w w'"
  by simp

lemma Create_pass:
  assumes "placed_bare r"
  shows "pass_step self w (snd (replicaRepository_Create r w))"
proof -
  obtain f v where nf: "next_fault w = (f, v)" by fastforce
  have "fw_apps v = fw_apps w" "fw_routes v = fw_routes w" "fw_vols v = fw_vols w" using next_fault_fields [of w] nf by simp_all
  then show ?thesis
    using Create_fenced [OF assms, of self w]
    by (auto simp: pass_step_def replicaRepository_Create_def fwrite_def nf insert_replica_def)
qed

lemma scheduled_row_bare [simp]: "placed_bare (scheduled_row app i h t)"
  by (simp add: placed_bare_def scheduled_row_def has_artifacts_def)

locale fleet_host =
  fixes uc :: "('f, 'h) FleetOrchestrator"
  assumes select_frame: "fo_SelectHost uc req w = (r, w') \<Longrightarrow> w' = w\<lparr>fw_hosts := fw_hosts w'\<rparr>"
    and select_affinity: "\<lbrakk>fo_SelectHost uc req w = (Inr h, w'); pr_AffinityHostID req = Some a\<rbrakk> \<Longrightarrow> h = a"
    and live_frame: "fo_IsHostLive uc i w = (l, w') \<Longrightarrow> w' = w\<lparr>fw_hosts := fw_hosts w'\<rparr>"
    and same_host: "rt_selfHost (fo_runtime uc) = fo_selfHost uc"
begin

abbreviation self :: uuid where "self \<equiv> fo_selfHost uc"

lemma hosts_own: "w' = w\<lparr>fw_hosts := fw_hosts w'\<rparr> \<Longrightarrow> own_step self w w'"
proof -
  assume "w' = w\<lparr>fw_hosts := fw_hosts w'\<rparr>"
  then obtain h where "w' = w\<lparr>fw_hosts := h\<rparr>" by blast
  then show ?thesis by (simp add: own_step_same)
qed

lemma select_own: "own_step self w (snd (fo_SelectHost uc req w))"
  using select_frame [of req w] hosts_own by (metis prod.collapse)

lemma live_own: "own_step self w (snd (fo_IsHostLive uc i w))"
  using live_frame [of i w] hosts_own by (metis prod.collapse)

lemma decommission_own: "ids_distinct w \<Longrightarrow> own_step self w (snd (DecommissionReplica (fo_runtime uc) i w))"
  by (rule DecommissionReplica_own [OF _ same_host])

lemma drain_own: "ids_distinct w \<Longrightarrow> own_step self w (snd (drain uc rs err w))"
proof (induction rs arbitrary: err w)
  case (Cons r rs)
  obtain x w1 where d: "DecommissionReplica (fo_runtime uc) (re_ID r) w = (x, w1)" by fastforce
  have 1: "own_step self w w1" by (rule own_result [OF decommission_own [OF Cons.prems] d])
  have "own_step self w1 (snd (drain uc rs (record_teardown err x) w1))"
    by (rule Cons.IH [OF ids_step [OF 1 Cons.prems]])
  then show ?case using own_step_trans [OF 1] by (simp add: d)
qed simp

lemma health_pass_own:
  "\<lbrakk>ids_distinct w; \<forall>r \<in> set rs. ownsReplica uc r \<longrightarrow> own_id self (re_ID r) w\<rbrakk> \<Longrightarrow>
   own_step self w (snd (snd (health_pass uc rs err w)))"
proof (induction rs arbitrary: err w)
  case (Cons r rs)
  show ?case
  proof (cases "re_State r \<noteq> ReplicaStateResident \<or> \<not> ownsReplica uc r")
    case True
    obtain a b c where h: "health_pass uc rs err w = (a, b, c)" by (metis prod_cases3)
    from Cons.IH [of w err] Cons.prems have "own_step self w c" by (simp add: h)
    with True show ?thesis by (simp add: h)
  next
    case False
    obtain x r' w1 where p: "RefreshHealth (fo_runtime uc) r w = (x, r', w1)" by (metis prod_cases3)
    have 1: "own_step self w w1"
      using RefreshHealth_own [OF same_host, of r w] Cons.prems(2) False by (simp add: p)
    define y where "y = (if x = Inr False
        then (case DecommissionReplica (fo_runtime uc) (re_ID r') w1 of (x, w2) \<Rightarrow> (record_teardown err x, w2)) else (err, w1))"
    obtain err1 w3 where y: "y = (err1, w3)" by fastforce
    have "own_step self w1 w3"
      using y decommission_own [OF ids_step [OF 1 Cons.prems(1)], of "re_ID r'"]
      by (auto simp: y_def split: if_splits prod.splits)
    then have 3: "own_step self w w3" by (rule own_step_trans [OF 1])
    have "own_step self w3 (snd (snd (health_pass uc rs err1 w3)))"
      using Cons.prems(2) by (intro Cons.IH ids_step [OF 3 Cons.prems(1)]) (simp add: own_id_step [OF 3])
    then show ?thesis
      using False own_step_trans [OF 3] by (auto simp: p y_def [symmetric] y split: prod.splits)
  qed
qed simp

lemma place_pass: "pass_step self w (snd (place uc app aff n w))"
proof (induction n arbitrary: w)
  case (Suc n)
  obtain x w1 where s: "fo_SelectHost uc (placement_request app aff) w = (x, w1)" by fastforce
  have 1: "pass_step self w w1" by (rule own_pass [OF own_result [OF select_own s]])
  show ?case
  proof (cases x)
    case (Inl e)
    then show ?thesis by (simp add: s 1)
  next
    case (Inr host)
    obtain y w2 where c: "replicaRepository_Create
        (scheduled_row app (fo_newID uc (fw_tick w1)) host (fo_now uc (fw_tick w1))) (tick w1) = (y, w2)" by fastforce
    have "pass_step self (tick w1) w2" by (rule pass_result [OF Create_pass c]) simp
    then have 2: "pass_step self w w2" using pass_trans [OF pass_trans [OF 1 own_pass [OF tick_own]]] by blast
    then have "pass_step self w (snd (place uc app aff n w2))" using pass_trans Suc.IH by blast
    with 1 2 show ?thesis by (cases y) (simp_all add: s Inr c)
  qed
qed simp

lemma evalPlaceable_own: "own_step self w (snd (evalPlaceableOnBackingFile uc i w))"
proof -
  obtain x w1 where p: "on_vols (PrimaryVolume i) w = (x, w1)" by fastforce
  have "own_step self w w1" by (rule own_result [OF on_vols_own p]) simp
  then show ?thesis
    by (simp add: evalPlaceableOnBackingFile_def p Let_def split: sum.split option.split)
qed

lemma fill_shortfall_pass: "pass_step self w (snd (fill_shortfall uc app err n w))"
proof -
  obtain pl c w1 where e: "evalPlaceableOnBackingFile uc (fa_ID app) w = ((pl, c), w1)" by (metis prod.exhaust)
  have 1: "pass_step self w w1" by (rule own_pass [OF own_result [OF evalPlaceable_own e]])
  obtain x w2 where a: "(if fo_volumes uc = None then (Inr (None, False), w1) else on_vols (AffinityHost (fa_ID app)) w1) = (x, w2)"
    by fastforce
  have "own_step self w1 w2"
    using a own_result [OF on_vols_own, of "AffinityHost (fa_ID app)" w1] by (auto split: if_splits)
  then have 2: "pass_step self w w2" using pass_trans [OF 1 own_pass] by blast
  then have "pass_step self w (snd (place uc app aff n w2))" for aff using pass_trans place_pass by blast
  with 1 2 show ?thesis by (cases x) (auto simp: fill_shortfall_def e a split: prod.split)
qed

lemma settle_pass: "ids_distinct w \<Longrightarrow> pass_step self w (snd (settle uc app occ err w))"
  using fill_shortfall_pass own_pass [OF drain_own] by (simp add: settle_def split: prod.split) (metis snd_conv)

lemma sync_network_own: "own_step self w (sync_network uc app w)"
  by (rule own_step_same) (simp_all add: sync_network_def)

text \<open>A slice listed from the table holds rows of the table.\<close>

lemma listed_own:
  assumes "ids_distinct w" "replicas_ListByApp i w = (Inr rs, w1)"
  shows "\<forall>r \<in> set rs. ownsReplica uc r \<longrightarrow> own_id self (re_ID r) w"
proof -
  from fread_Inr [OF assms(2) [unfolded replicas_ListByApp_def]]
  have "rs = app_replicas_of i (fw_replicas w)" by auto
  then have "set rs \<subseteq> set (fw_replicas w)" by (auto simp: app_replicas_of_def)
  then show ?thesis using own_idI [OF assms(1)] by (auto simp: ownsReplica_def)
qed

lemma reconcile_replicas_pass:
  assumes "ids_distinct w" "\<forall>r \<in> set rs. ownsReplica uc r \<longrightarrow> own_id self (re_ID r) w"
  shows "pass_step self w (snd (reconcile_replicas uc app rs w))"
proof -
  obtain e1 w1 where d: "drain uc (dead_rows uc rs) None w = (e1, w1)" by fastforce
  have 1: "own_step self w w1" by (rule own_result [OF drain_own [OF assms(1)] d])
  obtain pr e2 w2 where h: "health_pass uc rs e1 w1 = (pr, e2, w2)" by (metis prod_cases3)
  have "own_step self w1 w2"
    using health_pass_own [OF ids_step [OF 1 assms(1)], of rs e1] assms(2) by (simp add: h own_id_step [OF 1])
  then have 2: "own_step self w w2" by (rule own_step_trans [OF 1])
  obtain fl w3 where s: "settle uc app (filter occupies pr) e2 w2 = (fl, w3)" by fastforce
  have 3: "pass_step self w w3"
    by (rule pass_trans [OF own_pass [OF 2] pass_result [OF settle_pass [OF ids_step [OF 2 assms(1)]] s]])
  have "pass_step self w (sync_network uc app w3)" by (rule pass_trans [OF 3 own_pass [OF sync_network_own]])
  with 3 show ?thesis by (cases fl) (simp_all add: reconcile_replicas_def d h s)
qed

lemma standoff_own: "own_step self w (snd (stateful_standoff uc app w))"
proof -
  obtain x w1 where a: "on_vols (AffinityHost (fa_ID app)) w = (x, w1)" by fastforce
  have 1: "own_step self w w1" by (rule own_result [OF on_vols_own a]) simp
  have l: "own_step self w v" if "fo_IsHostLive uc h w1 = (y, v)" for h y v
    by (rule own_step_trans [OF 1 own_result [OF live_own that]])
  have m: "own_step self w (snd (on_vols (MarkDegraded i t) (tick v)))" if "fo_IsHostLive uc h w1 = (y, v)" for h i t y v
    by (rule own_step_trans [OF l [OF that]]) (rule own_step_trans [OF tick_own on_vols_own], simp)
  from 1 show ?thesis
    by (auto simp: stateful_standoff_def a split: sum.split prod.split option.split bool.split intro: l m)
qed

lemma ReconcileApp_pass: "pass_step self w (snd (ReconcileApp uc i w))"
proof (cases "ids_distinct w")
  case True
  obtain x w1 where a: "fleetAppRepository_FindByID i w = (x, w1)" by fastforce
  have 1: "own_step self w w1" by (rule own_result [OF reads_own(2) a])
  show ?thesis
  proof (cases x)
    case (Inl e)
    then show ?thesis by (simp add: ReconcileApp_def a own_pass [OF 1])
  next
    case (Inr app)
    obtain y w2 where l: "replicas_ListByApp (fa_ID app) w1 = (y, w2)" by fastforce
    have 12: "own_step self w1 w2" by (rule own_result [OF reads_own(3) l])
    have 2: "own_step self w w2" by (rule own_step_trans [OF 1 12])
    show ?thesis
    proof (cases y)
      case (Inl e)
      then show ?thesis by (simp add: ReconcileApp_def a Inr l own_pass [OF 2])
    next
      case rs: (Inr rs)
      obtain st w3 where s: "stateful_standoff uc app w2 = (st, w3)" by fastforce
      have 23: "own_step self w2 w3" by (rule own_result [OF standoff_own s])
      have 3: "own_step self w w3" by (rule own_step_trans [OF 2 23])
      have "\<forall>r \<in> set rs. ownsReplica uc r \<longrightarrow> own_id self (re_ID r) w3"
        using listed_own [OF ids_step [OF 1 True] l [unfolded rs]]
        by (simp add: own_id_step [OF 12] own_id_step [OF 23] own_id_step [OF 1] own_id_step [OF 3])
      then have "pass_step self w (snd (reconcile_replicas uc app rs w3))"
        using pass_trans [OF own_pass [OF 3] reconcile_replicas_pass [OF ids_step [OF 3 True]]] by blast
      then show ?thesis by (simp add: ReconcileApp_def a Inr l rs s own_pass [OF 3])
    qed
  qed
qed (simp add: pass_step_def host_fenced_def)

lemma ReconcileApp_fenced [fence_intros]: "host_fenced self w (snd (ReconcileApp uc i w))"
  using ReconcileApp_pass by (simp add: pass_step_def)

lemma actuate_rows_own: "ids_distinct w \<Longrightarrow> own_step self w (actuate_rows uc rs w)"
proof (induction rs arbitrary: w)
  case (Cons r rs)
  let ?v = "if re_State r \<noteq> ReplicaStateScheduled then w else snd (BootReplica (fo_runtime uc) (re_ID r) w)"
  have 1: "own_step self w ?v" using BootReplica_own [OF Cons.prems same_host] by simp
  from Cons.IH [OF ids_step [OF 1 Cons.prems]] show ?case using own_step_trans [OF 1] by simp
qed simp

lemma actuate_own: "ids_distinct w \<Longrightarrow> own_step self w (snd (actuateScheduledOwned uc w))"
proof -
  assume d: "ids_distinct w"
  obtain x w1 where l: "replicas_ListByHost self w = (x, w1)" by fastforce
  have 1: "own_step self w w1" by (rule own_result [OF reads_own(4) l])
  have "own_step self w (actuate_rows uc rs w1)" for rs
    by (rule own_step_trans [OF 1 actuate_rows_own [OF ids_step [OF 1 d]]])
  with 1 show ?thesis by (cases x) (simp_all add: actuateScheduledOwned_def l)
qed

lemma actuate_fenced [fence_intros]: "host_fenced self w (snd (actuateScheduledOwned uc w))"
  using own_fenced [OF actuate_own] by (cases "ids_distinct w") (simp_all add: host_fenced_def)

lemma fold_fenced: "(\<And>a v. host_fenced self v (f a v)) \<Longrightarrow> host_fenced self w (fold f as w)"
  by (induction "as" arbitrary: w) (auto intro: fenced_trans)

lemma ReconcileAll_fenced [fence_intros]: "host_fenced self w (snd (ReconcileAll uc w))"
proof -
  obtain x w1 where l: "fleetAppRepository_List w = (x, w1)" by fastforce
  have 1: "host_fenced self w w1" by (rule own_fenced [OF own_result [OF reads_own(5) l]])
  have "host_fenced self w1 (fold (\<lambda>a w. snd (ReconcileApp uc (fa_ID a) w)) as w1)" for "as"
    by (rule fold_fenced) (rule ReconcileApp_fenced)
  then have "host_fenced self w (snd (actuateScheduledOwned uc (fold (\<lambda>a w. snd (ReconcileApp uc (fa_ID a) w)) as w1)))" for "as"
    using fenced_trans [OF fenced_trans [OF 1] actuate_fenced] by blast
  with 1 show ?thesis by (cases x) (simp_all add: ReconcileAll_def l)
qed

text \<open>Writes to the app and route tables leave the replica rows alone; deleting an app without replicas too.\<close>

lemma fwrite_rows:
  assumes "\<And>v v'. fw_replicas v = fw_replicas w \<Longrightarrow> stmt v = Inr v' \<Longrightarrow> fw_replicas v' = fw_replicas w"
  shows "fw_replicas (snd (fwrite stmt w)) = fw_replicas w"
proof -
  obtain f v where nf: "next_fault w = (f, v)" by fastforce
  have v: "fw_replicas v = fw_replicas w" using next_fault_fields(1) [of w] nf by simp
  show ?thesis using assms [OF v] v by (cases "stmt v") (simp_all add: fwrite_def nf)
qed

lemma app_writes_rows:
  "fw_replicas (snd (fleetAppRepository_Update a w)) = fw_replicas w"
  "fw_replicas (snd (fleetAppRepository_Create a w)) = fw_replicas w"
  "fw_replicas (snd (routeRepository_Create r w)) = fw_replicas w"
  "fw_replicas (snd (routeRepository_DeleteByApp i w)) = fw_replicas w"
  unfolding fleetAppRepository_Update_def fleetAppRepository_Create_def routeRepository_Create_def routeRepository_DeleteByApp_def
  by (rule fwrite_rows; auto simp: save_app_def insert_app_def insert_route_def split: if_splits)+

lemma delete_app_rows:
  assumes "\<forall>r \<in> set (fw_replicas w). re_AppID r \<noteq> i"
  shows "fw_replicas (snd (fleetAppRepository_Delete i w)) = fw_replicas w"
  unfolding fleetAppRepository_Delete_def using assms
  by (intro fwrite_rows) (auto simp: delete_app_def filter_id_conv split: if_splits)

lemma on_vols_rows: "fw_replicas (snd (on_vols f w)) = fw_replicas w"
  by (simp add: on_vols_def split: prod.split)

lemma on_vols_rows': "on_vols f w = (x, w') \<Longrightarrow> fw_replicas w' = fw_replicas w"
  by (metis on_vols_rows snd_conv)

lemma tick_rows [simp]: "fw_replicas (tick w) = fw_replicas w" "fw_apps (tick w) = fw_apps w"
  by (simp_all add: tick_def)

lemmas rows_kept = fenced_same [OF on_vols_rows] fenced_same [OF app_writes_rows(1)] fenced_same [OF app_writes_rows(2)]
  fenced_same [OF app_writes_rows(3)]

lemma ScaleApp_fenced [fence_intros]: "host_fenced self w (snd (ScaleApp uc i n w))"
proof -
  obtain x w1 where a: "fleetAppRepository_FindByID i w = (x, w1)" by fastforce
  have 1: "host_fenced self w w1" by (rule own_fenced [OF own_result [OF reads_own(2) a]])
  show ?thesis
  proof (cases x)
    case (Inl e)
    then show ?thesis by (simp add: ScaleApp_def a 1)
  next
    case (Inr app)
    define k where "k = (if n < 0 then 0 else n)"
    define q where "q = (if 1 < k \<and> fo_volumes uc \<noteq> None then on_vols (HasVolumes (fa_ID app)) w1 else (Inr False, w1))"
    obtain y w2 where h: "q = (y, w2)" by fastforce
    have "fw_replicas w2 = fw_replicas w1" using h by (auto simp: q_def split: if_splits dest: on_vols_rows')
    then have 2: "host_fenced self w w2" by (rule fenced_trans [OF 1 fenced_same])
    obtain z w3 where u: "fleetAppRepository_Update
        (app\<lparr>fa_DesiredReplicas := k, fa_UpdatedAt := fo_now uc (fw_tick w2)\<rparr>) (tick w2) = (z, w3)" by fastforce
    have 3: "host_fenced self w w3"
      by (rule fenced_trans [OF 2 fenced_result [OF fenced_same u]]) (simp add: app_writes_rows)
    obtain d w4 where r: "ReconcileApp uc (fa_ID app) w3 = (d, w4)" by fastforce
    have 4: "host_fenced self w w4" by (rule fenced_trans [OF 3 fenced_result [OF ReconcileApp_fenced r]])
    have "snd (ScaleApp uc i n w) \<in> {w2, w3, w4}"
      unfolding ScaleApp_def a Inr prod.case sum.case Let_def k_def [symmetric] q_def [symmetric] h
      by (cases y; cases z; cases d) (simp_all add: u r)
    with 2 3 4 show ?thesis by auto
  qed
qed

lemma finalize_rows:
  assumes "\<forall>r \<in> set (fw_replicas w). re_AppID r \<noteq> i"
  shows "fw_replicas (snd (finalize_app uc i w)) = fw_replicas w"
proof -
  obtain x w1 where v: "(case fo_volumes uc of None \<Rightarrow> (Inr (), w) | Some vm \<Rightarrow> on_vols (DeleteAppVolumes vm i) w) = (x, w1)"
    by fastforce
  have 1: "fw_replicas w1 = fw_replicas w" using v by (auto split: option.splits dest: on_vols_rows')
  obtain y w2 where d: "(if fo_routes uc then routeRepository_DeleteByApp i w1 else (Inr (), w1)) = (y, w2)" by fastforce
  have 2: "fw_replicas w2 = fw_replicas w" using d 1 app_writes_rows(4) [of i w1] by (auto split: if_splits)
  obtain z w3 where e: "fleetAppRepository_Delete i w2 = (z, w3)" by fastforce
  have 3: "fw_replicas w3 = fw_replicas w" using delete_app_rows [of w2 i] assms 2 by (simp add: e)
  from 1 2 3 show ?thesis by (cases x; cases y; cases z) (simp_all add: finalize_app_def v d e)
qed

lemma listed_none:
  assumes "replicas_ListByApp i w = (Inr [], w1)"
  shows "\<forall>r \<in> set (fw_replicas w1). re_AppID r \<noteq> i"
proof -
  from fread_Inr [OF assms [unfolded replicas_ListByApp_def], THEN conjunct1]
  have "app_replicas_of i (fw_replicas w1) = []" by simp
  then have "set (app_replicas_of i (fw_replicas w1)) = {}" by simp
  then show ?thesis by (auto simp: app_replicas_of_def)
qed

lemma refuse_remaining_None: "refuse_remaining uc rs d = None \<longleftrightarrow> rs = [] \<and> (\<exists>u. d = Inr u)"
  by (auto simp: refuse_remaining_def split: sum.splits)

lemma DecommissionApp_fenced [fence_intros]: "host_fenced self w (snd (DecommissionApp uc i w))"
proof -
  obtain x w1 where a: "fleetAppRepository_FindByID i w = (x, w1)" by fastforce
  have 1: "host_fenced self w w1" by (rule own_fenced [OF own_result [OF reads_own(2) a]])
  show ?thesis
  proof (cases x)
    case (Inl e)
    then show ?thesis by (simp add: DecommissionApp_def a 1)
  next
    case (Inr app)
    obtain z w2 where u: "fleetAppRepository_Update
        (app\<lparr>fa_DesiredReplicas := 0, fa_UpdatedAt := fo_now uc (fw_tick w1)\<rparr>) (tick w1) = (z, w2)" by fastforce
    have 2: "host_fenced self w w2"
      by (rule fenced_trans [OF 1 fenced_result [OF fenced_same u]]) (simp add: app_writes_rows)
    obtain d w3 where r: "ReconcileApp uc (fa_ID app) w2 = (d, w3)" by fastforce
    have 3: "host_fenced self w w3" by (rule fenced_trans [OF 2 fenced_result [OF ReconcileApp_fenced r]])
    obtain y w4 where l: "replicas_ListByApp (fa_ID app) w3 = (y, w4)" by fastforce
    have 4: "host_fenced self w w4" by (rule fenced_trans [OF 3 own_fenced [OF own_result [OF reads_own(3) l]]])
    have 5: "host_fenced self w (snd (finalize_app uc (fa_ID app) w4))" if "y = Inr []"
      using listed_none [OF l [unfolded that]] by (intro fenced_trans [OF 4 fenced_same] finalize_rows)
    from 1 2 4 5 show ?thesis
      by (cases z; cases y)
         (auto simp: DecommissionApp_def a Inr u r l refuse_remaining_None split: option.split)
  qed
qed

lemma read_rows: "fread q w = (x, w') \<Longrightarrow> fw_replicas w' = fw_replicas w"
  using snd_fread [of q w] by simp

lemma stash_rows [simp]: "fw_replicas (stash_tokens uc i a w) = fw_replicas w"
  by (simp add: stash_tokens_def)

lemma upsert_rows: "fw_replicas (snd (upsert_app uc i w)) = fw_replicas w"
proof -
  obtain x w1 where f: "fleetAppRepository_FindByComponentEnv (fp_ComponentID i) (fp_Env i) (fp_OwnerOrg i) w = (x, w1)"
    by fastforce
  have 1: "fw_replicas w1 = fw_replicas w" by (rule read_rows [OF f [unfolded fleetAppRepository_FindByComponentEnv_def]])
  have u: "fw_replicas v = fw_replicas w" if "fleetAppRepository_Update a (tick w1) = (y, v)" for a y v
    using app_writes_rows(1) [of a "tick w1"] that 1 by simp
  have c: "fw_replicas v = fw_replicas w" if "fleetAppRepository_Create a (tick w1) = (y, v)" for a y v
    using app_writes_rows(2) [of a "tick w1"] that 1 by simp
  show ?thesis
    by (cases x) (auto simp: upsert_app_def f Let_def 1 split: prod.split sum.split dest: u c)
qed

lemma ensure_data_rows: "fw_replicas (snd (ensure_data uc i app w)) = fw_replicas w"
proof (cases "fo_volumes uc")
  case (Some vm)
  obtain x w1 where e: "on_vols (EnsureAppVolumes vm (fa_ID app) (stamped_specs uc (fw_tick w) (fp_Volumes i)))
      (w\<lparr>fw_tick := fw_tick w + length (fp_Volumes i)\<rparr>) = (x, w1)" by fastforce
  from on_vols_rows' [OF e] show ?thesis by (cases x) (simp_all add: ensure_data_def Some e)
qed (simp add: ensure_data_def)

lemma ensureRoute_rows: "fw_replicas (snd (ensureRoute uc app w)) = fw_replicas w"
proof -
  obtain x w1 where l: "routeRepository_ListByApp (fa_ID app) w = (x, w1)" by fastforce
  have "fw_replicas w1 = fw_replicas w"
    by (rule read_rows [OF l [unfolded routeRepository_ListByApp_def]])
  then show ?thesis by (cases x) (simp_all add: ensureRoute_def l app_writes_rows)
qed

lemma ProvisionApp_fenced [fence_intros]: "host_fenced self w (snd (ProvisionApp uc i w))"
proof -
  obtain x w1 where p: "upsert_app uc i w = (x, w1)" by fastforce
  have 1: "host_fenced self w w1" by (rule fenced_result [OF fenced_same [OF upsert_rows] p])
  show ?thesis
  proof (cases x)
    case (Inl e)
    then show ?thesis by (simp add: ProvisionApp_def p 1 split: option.split)
  next
    case (Inr app)
    obtain y w2 where e: "ensure_data uc i app (stash_tokens uc i (fa_ID app) w1) = (y, w2)" by fastforce
    have "fw_replicas w2 = fw_replicas w1"
      using ensure_data_rows [of i app "stash_tokens uc i (fa_ID app) w1"] by (simp add: e)
    then have 2: "host_fenced self w w2" by (rule fenced_trans [OF 1 fenced_same])
    define q where "q = (if httpServedWorkload i then ensureRoute uc app w2 else (Inr (), w2))"
    obtain z w3 where r: "q = (z, w3)" by fastforce
    have "fw_replicas w3 = fw_replicas w2" using r ensureRoute_rows [of app w2] by (auto simp: q_def split: if_splits)
    then have 3: "host_fenced self w w3" by (rule fenced_trans [OF 2 fenced_same])
    obtain d w4 where c: "ReconcileApp uc (fa_ID app) w3 = (d, w4)" by fastforce
    have 4: "host_fenced self w w4" by (rule fenced_trans [OF 3 fenced_result [OF ReconcileApp_fenced c]])
    obtain l w5 where s: "replicas_ListByApp (fa_ID app) w4 = (l, w5)" by fastforce
    have 5: "host_fenced self w w5" by (rule fenced_trans [OF 4 own_fenced [OF own_result [OF reads_own(3) s]]])
    have "snd (ProvisionApp uc i w) \<in> {w, w2, w3, w4, w5}"
      unfolding ProvisionApp_def p Inr prod.case sum.case e q_def [symmetric] r
      by (cases y; cases z; cases d; cases l) (simp_all add: c s split: option.split)
    with 2 3 4 5 show ?thesis by auto
  qed
qed

lemma resident_healthy_own:
  assumes "ownsReplica uc r \<longrightarrow> own_id self (re_ID r) w"
  shows "own_step self w (snd (resident_healthy uc r w))"
proof -
  obtain x r' v where h: "RefreshHealth (fo_runtime uc) r w = (x, r', v)" by (metis prod_cases3)
  have own: "own_step self w v" if "ownsReplica uc r" using RefreshHealth_own [OF same_host, of r w] assms that by (simp add: h)
  obtain l w1 where f: "hostLive uc (re_HostID r) w = (l, w1)" by fastforce
  have "own_step self w w1" using f live_own by (auto simp: hostLive_def split: option.splits dest: own_result [OF live_own])
  with own show ?thesis by (simp add: resident_healthy_def h f)
qed

lemma health_loop_own:
  "\<forall>r \<in> set rs. ownsReplica uc r \<longrightarrow> own_id self (re_ID r) w \<Longrightarrow> own_step self w (snd (health_loop uc rs h p url w))"
proof (induction rs arbitrary: h p url w)
  case (Cons r rs)
  obtain x w1 where s: "resident_healthy uc r w = (x, w1)" by fastforce
  have 1: "own_step self w w1" by (rule own_result [OF resident_healthy_own s]) (use Cons.prems in simp)
  have 2: "own_step self w (snd (health_loop uc rs h' p' url' w1))" for h' p' url'
    using Cons.prems by (intro own_step_trans [OF 1 Cons.IH]) (simp add: own_id_step [OF 1])
  have 3: "own_step self w (snd (health_loop uc rs h' p' url' w))" for h' p' url'
    using Cons.prems by (intro Cons.IH) simp
  show ?case by (simp add: s 2 3)
qed simp

lemma HealthApp_fenced [fence_intros]: "host_fenced self w (snd (HealthApp uc i w))"
proof (cases "ids_distinct w")
  case True
  obtain x w1 where a: "fleetAppRepository_FindByID i w = (x, w1)" by fastforce
  have 1: "own_step self w w1" by (rule own_result [OF reads_own(2) a])
  show ?thesis
  proof (cases x)
    case (Inl e)
    then show ?thesis by (simp add: HealthApp_def a own_fenced [OF 1])
  next
    case (Inr app)
    define q where "q = (if fo_volumes uc = None then (Inr False, w1) else on_vols (IsDegraded (fa_ID app)) w1)"
    obtain d w2 where q: "q = (d, w2)" by fastforce
    have "own_step self w1 w2"
      using q own_result [OF on_vols_own, of "IsDegraded (fa_ID app)" w1] by (auto simp: q_def split: if_splits)
    then have 2: "own_step self w w2" by (rule own_step_trans [OF 1])
    obtain y w3 where l: "replicas_ListByApp (fa_ID app) w2 = (y, w3)" by fastforce
    have 23: "own_step self w2 w3" by (rule own_result [OF reads_own(3) l])
    have 3: "own_step self w w3" by (rule own_step_trans [OF 2 23])
    have 4: "own_step self w (snd (app_health uc app rs w3))" if "y = Inr rs" for rs
    proof -
      obtain c w4 where h: "health_loop uc rs 0 0 '''' w3 = (c, w4)" by fastforce
      have "\<forall>r \<in> set rs. ownsReplica uc r \<longrightarrow> own_id self (re_ID r) w3"
        using listed_own [OF ids_step [OF 2 True] l [unfolded that]] by (simp add: own_id_step [OF 23])
      then have "own_step self w3 w4" by (rule own_result [OF health_loop_own h])
      then have "own_step self w (snd (evalPlaceableOnBackingFile uc (fa_ID app) w4))"
        using own_step_trans [OF own_step_trans [OF 3] evalPlaceable_own] by blast
      then show ?thesis by (auto simp: app_health_def h split: prod.split)
    qed
    have "own_step self w (snd (HealthApp uc i w))"
      unfolding HealthApp_def a Inr prod.case sum.case q_def [symmetric] q
      by (cases y) (auto simp: 2 3 l split: prod.split dest: own_result [OF 4])
    then show ?thesis by (rule own_fenced)
  qed
qed (simp add: host_fenced_def)

lemma stampActive_fenced [fence_intros]: "host_fenced self w (stampActive uc app w)"
  by (rule fenced_same) (simp add: stampActive_def Let_def app_writes_rows)

lemma appHosts_rows: "fw_replicas (snd (appHosts uc app w)) = fw_replicas w"
proof -
  obtain x w1 where l: "routeRepository_ListByApp (fa_ID app) w = (x, w1)" by fastforce
  have "fw_replicas w1 = fw_replicas w" by (rule read_rows [OF l [unfolded routeRepository_ListByApp_def]])
  then show ?thesis by (cases x) (simp_all add: appHosts_def l)
qed

lemma sweepBlocked_fenced: "host_fenced self w (snd (sweepBlockedByActivity uc app w))"
proof -
  obtain x w1 where h: "appHosts uc app w = (x, w1)" by fastforce
  have 1: "host_fenced self w w1" using appHosts_rows [of app w] h by (intro fenced_same) simp
  have 2: "host_fenced self w (stampActive uc app w1)" by (rule fenced_trans [OF 1 stampActive_fenced])
  from 1 2 show ?thesis
    by (cases x) (simp_all add: sweepBlockedByActivity_def h Let_def split: option.split)
qed

lemma sweep_app_fenced: "host_fenced self w (sweep_app uc t app w)"
proof -
  obtain x w1 where l: "replicas_ListByApp (fa_ID app) w = (x, w1)" by fastforce
  have 1: "host_fenced self w w1" by (rule own_fenced [OF own_result [OF reads_own(3) l]])
  obtain b w2 where s: "sweepBlockedByActivity uc app w1 = (b, w2)" by fastforce
  have 2: "host_fenced self w w2" by (rule fenced_trans [OF 1 fenced_result [OF sweepBlocked_fenced s]])
  have 3: "host_fenced self w (snd (ScaleApp uc (fa_ID app) 0 w2))" by (rule fenced_trans [OF 2 ScaleApp_fenced])
  have "sweep_app uc t app w \<in> {w, w1, w2, snd (ScaleApp uc (fa_ID app) 0 w2)}"
    by (cases x) (simp_all add: sweep_app_def l s)
  with 1 2 3 show ?thesis by auto
qed

lemma SweepIdle_fenced [fence_intros]: "host_fenced self w (snd (SweepIdle uc w))"
proof -
  obtain x w1 where l: "fleetAppRepository_List w = (x, w1)" by fastforce
  have 1: "host_fenced self w w1" by (rule own_fenced [OF own_result [OF reads_own(5) l]])
  have "host_fenced self (tick w1) (fold (sweep_app uc t) as (tick w1))" for t "as"
    by (rule fold_fenced) (rule sweep_app_fenced)
  then have "host_fenced self w (fold (sweep_app uc t) as (tick w1))" for t "as"
    using fenced_trans [OF fenced_trans [OF 1 own_fenced [OF tick_own]]] by blast
  with 1 show ?thesis by (cases x) (simp_all add: SweepIdle_def l)
qed

lemma collect_routes_rows: "fw_replicas (snd (collect_routes as w)) = fw_replicas w"
proof (induction "as" arbitrary: w)
  case (Cons a "as")
  obtain x w1 where l: "routeRepository_ListByApp (fa_ID a) w = (x, w1)" by fastforce
  have 1: "fw_replicas w1 = fw_replicas w" by (rule read_rows [OF l [unfolded routeRepository_ListByApp_def]])
  obtain y w2 where r: "replicas_ListByApp (fa_ID a) w1 = (y, w2)" by fastforce
  have 2: "fw_replicas w2 = fw_replicas w" using read_rows [OF r [unfolded replicas_ListByApp_def]] 1 by simp
  obtain z w3 where c: "collect_routes as w2 = (z, w3)" by fastforce
  have 3: "fw_replicas w3 = fw_replicas w" using Cons.IH [of w2] 2 by (simp add: c)
  from 1 2 3 Cons.IH [of w1] show ?case by (cases x; cases y; cases z) (simp_all add: l r c)
qed simp

lemma SyncIngress_fenced [fence_intros]: "host_fenced self w (snd (SyncIngress uc w))"
proof -
  obtain x w1 where l: "fleetAppRepository_List w = (x, w1)" by fastforce
  have 1: "fw_replicas w1 = fw_replicas w" by (rule read_rows [OF l [unfolded fleetAppRepository_List_def]])
  have 2: "fw_replicas v = fw_replicas w" if "collect_routes as w1 = (y, v)" for "as" y v
    using collect_routes_rows [of "as" w1] that 1 by simp
  have "fw_replicas (snd (SyncIngress uc w)) = fw_replicas w"
    by (cases x) (auto simp: SyncIngress_def l 1 split: option.split prod.split sum.split dest: 2)
  then show ?thesis by (rule fenced_same)
qed

end

section \<open>The fleet's hosts\<close>

lemma least_mem: "least lt b cs \<in> insert b (set cs)"
  by (induction lt b cs rule: least.induct) auto

lemma candidates_pinned:
  "\<lbrakk>collect_candidates listByHost findApp req live = Inr cs; pr_AffinityHostID req = Some a; c \<in> set cs\<rbrakk> \<Longrightarrow> ca_hostID c = a"
  by (induction live arbitrary: cs) (auto simp: Let_def split: if_splits sum.splits prod.splits)

lemma SelectHost_pinned:
  assumes "SelectHost us listLive listByHost findApp staleness req db = (Inr h, db')" "pr_AffinityHostID req = Some a"
  shows "h = a"
proof -
  from assms(1) obtain live c cs lt where
    "collect_candidates listByHost findApp req live = Inr (c # cs)" "h = ca_hostID (least lt c cs)"
    by (auto simp: SelectHost_def split: prod.splits sum.splits if_splits list.splits)
  moreover have "least lt c cs \<in> set (c # cs)" using least_mem [of lt c cs] by simp
  ultimately show ?thesis using candidates_pinned assms(2) by metis
qed

interpretation wired: fleet_host "wire_fleet env uc" for env uc
proof
  show "w' = w\<lparr>fw_hosts := fw_hosts w'\<rparr>" if "fo_SelectHost (wire_fleet env uc) req w = (r, w')" for req w r w'
    using that by (auto simp: wire_fleet_def scheduler_SelectHost_def split: prod.splits)
  show "w' = w\<lparr>fw_hosts := fw_hosts w'\<rparr>" if "fo_IsHostLive (wire_fleet env uc) i w = (r, w')" for i w r w'
    using that by (auto simp: wire_fleet_def scheduler_IsHostLive_def split: prod.splits)
  show "h = a" if "fo_SelectHost (wire_fleet env uc) req w = (Inr h, w')" "pr_AffinityHostID req = Some a" for req w h w' a
    using that by (auto simp: wire_fleet_def scheduler_SelectHost_def lift_fleet_def split: prod.splits sum.splits
        dest: SelectHost_pinned)
qed (simp add: wire_fleet_def)

text \<open>One operation of one of the hosts in H, or a switch to another process: its machine, its files, its
  tokens, its staging directories, its script and its clock take the place of the last one's, the tables stay.\<close>

type_synonym ('f, 'h) fleet_hosts = "(scheduler_env \<times> ('f, 'h) FleetOrchestrator) set"

inductive fleet_step :: "('f, 'h) fleet_hosts \<Rightarrow> ('f, 'h) fleet_world \<Rightarrow> ('f, 'h) fleet_world \<Rightarrow> bool"
  for H :: "('f, 'h) fleet_hosts" where
  ReconcileAll: "(env, uc) \<in> H \<Longrightarrow> fleet_step H w (snd (ReconcileAll (wire_fleet env uc) w))"
| ReconcileApp: "(env, uc) \<in> H \<Longrightarrow> fleet_step H w (snd (ReconcileApp (wire_fleet env uc) i w))"
| Actuate: "(env, uc) \<in> H \<Longrightarrow> fleet_step H w (snd (actuateScheduledOwned (wire_fleet env uc) w))"
| Provision: "(env, uc) \<in> H \<Longrightarrow> fleet_step H w (snd (ProvisionApp (wire_fleet env uc) d w))"
| Scale: "(env, uc) \<in> H \<Longrightarrow> fleet_step H w (snd (ScaleApp (wire_fleet env uc) i n w))"
| Decommission: "(env, uc) \<in> H \<Longrightarrow> fleet_step H w (snd (DecommissionApp (wire_fleet env uc) i w))"
| Health: "(env, uc) \<in> H \<Longrightarrow> fleet_step H w (snd (HealthApp (wire_fleet env uc) i w))"
| Sweep: "(env, uc) \<in> H \<Longrightarrow> fleet_step H w (snd (SweepIdle (wire_fleet env uc) w))"
| Sync: "(env, uc) \<in> H \<Longrightarrow> fleet_step H w (snd (SyncIngress (wire_fleet env uc) w))"
| Stamp: "(env, uc) \<in> H \<Longrightarrow> fleet_step H w (stampActive (wire_fleet env uc) a w)"
| Switch: "fleet_step H w (w\<lparr>fw_host := h, fw_staging := ds, fw_tokens := ts, fw_pullTokens := ps, fw_script := sc,
      fw_tick := k, fw_vols := (fw_vols w)\<lparr>vw_files := fs, vw_script := vs\<rparr>\<rparr>)"

inductive fleet_run :: "('f, 'h) fleet_hosts \<Rightarrow> ('f, 'h) fleet_world \<Rightarrow> ('f, 'h) fleet_world \<Rightarrow> bool"
  for H :: "('f, 'h) fleet_hosts" where
  Start: "fleet_run H w w"
| Step: "fleet_run H w w' \<Longrightarrow> fleet_step H w' w'' \<Longrightarrow> fleet_run H w w''"

lemma self_wired [simp]: "fo_selfHost (wire_fleet env uc) = fo_selfHost uc"
  by (simp add: wire_fleet_def)

text \<open>The rows of host h (or of no host, \<open>None\<close>) between two states.\<close>

definition rows_fenced :: "uuid option \<Rightarrow> ('f, 'h) fleet_world \<Rightarrow> ('f, 'h) fleet_world \<Rightarrow> bool" where
  "rows_fenced h w w' \<longleftrightarrow>
     (\<forall>r. re_HostID r = h \<longrightarrow> (r \<in> set (fw_replicas w) \<longrightarrow> r \<in> set (fw_replicas w')) \<and>
        (r \<in> set (fw_replicas w') \<longrightarrow> r \<in> set (fw_replicas w) \<or> placed_bare r))"

lemma fenced_rows:
  assumes "host_fenced self w w'" "ids_distinct w" "h \<noteq> Some self"
  shows "ids_distinct w' \<and> rows_fenced h w w'"
  using assms by (auto simp: host_fenced_def rows_fenced_def foreign_def)

lemma fleet_step_fenced:
  assumes "fleet_step H w w'" "ids_distinct w" "\<forall>(env, uc) \<in> H. h \<noteq> Some (fo_selfHost uc)"
  shows "ids_distinct w' \<and> rows_fenced h w w'"
  using assms
proof (induction rule: fleet_step.induct)
  case (Switch w h ds ts ps sc k fs vs)
  then show ?case by (simp add: ids_distinct_def rows_fenced_def)
qed (rule fenced_rows, rule fence_intros, assumption, fastforce)+

lemma fleet_run_fenced:
  assumes "fleet_run H w w'" "ids_distinct w" "\<forall>(env, uc) \<in> H. h \<noteq> Some (fo_selfHost uc)"
  shows "ids_distinct w' \<and> rows_fenced h w w'"
  using assms
proof (induction rule: fleet_run.induct)
  case (Start w)
  then show ?case by (simp add: rows_fenced_def)
next
  case (Step w w' w'')
  then have 1: "ids_distinct w'" "rows_fenced h w w'" by simp_all
  with fleet_step_fenced [OF Step.hyps(2) _ Step.prems(2)] have "ids_distinct w''" "rows_fenced h w' w''" by simp_all
  with 1 show ?case by (auto simp: rows_fenced_def)
qed

end
