(* ===== verification/Fleet_Reconcile.thy ===== *)
theory Fleet_Reconcile
  imports Fleet_Fence
begin

text \<open>
  What the reconciler guarantees and where it does not: the fence along every run of the fleet, what an app's
  decommissioning may delete, how many replicas a pass may leave, that the wake path returns and what it
  may wake, and a lost write that puts two microVMs on one volume.
\<close>

section \<open>A sample host\<close>

text \<open>Host 4 of the two hosts of the registry.  Its machine is the list of the VMs it has started, each with its
  data disk; a VM is started and never proven gone, every process is alive and no guest answers.\<close>

type_synonym machine = "(uuid \<times> string) list"

definition sample_booter :: "machine replica_booter" where
  "sample_booter = \<lparr>bp_BootTest = (\<lambda>i h. (Inl (BootWorkload ErrImageBootUnavailable), h)),
     bp_BootResident = (\<lambda>i h. (Inr \<lparr>ir_PID = 100, ir_GuestIP = ''10.201.0.6'', ir_HostPort = 0, ir_NetIndex = 1, ir_TapName = ''img1'',
        ir_SocketPath = ''/run/s''\<rparr>, h @ [(bi_WorkloadID i, bi_DataDiskPath i)])),
     bp_Decommission = (\<lambda>d h. (Inl (BootFleet ErrVMTerminationUnproven), h))\<rparr>"

definition sample_manager :: "host_files FleetVolumeManager" where
  "sample_manager = demo_manager\<lparr>vm_selfHost := 4\<rparr>"

definition sample_runtime :: "(host_files, machine) FleetReplicaRuntime" where
  "sample_runtime = \<lparr>rt_materialize = (\<lambda>i h. (Inr ''/rootfs'', h)), rt_booter = sample_booter, rt_workDir = ''/work'',
     rt_resolver = None, rt_volumes = Some sample_manager, rt_tokenStore = False, rt_registryTokenStore = False,
     rt_secretSelfTest = False, rt_selfHost = 4, rt_procAlive = (\<lambda>_ _. True), rt_dialGuest = (\<lambda>_ _ _. False),
     rt_nonce = (\<lambda>_. None), rt_now = (\<lambda>n. 20 + int n), rt_uuidString = plain_string, rt_errorText = (\<lambda>_. ''boot failed'')\<rparr>"

definition sample_host :: "(host_files, machine) FleetOrchestrator" where
  "sample_host = \<lparr>fo_runtime = sample_runtime, fo_SelectHost = (\<lambda>_ w. (Inl (OpFleet ErrOther), w)),
     fo_IsHostLive = (\<lambda>_ w. (Inl (OpFleet ErrOther), w)), fo_resources = Some (\<lambda>_. NoLiveClaim), fo_volumes = Some sample_manager,
     fo_routes = False, fo_ingressDomain = '''', fo_ingress = None, fo_activityFeed = None, fo_tokenStore = False,
     fo_registryTokenStore = False, fo_RequireNetwork = None, fo_SyncForApp = (\<lambda>_ _ _ h. h),
     fo_stat = (\<lambda>p fs. case map_of fs p of None \<Rightarrow> StatAbsent | Some f \<Rightarrow> StatFile (bf_bytes f)),
     fo_readSuperblock = (\<lambda>_ _. None), fo_selfHost = 4, fo_newID = (\<lambda>n. 100 + of_nat n), fo_now = (\<lambda>n. 20 + int n)\<rparr>"

definition sample_env :: scheduler_env where
  "sample_env = \<lparr>se_uuidString = plain_string, se_now = 10, se_staleness = 5, se_readable = (\<lambda>_. True)\<rparr>"

definition sample_orch :: "(host_files, machine) FleetOrchestrator" where
  "sample_orch = wire_fleet sample_env sample_host"

definition sample_app :: FleetApp where
  "sample_app = Fleet_Scheduler.demo_app\<lparr>fa_ID := 3, fa_Port := 8\<rparr>"

definition sample_volume :: Volume where
  "sample_volume = demo_volume\<lparr>vo_HostAffinity := Some 4, vo_AttachedReplica := Some 5, vo_Status := VolumeStatusAttached\<rparr>"

definition sample_resident :: Replica where
  "sample_resident = Fleet_Scheduler.demo_replica\<lparr>re_AppID := 3, re_HostID := Some 4, re_PID := Some 99,
     re_GuestIP := ''10.201.0.2'', re_Port := 8\<rparr>"

definition sample_world :: "fault list \<Rightarrow> (host_files, machine) fleet_world" where
  "sample_world sc = \<lparr>fw_apps = [sample_app], fw_replicas = [sample_resident], fw_routes = [], fw_script = sc,
     fw_hosts = two_hosts, fw_vols = demo_world [sample_volume] [(''/v/5.ext4'', demo_file)], fw_tokens = Map.empty,
     fw_pullTokens = Map.empty, fw_staging = [], fw_host = [(5, ''/v/5.ext4'')], fw_tick = 0\<rparr>"

section \<open>The fence\<close>

text \<open>Claim C23.  The host fence.  Along every run of any number of fleet hosts, each performing whole
  operations (reconcile, actuate, provision, scale, decommission, probe, sweep, sync) in any order and under any lost statements, the
  replica rows stamped with a host that takes no part in the run, and the rows stamped with no host, all remain exactly as they were, and
  the only rows that appear for it are bare placements for which nothing has been started.\<close>

theorem foreign_rows_fenced:
  assumes "fleet_run H w w'" "ids_distinct w" "\<forall>(env, uc) \<in> H. h \<noteq> Some (fo_selfHost uc)" "re_HostID r = h"
  shows "(r \<in> set (fw_replicas w) \<longrightarrow> r \<in> set (fw_replicas w')) \<and>
         (r \<in> set (fw_replicas w') \<longrightarrow> r \<in> set (fw_replicas w) \<or> placed_bare r)"
  using fleet_run_fenced [OF assms(1-3)] assms(4) by (simp add: rows_fenced_def)

definition foreign_resident :: Replica where
  "foreign_resident = sample_resident\<lparr>re_ID := 6, re_HostID := Some 3\<rparr>"

lemma sample_rows [simp]:
  "re_ID sample_resident = 5" "re_HostID sample_resident = Some 4" "re_AppID sample_resident = 3"
  "re_ID foreign_resident = 6" "re_HostID foreign_resident = Some 3"
  by (simp_all add: sample_resident_def foreign_resident_def Fleet_Scheduler.demo_replica_def)

theorem foreign_rows_fenced_witness:
  "let w = (sample_world [LostReply])\<lparr>fw_replicas := [sample_resident, foreign_resident]\<rparr> in
   foreign_resident \<in> set (fw_replicas (snd (DecommissionApp sample_orch 3 (snd (ReconcileAll sample_orch w)))))"
proof -
  let ?w = "(sample_world [LostReply])\<lparr>fw_replicas := [sample_resident, foreign_resident]\<rparr>"
  let ?H = "{(sample_env, sample_host)}"
  have "fleet_run ?H ?w (snd (ReconcileAll sample_orch ?w))"
    unfolding sample_orch_def by (intro fleet_run.Step [OF fleet_run.Start] fleet_step.ReconcileAll) simp
  then have "fleet_run ?H ?w (snd (DecommissionApp sample_orch 3 (snd (ReconcileAll sample_orch ?w))))"
    unfolding sample_orch_def by (rule fleet_run.Step) (intro fleet_step.Decommission, simp)
  from foreign_rows_fenced [OF this, of "Some 3" foreign_resident] show ?thesis
    by (simp add: ids_distinct_def sample_host_def)
qed

section \<open>Decommissioning an app\<close>

lemma app_found:
  assumes "fleetAppRepository_FindByID i w = (Inr app, w1)"
  shows "app \<in> set (fw_apps w)" "fa_ID app = i" "fw_apps w1 = fw_apps w" "fw_routes w1 = fw_routes w" "fw_vols w1 = fw_vols w"
    "fw_replicas w1 = fw_replicas w"
proof -
  from fread_Inr [OF assms [unfolded fleetAppRepository_FindByID_def]]
  have f: "find (\<lambda>a. fa_ID a = i) (fw_apps w1) = Some app" and w1: "w1 = snd (next_fault w)"
    by (auto split: option.splits)
  show "fw_apps w1 = fw_apps w" "fw_routes w1 = fw_routes w" "fw_vols w1 = fw_vols w" "fw_replicas w1 = fw_replicas w"
    by (simp_all add: w1)
  then show "app \<in> set (fw_apps w)" "fa_ID app = i" using f by (auto simp: find_Some_iff)
qed

lemma app_update_tables:
  assumes "\<exists>x \<in> set (fw_apps w). fa_ID x = fa_ID a" "fleetAppRepository_Update a w = (x, w')"
  shows "map fa_ID (fw_apps w') = map fa_ID (fw_apps w)" "fw_routes w' = fw_routes w" "fw_vols w' = fw_vols w"
    "fw_replicas w' = fw_replicas w"
proof -
  obtain f v where nf: "next_fault w = (f, v)" by fastforce
  have v: "fw_apps v = fw_apps w" "fw_routes v = fw_routes w" "fw_vols v = fw_vols w" "fw_replicas v = fw_replicas w"
    using next_fault_fields [of w] by (simp_all add: nf)
  have "w' = v \<or> w' = v\<lparr>fw_apps := map (\<lambda>x. if fa_ID x = fa_ID a then a else x) (fw_apps w)\<rparr>"
    using assms v by (auto simp: fleetAppRepository_Update_def fwrite_def nf save_app_def split: if_splits)
  then show "map fa_ID (fw_apps w') = map fa_ID (fw_apps w)" "fw_routes w' = fw_routes w" "fw_vols w' = fw_vols w"
    "fw_replicas w' = fw_replicas w"
    using v by (auto simp: o_def if_distrib [of fa_ID] intro: map_cong)
qed

definition app_intact :: "('f, 'h) fleet_world \<Rightarrow> ('f, 'h) fleet_world \<Rightarrow> bool" where
  "app_intact w w' \<longleftrightarrow> map fa_ID (fw_apps w') = map fa_ID (fw_apps w) \<and> fw_routes w' = fw_routes w \<and>
     vw_files (fw_vols w') = vw_files (fw_vols w)"

context fleet_host
begin

lemma DecommissionApp_deletes_last:
  assumes "ids_distinct w" "DecommissionApp uc i w = (res, w')" "\<not> app_intact w w'"
  shows "refuseIfResourceBacked uc i = None" "\<forall>r \<in> set (fw_replicas w'). re_AppID r \<noteq> i"
proof -
  obtain x w1 where a: "fleetAppRepository_FindByID i w = (x, w1)" by fastforce
  have "fw_apps w1 = fw_apps w" "fw_routes w1 = fw_routes w" "fw_vols w1 = fw_vols w" "fw_replicas w1 = fw_replicas w"
    using a snd_fread [of _ w] next_fault_fields [of w] unfolding fleetAppRepository_FindByID_def by (metis snd_conv)+
  note w1 = this
  then have t1: "app_intact w w1" by (simp add: app_intact_def)
  then obtain app where x: "x = Inr app" using assms(2,3) by (cases x) (auto simp: DecommissionApp_def a)
  note app = app_found [OF a [unfolded x]]
  define app' where "app' = app\<lparr>fa_DesiredReplicas := 0, fa_UpdatedAt := fo_now uc (fw_tick w1)\<rparr>"
  obtain z w2 where u: "fleetAppRepository_Update app' (tick w1) = (z, w2)" by fastforce
  have "\<exists>y \<in> set (fw_apps (tick w1)). fa_ID y = fa_ID app'" using app w1 by (auto simp: app'_def)
  note u2 = app_update_tables [OF this u]
  have t2: "app_intact w w2" using u2 w1 by (simp add: app_intact_def tick_def)
  have d2: "ids_distinct w2" using assms(1) u2(4) w1(4) by (simp add: ids_distinct_def tick_def)
  obtain d w3 where r: "ReconcileApp uc (fa_ID app) w2 = (d, w3)" by fastforce
  have "pass_step self w2 w3" by (rule pass_result [OF ReconcileApp_pass r])
  then have t3: "app_intact w w3" using t2 d2 by (simp add: app_intact_def pass_step_def)
  obtain y w4 where l: "replicas_ListByApp (fa_ID app) w3 = (y, w4)" by fastforce
  have "own_step self w3 w4" by (rule own_result [OF reads_own(3) l])
  then have t4: "app_intact w w4" using t3 by (simp add: app_intact_def own_step_def)
  have r: "refuseIfResourceBacked uc i = None \<and> y = Inr [] \<and> (res, w') = finalize_app uc i w4"
    using assms(2,3) t1 t2 t4 app(2)
    by (cases "refuseIfResourceBacked uc i"; cases z; cases y)
       (auto simp: DecommissionApp_def a x u [unfolded app'_def] r l refuse_remaining_None split: option.splits)
  then show "refuseIfResourceBacked uc i = None" by simp
  from r have "y = Inr []" by simp
  from listed_none [OF l [unfolded this]] have n: "\<forall>r \<in> set (fw_replicas w4). re_AppID r \<noteq> i" using app(2) by simp
  then have "fw_replicas w' = fw_replicas w4" using finalize_rows [of w4 i] r by (metis snd_conv)
  with n show "\<forall>r \<in> set (fw_replicas w'). re_AppID r \<noteq> i" by simp
qed

end

text \<open>Claim C24.  Decommissioning an app deletes last.  Whatever statements are lost and whatever the booter answers: if a
  call of \<open>DecommissionApp\<close> has removed the app's row, or any route, or has changed any file of this
  host's volume store, then the claim ledger was there and answered that no live resource claims the app, and no
  replica row of the app is left on any host.\<close>

theorem decommission_deletes_last:
  assumes "ids_distinct w" "DecommissionApp (wire_fleet env uc) i w = (res, w')"
    and "map fa_ID (fw_apps w') \<noteq> map fa_ID (fw_apps w) \<or> fw_routes w' \<noteq> fw_routes w \<or>
         vw_files (fw_vols w') \<noteq> vw_files (fw_vols w)"
  shows "(\<exists>ledger. fo_resources uc = Some ledger \<and> ledger i = NoLiveClaim) \<and> (\<forall>r \<in> set (fw_replicas w'). re_AppID r \<noteq> i)"
proof -
  have "\<not> app_intact w w'" using assms(3) by (auto simp: app_intact_def)
  note last = wired.DecommissionApp_deletes_last [OF assms(1,2) this]
  have "fo_resources (wire_fleet env uc) = fo_resources uc" by (simp add: wire_fleet_def)
  with last show ?thesis by (auto simp: refuseIfResourceBacked_def split: option.splits claim_lookup.splits)
qed

theorem decommission_deletes_last_witness:
  "\<exists>ledger. fo_resources sample_host = Some ledger \<and> ledger 3 = NoLiveClaim"
proof -
  let ?w = "(sample_world [])\<lparr>fw_replicas := []\<rparr>"
  obtain res w' where d: "DecommissionApp (wire_fleet sample_env sample_host) 3 ?w = (res, w')" by fastforce
  have "map fa_ID (fw_apps (snd (DecommissionApp (wire_fleet sample_env sample_host) 3 ?w))) = []" by code_simp
  then have g: "map fa_ID (fw_apps w') = []" by (simp only: d snd_conv)
  have "map fa_ID (fw_apps ?w) \<noteq> []" by (simp add: sample_world_def)
  with g have "map fa_ID (fw_apps w') \<noteq> map fa_ID (fw_apps ?w)" by metis
  with decommission_deletes_last [OF _ d] show ?thesis by (simp add: ids_distinct_def)
qed

section \<open>A lost probe write\<close>

text \<open>The row the pass places while the old VM still runs.\<close>

definition replacement :: Replica where
  "replacement = scheduled_row sample_app 101 4 21"

lemma lost_probe_reported: "fst (ReconcileApp sample_orch 3 (sample_world [NoFault, NoFault, LostCall])) = Inr ()"
  by code_simp

definition lost_rows :: "Replica list" where
  "lost_rows = fw_replicas (snd (ReconcileApp sample_orch 3 (sample_world [NoFault, NoFault, LostCall])))"

lemma two_rows: "length lost_rows = 2"
  by code_simp

lemma old_row: "hd lost_rows = sample_resident"
  by code_simp

lemma new_row: "last lost_rows = replacement"
  by code_simp

lemma lost_probe_rows:
  "fw_replicas (snd (ReconcileApp sample_orch 3 (sample_world [NoFault, NoFault, LostCall]))) = [sample_resident, replacement]"
proof -
  obtain a b where ab: "lost_rows = [a, b]"
    using two_rows by (auto simp: numeral_2_eq_2 length_Suc_conv)
  have "a = sample_resident" "b = replacement"
    using old_row new_row unfolding ab by simp_all
  with ab have "lost_rows = [sample_resident, replacement]" by metis
  then show ?thesis by (simp only: lost_rows_def)
qed

lemma both_booted:
  "fw_host (snd (actuateScheduledOwned sample_orch ((sample_world [])\<lparr>fw_replicas := [sample_resident, replacement]\<rparr>)))
     = [(5, ''/v/5.ext4''), (101, ''/v/5.ext4'')]"
  by code_simp

lemma kept_probe_reported: "fst (ReconcileApp sample_orch 3 (sample_world [])) = Inl (OpFleet ErrVMTerminationUnproven)"
  by code_simp

lemma kept_probe_rows: "map re_ID (fw_replicas (snd (ReconcileApp sample_orch 3 (sample_world [])))) = [5]"
  by code_simp


section \<open>The wake path\<close>

lemma wake_returns:
  assumes "clock_advances uc"
  shows "\<exists>r. wake uc appID w = Some r"
proof -
  let ?k = "nat (ac_timeout uc)"
  have "ac_timeout uc \<le> int (Suc ?k) * 1" by simp
  also have "\<dots> \<le> int (Suc ?k) * ac_poll uc"
    using assms by (intro mult_left_mono) (auto simp: clock_advances_def)
  finally have "ac_timeout uc \<le> int (Suc ?k) * ac_poll uc" .
  then have "\<exists>r. await_resident uc appID (ac_clock uc 0 + ac_timeout uc) 0 v = Some r" for v
    using await_returns [OF assms, of _ 0 ?k] by simp
  then show ?thesis by (auto simp: wake_def split: prod.splits option.splits)
qed


definition sample_activator :: "(host_files, machine) FleetActivator" where
  "sample_activator = NewFleetActivator \<lparr>ac_orch = sample_orch, ac_timeout = 0, ac_poll = 0, ac_healthy = (\<lambda>_ _. False),
     ac_clock = (\<lambda>n. int n * activatePollInterval), ac_env = (\<lambda>_ w. w), ac_done = (\<lambda>_. False)\<rparr>"


text \<open>Claim C27.  What an unauthenticated request may wake.  If a call of \<open>Activate\<close> that returns has changed
  anything but the progress of the fault script, then the host name was not empty, a route with that host exists and the app it names
  opted in to scale-to-zero, has no replica floor, serves a positive port and that port is not the database port.\<close>

theorem Activate_gate:
  assumes "Activate uc host w = Some (res, w')" "w'\<lparr>fw_script := fw_script w\<rparr> \<noteq> w"
  shows "host \<noteq> '''' \<and> (\<exists>route \<in> set (fw_routes w). (ro_HostPattern route = host \<or> ro_CustomDomain route = host) \<and>
    (\<exists>app \<in> set (fw_apps w). fa_ID app = ro_AppID route \<and> fa_ScaleToZero app \<and> fa_MinReplicas app = 0 \<and>
       0 < fa_Port app \<and> fa_Port app \<noteq> residentPGPort))"
proof -
  have script: "(snd (next_fault v))\<lparr>fw_script := s\<rparr> = v\<lparr>fw_script := s\<rparr>" for v :: "('a, 'b) fleet_world" and s
    by (simp add: next_fault_def split: list.splits)
  have host: "host \<noteq> ''''" using assms by (auto simp: Activate_def)
  obtain x w1 where r: "routeRepository_FindByHost host w = (x, w1)" by fastforce
  have "w1 = snd (routeRepository_FindByHost host w)" by (simp add: r)
  then have w1: "w1 = snd (next_fault w)" by (simp add: routeRepository_FindByHost_def snd_fread)
  obtain route where x: "x = Inr route"
    using assms r host w1 by (cases x) (auto simp: Activate_def script)
  let ?hits = "sort_key ro_ID (filter (\<lambda>r. ro_HostPattern r = host \<or> ro_CustomDomain r = host) (fw_routes w))"
  have "(case ?hits of [] \<Rightarrow> Inl (OpFleet ErrRouteNotFound) | r # x \<Rightarrow> Inr r) = Inr route"
    using fread_Inr [OF r [unfolded x routeRepository_FindByHost_def]] w1 by simp
  then have "route \<in> set ?hits" by (cases ?hits) simp_all
  then have rt: "route \<in> set (fw_routes w)" "ro_HostPattern route = host \<or> ro_CustomDomain route = host" by auto
  obtain y w2 where a: "fleetAppRepository_FindByID (ro_AppID route) w1 = (y, w2)" by fastforce
  have "w2 = snd (fleetAppRepository_FindByID (ro_AppID route) w1)" by (simp add: a)
  then have "w2 = snd (next_fault w1)" by (simp add: fleetAppRepository_FindByID_def snd_fread)
  then have w2: "w2\<lparr>fw_script := fw_script w\<rparr> = w"
    by (simp add: script w1)
  have act: "Activate uc host w =
      (case y of Inl e \<Rightarrow> Some (Inl (if e = OpFleet ErrFleetAppNotFound then OpFleet ErrRouteNotFound else e), w2)
       | Inr app \<Rightarrow> (case wakeableApp app of Some e \<Rightarrow> Some (Inl e, w2) | None \<Rightarrow> wake uc (ro_AppID route) w2))"
    using host by (simp add: Activate_def r x a)
  have moved: "w' \<noteq> w2" using assms(2) w2 by metis
  obtain app where y: "y = Inr app"
    using assms(1) moved unfolding act by (cases y) simp_all
  have "wakeableApp app = None"
    using assms(1) moved unfolding act y by (cases "wakeableApp app") simp_all
  then have "fa_ScaleToZero app" "fa_MinReplicas app = 0" "0 < fa_Port app" "fa_Port app \<noteq> residentPGPort"
    by (auto simp: wakeableApp_def split: if_splits)
  moreover have "app \<in> set (fw_apps w)" "fa_ID app = ro_AppID route"
    using app_found [OF a [unfolded y]] w1 by simp_all
  ultimately show ?thesis using host rt by blast
qed

definition sleeping_world :: "(host_files, machine) fleet_world" where
  "sleeping_world = (sample_world [])\<lparr>
     fw_apps := [sample_app\<lparr>fa_ScaleToZero := True, fa_DesiredReplicas := 0\<rparr>], fw_replicas := [], fw_vols := demo_world [] [],
     fw_routes := [\<lparr>ro_ID = 1, ro_AppID = 3, ro_HostPattern = ''h'', ro_PathPrefix = '''', ro_CustomDomain = '''', ro_TLSCertRef = '''',
                     ro_CreatedAt = 0, ro_UpdatedAt = 0\<rparr>]\<rparr>"

theorem Activate_gate_witness:
  "\<exists>app \<in> set (fw_apps sleeping_world). fa_ScaleToZero app \<and> 0 < fa_Port app \<and> fa_Port app \<noteq> residentPGPort"
proof -
  let ?uc = "sample_activator\<lparr>ac_done := \<lambda>_. True\<rparr>"
  have "map_option (\<lambda>(_, w'). map fa_DesiredReplicas (fw_apps w')) (Activate ?uc ''h'' sleeping_world) = Some [1]"
    by code_simp
  then obtain res w' where a: "Activate ?uc ''h'' sleeping_world = Some (res, w')" and d: "map fa_DesiredReplicas (fw_apps w') = [1]"
    by (auto simp: map_option_case split: option.splits)
  have "map fa_DesiredReplicas (fw_apps sleeping_world) = [0]" by (simp add: sleeping_world_def)
  with d have "w'\<lparr>fw_script := fw_script sleeping_world\<rparr> \<noteq> sleeping_world"
    by (metis fleet_world.select_convs(1) fleet_world.surjective fleet_world.update_convs(4) list.inject one_neq_zero)
  from Activate_gate [OF a this] show ?thesis by blast
qed

end
