(* ===== verification/Net_Filter.thy ===== *)
theory Net_Filter
  imports Ingress_Names "HOL-Library.Sublist" "HOL-Library.AList"
begin

text \<open>
  The host's packet filter: the adapter that compiles resolved network rules into an iptables program
  (\<open>internal/infrastructure/netfabric/iptables_enforcer.go\<close>), and what that program does to a packet.

  The iptables binary is a parameter, the \<open>Runner\<close> of the code: a function from the argument vector and the
  state \<open>'k\<close> of the kernel to an exit status with its output and a new state.  The locale
  \<open>iptables\<close> states what its manual says of the commands the adapter runs, nothing of a command that fails
  except that it changes nothing.  The locale \<open>netfilter\<close> adds the meaning of the matches the adapter
  writes.  Both are interpreted on a small kernel at the end.
\<close>

unbundle bit_operations_syntax

section \<open>The adapter\<close>

type_synonym argv = "string list"

type_synonym 'k runner = "argv \<Rightarrow> 'k \<Rightarrow> (unit + string) \<times> 'k"

datatype enforcer_error = EnfNetwork network_error | EnfExec

type_synonym 'a enf_result = "enforcer_error + 'a"

record ResolvedRule =
  rr_SrcIP :: string
  rr_DstIP :: string
  rr_Protocol :: string
  rr_Port :: int

definition PolicyProtocolTCP :: string where "PolicyProtocolTCP = ''tcp''"

definition FleetSubnet :: string where "FleetSubnet = FleetSubnetCIDR"

definition XVMChain :: string where "XVMChain = ''SNT-XVM''"

definition EgressParentChain :: string where "EgressParentChain = ''SNT-EGRESS''"

definition systemChainPrefix :: string where "systemChainPrefix = ''SNT-SYS-''"

definition systemChainHexLen :: nat where "systemChainHexLen = 16"

definition maxRuleDeleteLoops :: nat where "maxRuleDeleteLoops = 32"

definition forwardProgram :: "argv list" where
  "forwardProgram =
     [[''-j'', XVMChain],
      [''-j'', EgressParentChain],
      [''-s'', FleetSubnet, ''-d'', FleetSubnet, ''-j'', ''DROP''],
      [''-s'', FleetSubnet, ''-j'', ''ACCEPT''],
      [''-d'', FleetSubnet, ''-j'', ''ACCEPT'']]"

definition xvmTerminalRule :: argv where
  "xvmTerminalRule = [''-s'', FleetSubnet, ''-d'', FleetSubnet, ''-j'', ''DROP'']"

definition systemJumpRule :: "string \<Rightarrow> argv" where
  "systemJumpRule chain = [''-s'', FleetSubnet, ''-d'', FleetSubnet, ''-j'', chain]"

definition uuid_bytes :: "uuid \<Rightarrow> 8 word list" where
  "uuid_bytes u = map (\<lambda>i. ucast (drop_bit (8 * i) u)) (rev [0..<16])"

definition SystemChainName :: "uuid \<Rightarrow> string" where
  "SystemChainName networkID = systemChainPrefix @ take systemChainHexLen (hex_EncodeToString (Sum256 (uuid_bytes networkID)))"

text \<open>\<open>strings.Fields\<close>.\<close>

fun field_len :: "string \<Rightarrow> nat" where
  "field_len [] = 0"
| "field_len (c # s) = (if 0 < space_len (c # s) then 0 else Suc (field_len s))"

lemma length_trim_left: "length (trim_left s) \<le> length s"
  by (induction s rule: trim_left.induct) (subst trim_left.simps, auto)

lemma trim_left_no_space: "trim_left s = [] \<or> space_len (trim_left s) = 0"
  by (induction s rule: trim_left.induct) (subst (1 2) trim_left.simps, auto)

function Fields :: "string \<Rightarrow> string list" where
  "Fields s =
     (let t = trim_left s in
      if t = [] then [] else take (field_len t) t # Fields (drop (field_len t) t))"
  by auto
termination
proof (relation "measure length", simp)
  fix s t :: string
  assume t: "t = trim_left s" "t \<noteq> []"
  then have "space_len t = 0" using trim_left_no_space [of s] by simp
  then have "0 < field_len t" using t(2) by (cases t) simp_all
  with t(2) have "length (drop (field_len t) t) < length t" by simp
  moreover have "length t \<le> length s" using t(1) length_trim_left [of s] by simp
  ultimately show "(drop (field_len t) t, s) \<in> measure length" by simp
qed

declare Fields.simps [simp del]

definition parse_listing :: "string \<Rightarrow> string \<Rightarrow> argv list" where
  "parse_listing chain out =
     map (drop 2) (filter (\<lambda>fields. 3 \<le> length fields \<and> fields ! 0 = ''-A'' \<and> fields ! 1 = chain)
       (map Fields (split_on (CHR 0x0A) out)))"

definition listChain :: "'k runner \<Rightarrow> string \<Rightarrow> 'k \<Rightarrow> argv list enf_result \<times> 'k" where
  "listChain run chain k =
     (case run [''-S'', chain] k of
        (Inl _, k1) \<Rightarrow> (Inl (EnfNetwork ErrNetworkPostureUnproven), k1)
      | (Inr out, k1) \<Rightarrow> (Inr (parse_listing chain out), k1))"

definition equalRule :: "argv \<Rightarrow> argv \<Rightarrow> bool" where
  "equalRule got want \<longleftrightarrow> length got = length want \<and> (\<forall>i < length got. got ! i = want ! i)"

definition isEgressJump :: "argv \<Rightarrow> bool" where
  "isEgressJump rule \<longleftrightarrow> (\<exists>i < length rule - 1. rule ! i = ''-j'' \<and> take 6 (rule ! (i + 1)) = ''fc-eg-'')"

text \<open>One command of the program, its failure an error of the step.\<close>

definition exec :: "'k runner \<Rightarrow> argv \<Rightarrow> 'k \<Rightarrow> unit enf_result \<times> 'k" where
  "exec run args k = (case run args k of (Inl _, k1) \<Rightarrow> (Inl EnfExec, k1) | (Inr _, k1) \<Rightarrow> (Inr (), k1))"

definition ensureChain :: "'k runner \<Rightarrow> string \<Rightarrow> 'k \<Rightarrow> unit enf_result \<times> 'k" where
  "ensureChain run chain k =
     (case run [''-N'', chain] k of
        (Inr _, k1) \<Rightarrow> (Inr (), k1)
      | (Inl _, k1) \<Rightarrow>
          (case listChain run chain k1 of
             (Inl e, k2) \<Rightarrow> (Inl e, k2)
           | (Inr _, k2) \<Rightarrow> (Inr (), k2)))"

fun delete_copies :: "nat \<Rightarrow> 'k runner \<Rightarrow> string \<Rightarrow> argv \<Rightarrow> 'k \<Rightarrow> unit enf_result \<times> 'k" where
  "delete_copies 0 run chain rule k = (Inl EnfExec, k)"
| "delete_copies (Suc n) run chain rule k =
     (case run ([''-C'', chain] @ rule) k of
        (Inl _, k1) \<Rightarrow> (Inr (), k1)
      | (Inr _, k1) \<Rightarrow>
          (case exec run ([''-D'', chain] @ rule) k1 of
             (Inl e, k2) \<Rightarrow> (Inl e, k2)
           | (Inr _, k2) \<Rightarrow> delete_copies n run chain rule k2))"

definition deleteAllCopies :: "'k runner \<Rightarrow> string \<Rightarrow> argv \<Rightarrow> 'k \<Rightarrow> unit enf_result \<times> 'k" where
  "deleteAllCopies run chain rule = delete_copies maxRuleDeleteLoops run chain rule"

text \<open>Steps in order, the first error ends them.\<close>

fun each :: "('a \<Rightarrow> 'k \<Rightarrow> unit enf_result \<times> 'k) \<Rightarrow> 'a list \<Rightarrow> 'k \<Rightarrow> unit enf_result \<times> 'k" where
  "each f [] k = (Inr (), k)"
| "each f (x # xs) k = (case f x k of (Inl e, k1) \<Rightarrow> (Inl e, k1) | (Inr _, k1) \<Rightarrow> each f xs k1)"

definition reparent_jump :: "'k runner \<Rightarrow> argv \<Rightarrow> 'k \<Rightarrow> unit enf_result \<times> 'k" where
  "reparent_jump run rule k =
     (if \<not> isEgressJump rule then (Inr (), k)
      else case deleteAllCopies run ''FORWARD'' rule k of
        (Inl e, k1) \<Rightarrow> (Inl e, k1)
      | (Inr _, k1) \<Rightarrow> exec run ([''-A'', EgressParentChain] @ rule) k1)"

definition reparentStaleEgressJumps :: "'k runner \<Rightarrow> 'k \<Rightarrow> unit enf_result \<times> 'k" where
  "reparentStaleEgressJumps run k =
     (case listChain run ''FORWARD'' k of
        (Inl e, k1) \<Rightarrow> (Inl e, k1)
      | (Inr listed, k1) \<Rightarrow> each (reparent_jump run) listed k1)"

definition InstallSkeleton :: "'k runner \<Rightarrow> 'k \<Rightarrow> unit enf_result \<times> 'k" where
  "InstallSkeleton run k =
     (case each (ensureChain run) [XVMChain, EgressParentChain] k of
        (Inl e, k1) \<Rightarrow> (Inl e, k1)
      | (Inr _, k1) \<Rightarrow>
     (case reparentStaleEgressJumps run k1 of
        (Inl e, k2) \<Rightarrow> (Inl e, k2)
      | (Inr _, k2) \<Rightarrow>
     (case each (deleteAllCopies run ''FORWARD'') forwardProgram k2 of
        (Inl e, k3) \<Rightarrow> (Inl e, k3)
      | (Inr _, k3) \<Rightarrow>
     (case each (\<lambda>rule. exec run ([''-I'', ''FORWARD'', ''1''] @ rule)) (rev forwardProgram) k3 of
        (Inl e, k4) \<Rightarrow> (Inl e, k4)
      | (Inr _, k4) \<Rightarrow>
     (case deleteAllCopies run XVMChain xvmTerminalRule k4 of
        (Inl e, k5) \<Rightarrow> (Inl e, k5)
      | (Inr _, k5) \<Rightarrow> exec run ([''-A'', XVMChain] @ xvmTerminalRule) k5)))))"

definition AssertPosture :: "'k runner \<Rightarrow> 'k \<Rightarrow> unit enf_result \<times> 'k" where
  "AssertPosture run k =
     (case listChain run ''FORWARD'' k of
        (Inl e, k1) \<Rightarrow> (Inl e, k1)
      | (Inr listed, k1) \<Rightarrow>
          if length listed < length forwardProgram \<or>
             (\<exists>i < length forwardProgram. \<not> equalRule (listed ! i) (forwardProgram ! i))
          then (Inl (EnfNetwork ErrNetworkPostureUnproven), k1)
          else (case listChain run XVMChain k1 of
             (Inl e, k2) \<Rightarrow> (Inl e, k2)
           | (Inr xvm, k2) \<Rightarrow>
               if xvm = [] \<or> \<not> equalRule (last xvm) xvmTerminalRule
               then (Inl (EnfNetwork ErrNetworkPostureUnproven), k2)
               else (case listChain run EgressParentChain k2 of
                  (Inl e, k3) \<Rightarrow> (Inl e, k3)
                | (Inr _, k3) \<Rightarrow> (Inr (), k3))))"

definition validateResolved :: "ResolvedRule \<Rightarrow> enforcer_error option" where
  "validateResolved r =
     (if rr_Protocol r \<noteq> PolicyProtocolTCP then Some (EnfNetwork ErrUnsupportedPolicyProtocol)
      else if rr_Port r \<le> 0 \<or> 65535 < rr_Port r then Some (EnfNetwork ErrInvalidNetworkPolicy)
      else if \<not> InFleetSubnet (rr_SrcIP r) \<or> \<not> InFleetSubnet (rr_DstIP r) then Some (EnfNetwork ErrInvalidNetworkPolicy)
      else None)"

definition accept_rule :: "ResolvedRule \<Rightarrow> argv" where
  "accept_rule r = [''-s'', rr_SrcIP r @ ''/32'', ''-d'', rr_DstIP r @ ''/32'', ''-p'', rr_Protocol r,
     ''--dport'', show_int (rr_Port r), ''-j'', ''ACCEPT'']"

text \<open>The refill and the link, after the flush.\<close>

definition refill :: "'k runner \<Rightarrow> string \<Rightarrow> ResolvedRule list \<Rightarrow> 'k \<Rightarrow> unit enf_result \<times> 'k" where
  "refill run chain rules k =
     (case each (\<lambda>r. exec run ([''-A'', chain] @ accept_rule r)) rules k of
        (Inl e, k1) \<Rightarrow> (Inl e, k1)
      | (Inr _, k1) \<Rightarrow>
          (case deleteAllCopies run XVMChain (systemJumpRule chain) k1 of
             (Inl e, k2) \<Rightarrow> (Inl e, k2)
           | (Inr _, k2) \<Rightarrow> exec run ([''-I'', XVMChain, ''1''] @ systemJumpRule chain) k2))"

definition SyncSystem :: "'k runner \<Rightarrow> uuid \<Rightarrow> ResolvedRule list \<Rightarrow> 'k \<Rightarrow> unit enf_result \<times> 'k" where
  "SyncSystem run networkID rules k =
     (case List.map_filter validateResolved rules of
        e # _ \<Rightarrow> (Inl e, k)
      | [] \<Rightarrow>
          let chain = SystemChainName networkID in
          (case ensureChain run chain k of
             (Inl e, k1) \<Rightarrow> (Inl e, k1)
           | (Inr _, k1) \<Rightarrow>
               (case exec run [''-F'', chain] k1 of
                  (Inl e, k2) \<Rightarrow> (Inl e, k2)
                | (Inr _, k2) \<Rightarrow>
                    (case refill run chain rules k2 of
                       (Inr _, k3) \<Rightarrow> (Inr (), k3)
                     | (Inl e, k3) \<Rightarrow> (Inl e, snd (run [''-F'', chain] k3))))))"

definition DropSystem :: "'k runner \<Rightarrow> uuid \<Rightarrow> 'k \<Rightarrow> unit enf_result \<times> 'k" where
  "DropSystem run networkID k =
     (let chain = SystemChainName networkID in
      case deleteAllCopies run XVMChain (systemJumpRule chain) k of
        (Inl e, k1) \<Rightarrow> (Inl e, k1)
      | (Inr _, k1) \<Rightarrow>
          (case exec run [''-F'', chain] k1 of
             (Inl e, k2) \<Rightarrow> (Inl e, k2)
           | (Inr _, k2) \<Rightarrow> exec run [''-X'', chain] k2))"

section \<open>What the filter does to a packet\<close>

record packet =
  pk_src :: ipv4
  pk_dst :: ipv4
  pk_tcp :: bool
  pk_sport :: int
  pk_dport :: int

datatype decision = Accept | Drop

type_synonym ruleset = "string \<Rightarrow> argv list option"

definition jump_target :: "argv \<Rightarrow> string option" where
  "jump_target rule = (if 2 \<le> length rule \<and> rule ! (length rule - 2) = ''-j'' then Some (last rule) else None)"

text \<open>The rules of a chain in order: a rule that does not match is passed over, ACCEPT and DROP decide, a jump runs the
  named chain and comes back when that chain decides nothing (\<open>None\<close>).\<close>

inductive fate :: "(argv \<Rightarrow> packet \<Rightarrow> bool) \<Rightarrow> ruleset \<Rightarrow> packet \<Rightarrow> argv list \<Rightarrow> decision option \<Rightarrow> bool"
  for hits :: "argv \<Rightarrow> packet \<Rightarrow> bool" and C :: ruleset and p :: packet where
  Through: "fate hits C p [] None"
| Pass: "\<not> hits r p \<Longrightarrow> fate hits C p rs v \<Longrightarrow> fate hits C p (r # rs) v"
| Accepts: "hits r p \<Longrightarrow> jump_target r = Some ''ACCEPT'' \<Longrightarrow> fate hits C p (r # rs) (Some Accept)"
| Drops: "hits r p \<Longrightarrow> jump_target r = Some ''DROP'' \<Longrightarrow> fate hits C p (r # rs) (Some Drop)"
| Decides: "hits r p \<Longrightarrow> jump_target r = Some c \<Longrightarrow> C c = Some cs \<Longrightarrow> c \<notin> {''ACCEPT'', ''DROP''} \<Longrightarrow>
    fate hits C p cs (Some v) \<Longrightarrow> fate hits C p (r # rs) (Some v)"
| Returns: "hits r p \<Longrightarrow> jump_target r = Some c \<Longrightarrow> C c = Some cs \<Longrightarrow> c \<notin> {''ACCEPT'', ''DROP''} \<Longrightarrow>
    fate hits C p cs None \<Longrightarrow> fate hits C p rs v \<Longrightarrow> fate hits C p (r # rs) v"

inductive_simps fate_Cons_iff: "fate hits C p (r # rs) v"

inductive_simps fate_Nil_iff [simp]: "fate hits C p [] v"

lemma fate_pass: "\<not> hits r p \<Longrightarrow> fate hits C p (r # rs) v \<longleftrightarrow> fate hits C p rs v"
  by (simp add: fate_Cons_iff)

lemma fate_accept: "hits r p \<Longrightarrow> jump_target r = Some ''ACCEPT'' \<Longrightarrow> fate hits C p (r # rs) v \<longleftrightarrow> v = Some Accept"
  by (auto simp: fate_Cons_iff)

lemma fate_drop: "hits r p \<Longrightarrow> jump_target r = Some ''DROP'' \<Longrightarrow> fate hits C p (r # rs) v \<longleftrightarrow> v = Some Drop"
  by (auto simp: fate_Cons_iff)

lemma fate_jump:
  assumes "hits r p" "jump_target r = Some c" "c \<noteq> ''ACCEPT''" "c \<noteq> ''DROP''" "C c = Some cs"
    and "\<And>w. fate hits C p cs w \<longleftrightarrow> w = d"
  shows "fate hits C p (r # rs) v \<longleftrightarrow> (if d = None then fate hits C p rs v else v = d)"
  using assms by (auto simp: fate_Cons_iff)

section \<open>The abstract policy\<close>

text \<open>What the filter is for: each linked network allows the flows of its rules, everything else between two
  microVMs is denied.\<close>

type_synonym policy = "uuid \<Rightarrow> ResolvedRule list option"

definition admits :: "ResolvedRule \<Rightarrow> packet \<Rightarrow> bool" where
  "admits r p \<longleftrightarrow> ParseAddr4 (rr_SrcIP r) = Some (pk_src p) \<and> ParseAddr4 (rr_DstIP r) = Some (pk_dst p) \<and>
     pk_tcp p \<and> pk_dport p = rr_Port r"

definition allows :: "policy \<Rightarrow> packet \<Rightarrow> bool" where
  "allows S p \<longleftrightarrow> (\<exists>n rs. S n = Some rs \<and> (\<exists>r \<in> set rs. admits r p))"

definition inter_vm :: "packet \<Rightarrow> bool" where
  "inter_vm p \<longleftrightarrow> InFleetSubnet (Addr_String (pk_src p)) \<and> InFleetSubnet (Addr_String (pk_dst p))"

text \<open>A successful sync installs exactly the given rules of one network; a failed one leaves the network as it
  was, unlinked, or with a part of the new rules.\<close>

definition sync_spec :: "policy \<Rightarrow> uuid \<Rightarrow> ResolvedRule list \<Rightarrow> bool \<Rightarrow> policy \<Rightarrow> bool" where
  "sync_spec S n rules ok S' \<longleftrightarrow> (\<exists>now. S' = S(n := now) \<and>
     (if ok then now = Some rules else now = S n \<or> now = None \<or> (\<exists>rs. now = Some rs \<and> prefix rs rules)))"

definition drop_spec :: "policy \<Rightarrow> uuid \<Rightarrow> bool \<Rightarrow> policy \<Rightarrow> bool" where
  "drop_spec S n ok S' \<longleftrightarrow> (\<exists>now. S' = S(n := now) \<and> (if ok then now = None else now \<in> {S n, None, Some []}))"

abbreviation link :: "uuid \<Rightarrow> argv" where
  "link n \<equiv> systemJumpRule (SystemChainName n)"

definition wf_rules :: "ResolvedRule list \<Rightarrow> bool" where
  "wf_rules rs \<longleftrightarrow> (\<forall>r \<in> set rs. validateResolved r = None)"

definition realizes :: "(argv \<Rightarrow> argv) \<Rightarrow> ruleset \<Rightarrow> policy \<Rightarrow> bool" where
  "realizes canon C S \<longleftrightarrow>
     (\<exists>fs. C ''FORWARD'' = Some (forwardProgram @ fs)) \<and>
     (\<exists>js rest. C XVMChain = Some (js @ xvmTerminalRule # rest) \<and> set js = link ` dom S) \<and>
     (\<forall>n rs. S n = Some rs \<longrightarrow> C (SystemChainName n) = Some (map (\<lambda>r. canon (accept_rule r)) rs) \<and> wf_rules rs)"

lemma SystemChainName_fresh [simp]:
  "SystemChainName n \<noteq> ''FORWARD''" "SystemChainName n \<noteq> XVMChain" "XVMChain \<noteq> SystemChainName n"
  "SystemChainName n \<noteq> EgressParentChain" "SystemChainName n \<noteq> ''ACCEPT''" "SystemChainName n \<noteq> ''DROP''"
  "''FORWARD'' \<noteq> SystemChainName n"
  by (simp_all add: SystemChainName_def systemChainPrefix_def XVMChain_def EgressParentChain_def)

lemma chain_names [simp]: "XVMChain \<noteq> ''FORWARD''" "''FORWARD'' \<noteq> XVMChain" "XVMChain \<noteq> EgressParentChain"
  by (simp_all add: XVMChain_def EgressParentChain_def)

lemma jump_targets [simp]:
  "jump_target (systemJumpRule c) = Some c" "jump_target xvmTerminalRule = Some ''DROP''"
  "jump_target (accept_rule r) = Some ''ACCEPT''" "jump_target [''-j'', c] = Some c"
  by (simp_all add: jump_target_def systemJumpRule_def xvmTerminalRule_def accept_rule_def)

lemma link_not_terminal [simp]: "link n \<noteq> xvmTerminalRule" "xvmTerminalRule \<noteq> link n"
  by (metis SystemChainName_fresh(6) jump_targets(1,2) option.inject)+

lemma link_inj: "inj_on SystemChainName N \<Longrightarrow> inj_on link N"
  by (auto simp: inj_on_def systemJumpRule_def)

text \<open>Removing copies of a link leaves the terminal deny where it is.\<close>

lemma remove_copies:
  assumes "a \<noteq> t"
  shows "\<exists>js' rest'. ((remove1 a) ^^ m) (js @ t # rest) = js' @ t # rest' \<and> set js' \<subseteq> set js \<and> set js \<subseteq> insert a (set js')"
proof (induction m)
  case (Suc m)
  then obtain js' rest' where i: "((remove1 a) ^^ m) (js @ t # rest) = js' @ t # rest'" "set js' \<subseteq> set js" "set js \<subseteq> insert a (set js')"
    by blast
  then have "((remove1 a) ^^ Suc m) (js @ t # rest) =
      (if a \<in> set js' then remove1 a js' @ t # rest' else js' @ t # remove1 a rest')"
    using assms by (simp add: remove1_append)
  moreover have "set (remove1 a js') \<subseteq> set js'" by (rule set_remove1_subset)
  moreover have "set js' \<subseteq> insert a (set (remove1 a js'))" using in_set_remove1 [of _ a js'] by blast
  ultimately show ?case using i(2,3)
    by (cases "a \<in> set js'") (simp_all, (intro exI conjI, rule refl, blast, blast)+)
qed auto

section \<open>What iptables promises\<close>

text \<open>The rules as the kernel keeps and prints them: \<open>canon\<close> is the form of a rule that the \<open>-S\<close> listing
  shows (it adds, for one, the implicit \<open>-m tcp\<close>).  A command that fails changes nothing; a successful one
  does what the manual says.  Nothing is said of when a command succeeds, and nothing of a failed
  \<open>-C\<close>, which the code reads as the absence of the rule.\<close>

locale iptables =
  fixes run :: "'k runner" and chains :: "'k \<Rightarrow> ruleset" and canon :: "argv \<Rightarrow> argv"
  assumes fails: "run args k = (Inl e, k') \<Longrightarrow> chains k' = chains k"
    and new_chain: "run [''-N'', c] k = (Inr out, k') \<Longrightarrow> chains k c = None \<and> chains k' = (chains k)(c \<mapsto> [])"
    and append_rule: "run ([''-A'', c] @ r) k = (Inr out, k') \<Longrightarrow>
      \<exists>rs. chains k c = Some rs \<and> chains k' = (chains k)(c \<mapsto> rs @ [canon r])"
    and insert_rule: "run ([''-I'', c, ''1''] @ r) k = (Inr out, k') \<Longrightarrow>
      \<exists>rs. chains k c = Some rs \<and> chains k' = (chains k)(c \<mapsto> canon r # rs)"
    and delete_rule: "run ([''-D'', c] @ r) k = (Inr out, k') \<Longrightarrow>
      \<exists>rs. chains k c = Some rs \<and> canon r \<in> set rs \<and> chains k' = (chains k)(c \<mapsto> remove1 (canon r) rs)"
    and check_rule: "run ([''-C'', c] @ r) k = (Inr out, k') \<Longrightarrow> chains k' = chains k"
    and flush_chain: "run [''-F'', c] k = (Inr out, k') \<Longrightarrow> chains k c \<noteq> None \<and> chains k' = (chains k)(c \<mapsto> [])"
    and delete_chain: "run [''-X'', c] k = (Inr out, k') \<Longrightarrow>
      chains k' = (chains k)(c := None) \<and> (\<forall>d rs. chains k d = Some rs \<longrightarrow> (\<forall>r \<in> set rs. jump_target r \<noteq> Some c))"
    and list_chain: "run [''-S'', c] k = (Inr out, k') \<Longrightarrow> chains k' = chains k \<and> chains k c = Some (parse_listing c out)"
    and canon_subnet: "canon [''-s'', FleetSubnet, ''-d'', FleetSubnet, ''-j'', t] = [''-s'', FleetSubnet, ''-d'', FleetSubnet, ''-j'', t]"
    and canon_program: "r \<in> set forwardProgram \<Longrightarrow> canon r = r"
    and canon_target: "jump_target (canon r) = jump_target r"
begin

lemma canon_terminal [simp]: "canon xvmTerminalRule = xvmTerminalRule"
  by (simp add: xvmTerminalRule_def canon_subnet)

lemma canon_jump [simp]: "canon (systemJumpRule c) = systemJumpRule c"
  by (simp add: systemJumpRule_def canon_subnet)

lemma exec_fails: "exec run args k = (Inl e, k') \<Longrightarrow> chains k' = chains k"
  by (auto simp: exec_def split: prod.splits sum.splits dest: fails)

lemma exec_ok: "exec run args k = (Inr u, k') \<Longrightarrow> \<exists>out. run args k = (Inr out, k')"
  by (auto simp: exec_def split: prod.splits sum.splits)

lemma exec_append: "exec run ([''-A'', c] @ r) k = (Inr u, k') \<Longrightarrow>
    \<exists>rs. chains k c = Some rs \<and> chains k' = (chains k)(c \<mapsto> rs @ [canon r])"
  by (blast dest: exec_ok append_rule)

lemma exec_insert: "exec run ([''-I'', c, ''1''] @ r) k = (Inr u, k') \<Longrightarrow>
    \<exists>rs. chains k c = Some rs \<and> chains k' = (chains k)(c \<mapsto> canon r # rs)"
  by (blast dest: exec_ok insert_rule)

lemma exec_delete: "exec run ([''-D'', c] @ r) k = (Inr u, k') \<Longrightarrow>
    \<exists>rs. chains k c = Some rs \<and> canon r \<in> set rs \<and> chains k' = (chains k)(c \<mapsto> remove1 (canon r) rs)"
  by (blast dest: exec_ok delete_rule)

lemma exec_flush: "exec run [''-F'', c] k = (Inr u, k') \<Longrightarrow> chains k c \<noteq> None \<and> chains k' = (chains k)(c \<mapsto> [])"
  by (blast dest: exec_ok flush_chain)

lemma listChain_keeps: "listChain run c k = (x, k') \<Longrightarrow> chains k' = chains k"
  by (auto simp: listChain_def split: prod.splits sum.splits dest: fails list_chain)

lemma listChain_ok: "listChain run c k = (Inr rs, k') \<Longrightarrow> chains k c = Some rs"
  by (auto simp: listChain_def split: prod.splits sum.splits dest: list_chain)

lemma ensureChain_effect:
  assumes "ensureChain run c k = (x, k')"
  shows "chains k' = chains k \<or> chains k c = None \<and> chains k' = (chains k)(c \<mapsto> [])"
    and "x = Inr () \<Longrightarrow> chains k' c \<noteq> None"
proof -
  obtain y k1 where n: "run [''-N'', c] k = (y, k1)" by fastforce
  obtain z k2 where l: "listChain run c k1 = (z, k2)" by fastforce
  note keep = listChain_keeps [OF l]
  have "(chains k' = chains k \<or> chains k c = None \<and> chains k' = (chains k)(c \<mapsto> [])) \<and> (x = Inr () \<longrightarrow> chains k' c \<noteq> None)"
  proof (cases y)
    case (Inl e)
    then have "chains k1 = chains k" using n fails by blast
    then show ?thesis
      using assms keep listChain_ok [of c k1 _ k2] l n Inl by (cases z) (auto simp: ensureChain_def)
  next
    case (Inr out)
    then show ?thesis using assms n new_chain [of c k out k1] by (auto simp: ensureChain_def)
  qed
  then show "chains k' = chains k \<or> chains k c = None \<and> chains k' = (chains k)(c \<mapsto> [])" "x = Inr () \<Longrightarrow> chains k' c \<noteq> None"
    by simp_all
qed

text \<open>Deleting copies only removes copies, however it ends.\<close>

lemma delete_copies_effect:
  assumes "delete_copies n run c r k = (x, k')"
  shows "\<exists>m. chains k' = (chains k)(c := map_option ((remove1 (canon r)) ^^ m) (chains k c))"
  using assms
proof (induction n arbitrary: k)
  case 0
  then show ?case by (auto intro!: exI [of _ 0] simp: option.map_id0)
next
  case (Suc n)
  obtain y k1 where c: "run ([''-C'', c] @ r) k = (y, k1)" by fastforce
  have k1: "chains k1 = chains k" using c fails check_rule by (cases y) blast+
  obtain z k2 where d: "exec run ([''-D'', c] @ r) k1 = (z, k2)" by fastforce
  consider "chains k' = chains k" | u where "z = Inr u" "delete_copies n run c r k2 = (x, k')"
    using Suc.prems c d k1 exec_fails [of "[''-D'', c] @ r" k1 _ k2] by (cases y; cases z) auto
  then show ?case
  proof cases
    case 1
    then show ?thesis by (auto intro!: exI [of _ 0] simp: option.map_id0)
  next
    case 2
    from exec_delete [OF d [unfolded 2(1)]] obtain rs
      where rs: "chains k1 c = Some rs" "chains k2 = (chains k1)(c \<mapsto> remove1 (canon r) rs)" by blast
    from Suc.IH [OF 2(2)] obtain m where "chains k' = (chains k2)(c := map_option ((remove1 (canon r)) ^^ m) (chains k2 c))"
      by blast
    then have "chains k' = (chains k)(c := map_option ((remove1 (canon r)) ^^ Suc m) (chains k c))"
      using rs k1 by (simp add: funpow_swap1)
    then show ?thesis by blast
  qed
qed

lemmas deleteAllCopies_effect = delete_copies_effect [of maxRuleDeleteLoops, folded deleteAllCopies_def]

end

section \<open>The adapter implements the policy\<close>

text \<open>New rules of a network: they count when its chain is linked.\<close>

definition put :: "policy \<Rightarrow> uuid \<Rightarrow> ResolvedRule list \<Rightarrow> policy" where
  "put S n rs = S(n := if n \<in> dom S then Some rs else None)"

lemma put_put [simp]: "put (put S n rs) n rs' = put S n rs'"
  by (auto simp: put_def fun_eq_iff domIff)

lemma dom_put [simp]: "dom (put S n rs) = dom S"
  by (auto simp: put_def domIff)

lemma put_same [simp]: "put S n rs n \<in> {None, Some rs}"
  by (simp add: put_def)

lemma realizes_chain:
  assumes "realizes canon C S" "inj_on SystemChainName (insert n (dom S))" "wf_rules rs"
  shows "realizes canon (C(SystemChainName n \<mapsto> map (\<lambda>r. canon (accept_rule r)) rs)) (put S n rs)"
proof -
  have other: "SystemChainName m \<noteq> SystemChainName n" if "m \<in> dom S" "m \<noteq> n" for m
    using assms(2) that by (auto simp: inj_on_def)
  then show ?thesis using assms(1,3) unfolding realizes_def dom_put
    by (auto simp: put_def domI split: if_splits)
qed

context iptables
begin

text \<open>A chain of a network whose content is known, and the policy it takes part in when it is linked.\<close>

definition holds :: "'k \<Rightarrow> policy \<Rightarrow> uuid \<Rightarrow> ResolvedRule list \<Rightarrow> bool" where
  "holds k S n rs \<longleftrightarrow> realizes canon (chains k) S \<and> inj_on SystemChainName (insert n (dom S)) \<and> wf_rules rs \<and>
     chains k (SystemChainName n) = Some (map (\<lambda>r. canon (accept_rule r)) rs) \<and> S n \<in> {None, Some rs}"

lemma holds_set:
  assumes "realizes canon (chains k) S" "inj_on SystemChainName (insert n (dom S))" "wf_rules rs"
    and "chains k' = (chains k)(SystemChainName n \<mapsto> map (\<lambda>r. canon (accept_rule r)) rs)"
  shows "holds k' (put S n rs) n rs"
  using realizes_chain [OF assms(1-3)] assms put_same [of S n rs] by (simp only: holds_def dom_put) simp

lemma holds_same:
  assumes "holds k S n rs" "chains k' = chains k"
  shows "holds k' (put S n (rs @ [])) n (rs @ [])"
proof -
  have "put S n rs = S" using assms(1) by (auto simp: holds_def put_def domIff fun_eq_iff)
  with assms show ?thesis by (simp only: append_Nil2 holds_def)
qed

lemma append_holds:
  assumes "holds k S n rs" "wf_rules rules" "each (\<lambda>r. exec run ([''-A'', SystemChainName n] @ accept_rule r)) rules k = (x, k')"
  shows "\<exists>rs'. prefix rs' rules \<and> (x = Inr () \<longrightarrow> rs' = rules) \<and>
    holds k' (put S n (rs @ rs')) n (rs @ rs')"
  using assms
proof (induction rules arbitrary: k S rs)
  case Nil
  then have "chains k' = chains k" by simp
  with Nil(1) show ?case by (intro exI [of _ "[]"] conjI holds_same) simp_all
next
  case (Cons r rules)
  obtain y k1 where e: "exec run ([''-A'', SystemChainName n] @ accept_rule r) k = (y, k1)" by fastforce
  show ?case
  proof (cases y)
    case (Inl err)
    then have "chains k' = chains k" "x = Inl err" using Cons.prems(3) e exec_fails by auto
    then show ?thesis using Cons.prems(1) by (intro exI [of _ "[]"] conjI holds_same) simp_all
  next
    case (Inr u)
    have k1: "chains k1 = (chains k)(SystemChainName n \<mapsto> map (\<lambda>r. canon (accept_rule r)) (rs @ [r]))"
      using exec_append [OF e [unfolded Inr]] Cons.prems(1) by (auto simp: holds_def)
    have "wf_rules (rs @ [r])" using Cons.prems(1,2) by (auto simp: holds_def wf_rules_def)
    then have h: "holds k1 (put S n (rs @ [r])) n (rs @ [r])"
      using Cons.prems(1) by (intro holds_set [OF _ _ _ k1]) (simp_all only: holds_def)
    have "each (\<lambda>r. exec run ([''-A'', SystemChainName n] @ accept_rule r)) rules k1 = (x, k')" "wf_rules rules"
      using Cons.prems(2,3) e Inr by (auto simp: wf_rules_def)
    from Cons.IH [OF h this(2,1)] obtain rs' where "prefix rs' rules" "x = Inr () \<longrightarrow> rs' = rules"
      "holds k' (put S n (rs @ r # rs')) n (rs @ r # rs')"
      by auto
    then show ?thesis by (intro exI [of _ "r # rs'"]) simp
  qed
qed

lemma unlink_holds:
  assumes "realizes canon (chains k) S" "inj_on SystemChainName (insert n (dom S))"
    and "deleteAllCopies run XVMChain (link n) k = (x, k')"
  shows "realizes canon (chains k') S \<or> realizes canon (chains k') (S(n := None))"
    and "\<And>c. c \<noteq> XVMChain \<Longrightarrow> chains k' c = chains k c"
proof -
  obtain m where m: "chains k' = (chains k)(XVMChain := map_option ((remove1 (link n)) ^^ m) (chains k XVMChain))"
    using deleteAllCopies_effect [OF assms(3)] by auto
  then show "\<And>c. c \<noteq> XVMChain \<Longrightarrow> chains k' c = chains k c" by simp
  obtain js rest where x: "chains k XVMChain = Some (js @ xvmTerminalRule # rest)" "set js = link ` dom S"
    using assms(1) by (auto simp: realizes_def)
  obtain js' rest' where r: "((remove1 (link n)) ^^ m) (js @ xvmTerminalRule # rest) = js' @ xvmTerminalRule # rest'"
    "set js' \<subseteq> set js" "set js \<subseteq> insert (link n) (set js')"
    using remove_copies [of "link n" xvmTerminalRule m js rest] by auto
  have k': "chains k' XVMChain = Some (js' @ xvmTerminalRule # rest')" by (simp add: m x r)
  have "set js' = link ` dom S \<or> set js' = link ` dom (S(n := None))"
  proof (cases "link n \<in> set js'")
    case True
    then have "set js' = set js" using r(2,3) by (simp add: insert_absorb)
    then show ?thesis by (simp add: x(2))
  next
    case False
    have "link ` dom S - {link n} = link ` (dom S - {n})"
      using link_inj [OF assms(2)] by (auto simp: inj_on_def)
    moreover from False have "set js' = set js - {link n}" using r(2,3) by blast
    ultimately show ?thesis by (simp add: x(2))
  qed
  then show "realizes canon (chains k') S \<or> realizes canon (chains k') (S(n := None))"
  proof (rule disjE)
    assume "set js' = link ` dom S"
    with assms(1) k' have "realizes canon (chains k') S" unfolding realizes_def m by auto
    then show ?thesis ..
  next
    assume "set js' = link ` dom (S(n := None))"
    with assms(1) k' have "realizes canon (chains k') (S(n := None))" unfolding realizes_def m by auto
    then show ?thesis ..
  qed
qed

end

context iptables
begin

lemma link_realizes:
  assumes "holds k S n rs" "exec run ([''-I'', XVMChain, ''1''] @ link n) k = (Inr u, k')"
  shows "realizes canon (chains k') (S(n \<mapsto> rs))"
proof -
  obtain js rest where x: "chains k XVMChain = Some (js @ xvmTerminalRule # rest)" "set js = link ` dom S"
    using assms(1) by (auto simp: holds_def realizes_def)
  have k': "chains k' = (chains k)(XVMChain \<mapsto> link n # js @ xvmTerminalRule # rest)"
    using exec_insert [OF assms(2)] x by auto
  have "chains k' XVMChain = Some ((link n # js) @ xvmTerminalRule # rest)" "set (link n # js) = link ` dom (S(n \<mapsto> rs))"
    by (simp_all add: k' x)
  moreover have "chains k' (SystemChainName m) = chains k (SystemChainName m)" "chains k' ''FORWARD'' = chains k ''FORWARD''" for m
    by (simp_all add: k')
  ultimately show ?thesis using assms(1) unfolding holds_def realizes_def
    by (metis fun_upd_apply option.inject)
qed

lemma unlink_keeps_chain:
  assumes h: "holds k S n rs" and d: "deleteAllCopies run XVMChain (link n) k = (x, k')"
  shows "\<exists>S'. holds k' S' n rs \<and> (S' = S \<or> S' = S(n := None))"
proof -
  from h have r: "realizes canon (chains k) S" "inj_on SystemChainName (insert n (dom S))" by (simp_all only: holds_def)
  have c: "chains k' (SystemChainName n) = chains k (SystemChainName n)" by (rule unlink_holds(2) [OF r d]) simp
  from unlink_holds(1) [OF r d] show ?thesis
  proof (rule disjE)
    assume "realizes canon (chains k') S"
    with h c have "holds k' S n rs" by (simp only: holds_def)
    then show ?thesis by blast
  next
    assume "realizes canon (chains k') (S(n := None))"
    moreover have "insert n (dom (S(n := None))) = insert n (dom S)" by auto
    ultimately have "holds k' (S(n := None)) n rs" using h c unfolding holds_def by simp
    then show ?thesis by blast
  qed
qed

lemma refill_spec:
  assumes "holds k S n []" "wf_rules rules" "refill run (SystemChainName n) rules k = (x, k')"
  shows "\<exists>rs S'. prefix rs rules \<and> holds k' S' n rs \<and> (\<exists>now. S' = S(n := now)) \<and>
    (x = Inr () \<longrightarrow> S' n = Some rules)"
proof -
  obtain y k1 where a: "each (\<lambda>r. exec run ([''-A'', SystemChainName n] @ accept_rule r)) rules k = (y, k1)" by fastforce
  obtain rs where rs: "prefix rs rules" "y = Inr () \<longrightarrow> rs = rules" "holds k1 (put S n rs) n rs"
    using append_holds [OF assms(1,2) a] by auto
  show ?thesis
  proof (cases y)
    case (Inl e)
    then have "k' = k1" "x = Inl e" using assms(3) a by (auto simp: refill_def)
    with rs show ?thesis unfolding put_def by blast
  next
    case (Inr u)
    then have full: "rs = rules" using rs(2) by simp
    obtain z k2 where d: "deleteAllCopies run XVMChain (link n) k1 = (z, k2)" by fastforce
    obtain S2 where S2: "holds k2 S2 n rs" "S2 = put S n rs \<or> S2 = (put S n rs)(n := None)"
      using unlink_keeps_chain [OF rs(3) d] by blast
    then have now: "\<exists>now. S2 = S(n := now)" by (auto simp: put_def)
    show ?thesis
    proof (cases z)
      case (Inl e)
      then have "k' = k2" "x = Inl e" using assms(3) a d Inr by (auto simp: refill_def)
      with rs(1) S2(1) now show ?thesis by blast
    next
      case (Inr v)
      then have i: "exec run ([''-I'', XVMChain, ''1''] @ link n) k2 = (x, k')"
        using assms(3) a d \<open>y = Inr u\<close> by (simp add: refill_def)
      show ?thesis
      proof (cases x)
        case (Inl e)
        then have "chains k' = chains k2" using i exec_fails by simp
        with S2(1) have "holds k' S2 n rs" by (simp only: holds_def)
        with Inl now rs(1) show ?thesis by blast
      next
        case (Inr t)
        note link_realizes [OF S2(1) i [unfolded Inr]]
        moreover have "chains k' (SystemChainName n) = chains k2 (SystemChainName n)"
          using exec_insert [OF i [unfolded Inr]] by auto
        ultimately have "holds k' (S2(n \<mapsto> rs)) n rs" using S2(1) by (simp add: holds_def)
        moreover from now have "\<exists>now. S2(n \<mapsto> rs) = S(n := now)" by auto
        ultimately show ?thesis using rs(1) full by (intro exI [of _ rs] exI [of _ "S2(n \<mapsto> rs)"]) simp
      qed
    qed
  qed
qed

end

context iptables
begin

lemma ensureChain_realizes:
  assumes "realizes canon (chains k) S" "inj_on SystemChainName (insert n (dom S))" "ensureChain run (SystemChainName n) k = (x, k')"
  shows "realizes canon (chains k') S"
proof -
  consider "chains k' = chains k"
    | "chains k (SystemChainName n) = None" "chains k' = (chains k)(SystemChainName n \<mapsto> map (\<lambda>r. canon (accept_rule r)) [])"
    using ensureChain_effect(1) [OF assms(3)] by auto
  then show ?thesis
  proof cases
    case 2
    then have "n \<notin> dom S" using assms(1) by (auto simp: realizes_def)
    then have "put S n [] = S" by (auto simp: put_def fun_eq_iff domIff)
    then show ?thesis using realizes_chain [OF assms(1,2), of "[]"] 2 by (simp add: wf_rules_def)
  qed (use assms in simp)
qed

theorem SyncSystem_spec:
  assumes "realizes canon (chains k) S" "inj_on SystemChainName (insert n (dom S))" "SyncSystem run n rules k = (x, k')"
  shows "\<exists>S'. realizes canon (chains k') S' \<and> sync_spec S n rules (x = Inr ()) S'"
proof (cases "List.map_filter validateResolved rules")
  case (Cons e es)
  then have "k' = k" "x = Inl e" using assms(3) by (auto simp: SyncSystem_def)
  moreover have "sync_spec S n rules False S" by (auto simp: sync_spec_def intro: exI [of _ "S n"])
  ultimately show ?thesis using assms(1) by auto
next
  case Nil
  then have wf: "wf_rules rules" by (induction rules) (auto simp: wf_rules_def List.map_filter_simps split: option.splits)
  obtain y k1 where e: "ensureChain run (SystemChainName n) k = (y, k1)" by fastforce
  note r1 = ensureChain_realizes [OF assms(1,2) e]
  obtain z k2 where f: "exec run [''-F'', SystemChainName n] k1 = (z, k2)" by fastforce
  obtain v k3 where r: "refill run (SystemChainName n) rules k2 = (v, k3)" by fastforce
  have same: "sync_spec S n rules False S" by (auto simp: sync_spec_def intro: exI [of _ "S n"])
  have out: "(x, k') = (case y of Inl e \<Rightarrow> (Inl e, k1) | Inr _ \<Rightarrow> (case z of Inl e \<Rightarrow> (Inl e, k2)
     | Inr _ \<Rightarrow> (case v of Inr _ \<Rightarrow> (Inr (), k3) | Inl e \<Rightarrow> (Inl e, snd (run [''-F'', SystemChainName n] k3)))))"
    using assms(3) by (cases y; cases z; cases v) (auto simp: SyncSystem_def Nil Let_def e f r)
  consider (stop) "chains k' = chains k1" "x \<noteq> Inr ()" | (go) u w where "y = Inr u" "z = Inr w"
    using out exec_fails [of "[''-F'', SystemChainName n]" k1 _ k2] f by (cases y; cases z) auto
  then show ?thesis
  proof cases
    case stop
    with r1 same show ?thesis by auto
  next
    case go
    have "chains k2 = (chains k1)(SystemChainName n \<mapsto> map (\<lambda>r. canon (accept_rule r)) [])"
      using exec_flush [OF f [unfolded go(2)]] by simp
    then have "holds k2 (put S n []) n []" by (intro holds_set [OF r1 assms(2)]) (simp_all add: wf_rules_def)
    from refill_spec [OF this wf r] obtain rs S' where S': "prefix rs rules" "holds k3 S' n rs" "\<exists>now. S' = (put S n [])(n := now)"
      "v = Inr () \<longrightarrow> S' n = Some rules" by blast
    then obtain now where now: "S' = S(n := now)" by (auto simp: put_def)
    with S'(2) have part: "now = None \<or> now = Some rs" by (auto simp: holds_def)
    show ?thesis
    proof (cases v)
      case (Inr t)
      then have "k' = k3" "x = Inr ()" using out go by auto
      moreover have "sync_spec S n rules True S'" using S'(4) Inr by (simp add: sync_spec_def now)
      ultimately show ?thesis using S'(2) by (auto simp: holds_def)
    next
      case (Inl e)
      then have k': "k' = snd (run [''-F'', SystemChainName n] k3)" "x \<noteq> Inr ()" using out go by auto
      from S'(2) have r3: "realizes canon (chains k3) S'" "inj_on SystemChainName (insert n (dom S'))" by (simp_all only: holds_def)
      obtain q k4 where q: "run [''-F'', SystemChainName n] k3 = (q, k4)" by fastforce
      have "chains k4 = chains k3 \<or> chains k4 = (chains k3)(SystemChainName n \<mapsto> map (\<lambda>r. canon (accept_rule r)) [])"
        using q fails flush_chain by (cases q) auto
      then have "realizes canon (chains k4) S' \<or> realizes canon (chains k4) (put S' n [])"
        using r3 realizes_chain [OF r3, of "[]"] by (auto simp: wf_rules_def)
      moreover have "sync_spec S n rules False S'" using part S'(1) by (auto simp: sync_spec_def now)
      moreover have "sync_spec S n rules False (put S' n [])" by (auto simp: sync_spec_def now put_def)
      ultimately show ?thesis using k' q by auto
    qed
  qed
qed

theorem DropSystem_spec:
  assumes "realizes canon (chains k) S" "inj_on SystemChainName (insert n (dom S))" "DropSystem run n k = (x, k')"
  shows "\<exists>S'. realizes canon (chains k') S' \<and> drop_spec S n (x = Inr ()) S'"
proof -
  obtain y k1 where d: "deleteAllCopies run XVMChain (link n) k = (y, k1)" by fastforce
  obtain z k2 where f: "exec run [''-F'', SystemChainName n] k1 = (z, k2)" by fastforce
  have out: "(x, k') = (case y of Inl e \<Rightarrow> (Inl e, k1) | Inr _ \<Rightarrow> (case z of Inl e \<Rightarrow> (Inl e, k2)
      | Inr _ \<Rightarrow> exec run [''-X'', SystemChainName n] k2))"
    using assms(3) by (cases y; cases z) (auto simp: DropSystem_def Let_def d f)
  obtain S1 where S1: "realizes canon (chains k1) S1" "S1 = S \<or> S1 = S(n := None)"
    using unlink_holds(1) [OF assms(1,2) d] by blast
  then have inj1: "inj_on SystemChainName (insert n (dom S1))" by (intro inj_on_subset [OF assms(2)]) auto
  have s1: "drop_spec S n False S1" using S1(2) by (auto simp: drop_spec_def intro: exI [of _ "S n"])
  consider (stop) "chains k' = chains k1" "x \<noteq> Inr ()" | (go) u w where "y = Inr u" "z = Inr w"
    using out exec_fails [of "[''-F'', SystemChainName n]" k1 _ k2] f by (cases y; cases z) auto
  then show ?thesis
  proof cases
    case stop
    with S1(1) s1 show ?thesis by auto
  next
    case go
    have "chains k2 = (chains k1)(SystemChainName n \<mapsto> map (\<lambda>r. canon (accept_rule r)) [])"
      using exec_flush [OF f [unfolded go(2)]] by simp
    then have r2: "realizes canon (chains k2) (put S1 n [])"
      using realizes_chain [OF S1(1) inj1, of "[]"] by (simp add: wf_rules_def)
    have s2: "drop_spec S n False (put S1 n [])" using S1(2) by (auto simp: drop_spec_def put_def)
    have e: "exec run [''-X'', SystemChainName n] k2 = (x, k')" using out go by simp
    show ?thesis
    proof (cases x)
      case (Inl err)
      then have "chains k' = chains k2" using e exec_fails by simp
      with r2 s2 Inl show ?thesis by auto
    next
      case (Inr u)
      from e Inr obtain out where "run [''-X'', SystemChainName n] k2 = (Inr out, k')" using exec_ok by blast
      from delete_chain [OF this] have k': "chains k' = (chains k2)(SystemChainName n := None)"
        and no: "\<forall>r \<in> set rs. jump_target r \<noteq> Some (SystemChainName n)" if "chains k2 d = Some rs" for d rs
        using that by auto
      have "n \<notin> dom S1"
      proof
        assume "n \<in> dom S1"
        moreover obtain js rest where "chains k2 XVMChain = Some (js @ xvmTerminalRule # rest)" "set js = link ` dom S1"
          using r2 by (auto simp: realizes_def)
        ultimately show False using no [of XVMChain] by force
      qed
      then have p: "put S1 n [] = S1" and S: "S1 = S(n := None)" using S1(2) by (auto simp: put_def fun_eq_iff domIff)
      obtain js where "chains k2 XVMChain = Some js" using r2 by (auto simp: realizes_def)
      note k' = k' [OF this]
      have "SystemChainName m \<noteq> SystemChainName n" if "S1 m \<noteq> None" for m
        using inj1 that \<open>n \<notin> dom S1\<close> by (auto simp: inj_on_def domIff)
      then have "realizes canon (chains k') S1" using r2 unfolding p k' realizes_def by auto
      moreover have "drop_spec S n True S1" by (simp add: drop_spec_def S)
      ultimately show ?thesis using Inr by auto
    qed
  qed
qed

end

section \<open>The posture\<close>

lemma equalRule_iff: "equalRule a b \<longleftrightarrow> a = b"
  by (auto simp: equalRule_def list_eq_iff_nth_eq)

context iptables
begin

lemma each_first: "each f (x # xs) k = (Inr u, k') \<Longrightarrow> \<exists>v k1. f x k = (Inr v, k1)"
  by (auto split: prod.splits sum.splits)

lemma each_inserts:
  assumes "each (\<lambda>r. exec run ([''-I'', c, ''1''] @ r)) rs k = (Inr u, k')" "chains k c = Some old"
  shows "chains k' = (chains k)(c \<mapsto> rev (map canon rs) @ old)"
  using assms
proof (induction rs arbitrary: k old)
  case (Cons r rs)
  obtain y k1 where e: "exec run ([''-I'', c, ''1''] @ r) k = (y, k1)" by fastforce
  then obtain v where y: "y = Inr v" "each (\<lambda>r. exec run ([''-I'', c, ''1''] @ r)) rs k1 = (Inr u, k')"
    using Cons.prems(1) by (cases y) auto
  have k1: "chains k1 = (chains k)(c \<mapsto> canon r # old)" using exec_insert [OF e [unfolded y(1)]] Cons.prems(2) by auto
  then have "chains k' = (chains k1)(c \<mapsto> rev (map canon rs) @ canon r # old)" by (intro Cons.IH [OF y(2)]) simp
  then show ?case by (simp only: k1 fun_upd_upd list.map rev.simps append_assoc append_Cons append_Nil)
qed (simp add: fun_upd_idem)

text \<open>Whatever stood in the chains before, and whichever checks failed on the way.\<close>

lemma InstallSkeleton_program:
  assumes "InstallSkeleton run k = (Inr u, k')"
  shows "\<exists>fs xs. chains k' ''FORWARD'' = Some (forwardProgram @ fs) \<and> chains k' XVMChain = Some (xs @ [xvmTerminalRule])"
proof -
  obtain y1 k1 where 1: "each (ensureChain run) [XVMChain, EgressParentChain] k = (y1, k1)" by fastforce
  obtain y2 k2 where 2: "reparentStaleEgressJumps run k1 = (y2, k2)" by fastforce
  obtain y3 k3 where 3: "each (deleteAllCopies run ''FORWARD'') forwardProgram k2 = (y3, k3)" by fastforce
  obtain y4 k4 where 4: "each (\<lambda>rule. exec run ([''-I'', ''FORWARD'', ''1''] @ rule)) (rev forwardProgram) k3 = (y4, k4)" by fastforce
  obtain y5 k5 where 5: "deleteAllCopies run XVMChain xvmTerminalRule k4 = (y5, k5)" by fastforce
  note run = assms [unfolded InstallSkeleton_def 1 prod.case]
  obtain u1 where u1: "y1 = Inr u1" using run by (cases y1) (simp_all only: sum.case, simp)
  note run = run [unfolded u1 sum.case 2 prod.case]
  obtain u2 where u2: "y2 = Inr u2" using run by (cases y2) (simp_all only: sum.case, simp)
  note run = run [unfolded u2 sum.case 3 prod.case]
  obtain u3 where u3: "y3 = Inr u3" using run by (cases y3) (simp_all only: sum.case, simp)
  note run = run [unfolded u3 sum.case 4 prod.case]
  obtain u4 where u4: "y4 = Inr u4" using run by (cases y4) (simp_all only: sum.case, simp)
  note run = run [unfolded u4 sum.case 5 prod.case]
  obtain u5 where u5: "y5 = Inr u5" using run by (cases y5) (simp_all only: sum.case, simp)
  have ok: "exec run ([''-A'', XVMChain] @ xvmTerminalRule) k5 = (Inr u, k')" using run by (simp only: u5 sum.case)
  have "rev forwardProgram = [''-d'', FleetSubnet, ''-j'', ''ACCEPT''] # rev (butlast forwardProgram)"
    by (simp add: forwardProgram_def)
  then obtain z k0 where "exec run ([''-I'', ''FORWARD'', ''1''] @ [''-d'', FleetSubnet, ''-j'', ''ACCEPT'']) k3 = (Inr z, k0)"
    using each_first [of _ "[''-d'', FleetSubnet, ''-j'', ''ACCEPT'']"] 4 u4 by metis
  from exec_insert [OF this] obtain old where "chains k3 ''FORWARD'' = Some old" by blast
  from each_inserts [OF 4 [unfolded u4] this]
  have k4: "chains k4 ''FORWARD'' = Some (map canon forwardProgram @ old)" by (simp add: rev_map)
  moreover have "map canon forwardProgram = forwardProgram" by (simp add: canon_program map_idI)
  moreover have "chains k5 ''FORWARD'' = chains k4 ''FORWARD''" using deleteAllCopies_effect [OF 5] by auto
  ultimately show ?thesis using exec_append [OF ok] by auto
qed

text \<open>What a proven posture says of the chains.\<close>

lemma AssertPosture_iff:
  assumes "AssertPosture run k = (x, k')"
  shows "chains k' = chains k"
    and "x = Inr () \<Longrightarrow> (\<exists>fs xs. chains k ''FORWARD'' = Some (forwardProgram @ fs) \<and>
       chains k XVMChain = Some (xs @ [xvmTerminalRule])) \<and> chains k EgressParentChain \<noteq> None"
proof -
  obtain a k1 where 1: "listChain run ''FORWARD'' k = (a, k1)" by fastforce
  obtain b k2 where 2: "listChain run XVMChain k1 = (b, k2)" by fastforce
  obtain c k3 where 3: "listChain run EgressParentChain k2 = (c, k3)" by fastforce
  note same = listChain_keeps [OF 1] listChain_keeps [OF 2] listChain_keeps [OF 3]
  show "chains k' = chains k"
    using assms same unfolding AssertPosture_def 1 by (auto simp: 2 3 split: sum.splits if_splits prod.splits)
  assume ok: "x = Inr ()"
  then obtain fr xv eg where l: "a = Inr fr" "b = Inr xv" "c = Inr eg"
    using assms unfolding AssertPosture_def 1 by (cases a; cases b; cases c) (auto simp: 2 3 split: if_splits)
  have c: "length forwardProgram \<le> length fr" "\<forall>i < length forwardProgram. fr ! i = forwardProgram ! i"
      "xv \<noteq> []" "last xv = xvmTerminalRule"
    using assms ok unfolding AssertPosture_def 1 l by (auto simp: 2 3 l equalRule_iff split: if_splits)
  have "take (length forwardProgram) fr = forwardProgram" using c(1,2) by (intro nth_equalityI) auto
  then have "fr = forwardProgram @ drop (length forwardProgram) fr" by (metis append_take_drop_id)
  moreover have "xv = butlast xv @ [xvmTerminalRule]" using c(3,4) by (metis append_butlast_last_id)
  moreover have "chains k ''FORWARD'' = Some fr" "chains k XVMChain = Some xv" "chains k EgressParentChain = Some eg"
    using listChain_ok 1 2 3 l same by metis+
  ultimately show "(\<exists>fs xs. chains k ''FORWARD'' = Some (forwardProgram @ fs) \<and>
       chains k XVMChain = Some (xs @ [xvmTerminalRule])) \<and> chains k EgressParentChain \<noteq> None" by auto
qed

end

section \<open>The fate of a packet between two microVMs\<close>

locale netfilter = iptables run chains canon for run :: "'k runner" and chains canon +
  fixes hits :: "argv \<Rightarrow> packet \<Rightarrow> bool"
  assumes hits_subnets: "hits [''-s'', FleetSubnet, ''-d'', FleetSubnet, ''-j'', t] p \<longleftrightarrow> inter_vm p"
    and hits_always: "hits [''-j'', t] p"
    and hits_accept: "validateResolved r = None \<Longrightarrow> hits (canon (accept_rule r)) p \<longleftrightarrow> admits r p"
begin

lemma hits_link: "hits (link n) p \<longleftrightarrow> inter_vm p" and hits_terminal: "hits xvmTerminalRule p \<longleftrightarrow> inter_vm p"
  by (simp_all add: systemJumpRule_def xvmTerminalRule_def hits_subnets)

lemma system_fate:
  assumes "wf_rules rs"
  shows "fate hits C p (map (\<lambda>r. canon (accept_rule r)) rs) v \<longleftrightarrow> v = (if \<exists>r \<in> set rs. admits r p then Some Accept else None)"
  using assms
proof (induction rs arbitrary: v)
  case (Cons r rs)
  then have r: "hits (canon (accept_rule r)) p \<longleftrightarrow> admits r p" and rs: "wf_rules rs" by (auto simp: wf_rules_def hits_accept)
  have t: "jump_target (canon (accept_rule r)) = Some ''ACCEPT''" by (simp add: canon_target)
  show ?case
    using Cons.IH [OF rs] r t by (cases "admits r p") (simp_all add: fate_accept fate_pass)
qed simp

text \<open>Two networks with one chain name hold the same rules.\<close>

lemma same_link:
  assumes chain: "\<And>n rs. S n = Some rs \<Longrightarrow> C (SystemChainName n) = Some (map (\<lambda>r. canon (accept_rule r)) rs) \<and> wf_rules rs"
    and n: "S n = Some rs" and m: "S m = Some rs'" "link m = link n" "\<exists>r \<in> set rs'. admits r p"
  shows "\<exists>r \<in> set rs. admits r p"
proof -
  from m(2) have "SystemChainName m = SystemChainName n" by (metis jump_targets(1) option.inject)
  with chain [OF m(1)] chain [OF n] have e: "map (\<lambda>r. canon (accept_rule r)) rs' = map (\<lambda>r. canon (accept_rule r)) rs"
    and w: "wf_rules rs'" "wf_rules rs" by simp_all
  have "fate hits C p (map (\<lambda>r. canon (accept_rule r)) rs') (Some Accept)" using m(3) by (simp add: system_fate [OF w(1)])
  then show ?thesis unfolding e system_fate [OF w(2)] by (simp split: if_splits)
qed

text \<open>The links in front of the terminal deny.\<close>

lemma xvm_fate:
  assumes "inter_vm p" "set js \<subseteq> link ` dom S"
    and "\<And>n rs. S n = Some rs \<Longrightarrow> C (SystemChainName n) = Some (map (\<lambda>r. canon (accept_rule r)) rs) \<and> wf_rules rs"
  shows "fate hits C p (js @ xvmTerminalRule # rest) v \<longleftrightarrow>
    v = Some (if \<exists>n rs. link n \<in> set js \<and> S n = Some rs \<and> (\<exists>r \<in> set rs. admits r p) then Accept else Drop)"
  using assms(2)
proof (induction js arbitrary: v)
  case Nil
  have "fate hits C p (xvmTerminalRule # rest) v \<longleftrightarrow> v = Some Drop"
    using assms(1) by (simp add: fate_drop hits_terminal)
  then show ?case by simp
next
  case (Cons j js)
  then obtain n rs where n: "j = link n" "S n = Some rs" by auto
  note c = assms(3) [OF n(2)]
  let ?A = "\<exists>r \<in> set rs. admits r p"
  let ?B = "\<exists>n rs. link n \<in> set js \<and> S n = Some rs \<and> (\<exists>r \<in> set rs. admits r p)"
  have h: "hits j p" "jump_target j = Some (SystemChainName n)" using assms(1) by (simp_all add: n hits_link)
  have sys: "fate hits C p (map (\<lambda>r. canon (accept_rule r)) rs) w \<longleftrightarrow> w = (if ?A then Some Accept else None)" for w
    using c by (intro system_fate) simp
  have ih: "fate hits C p (js @ xvmTerminalRule # rest) w \<longleftrightarrow> w = Some (if ?B then Accept else Drop)" for w
    using Cons by simp
  have ex: "(\<exists>m rs. link m \<in> set (j # js) \<and> S m = Some rs \<and> (\<exists>r \<in> set rs. admits r p)) \<longleftrightarrow> ?A \<or> ?B"
    using n(2) same_link [of S C n rs, OF assms(3) n(2)] unfolding n(1) list.set insert_iff by blast
  have "fate hits C p (j # js @ xvmTerminalRule # rest) v \<longleftrightarrow>
      (if (if ?A then Some Accept else None) = None then fate hits C p (js @ xvmTerminalRule # rest) v
       else v = (if ?A then Some Accept else None))"
    using c by (intro fate_jump [OF h _ _ _ sys]) simp_all
  then have "fate hits C p (j # js @ xvmTerminalRule # rest) v \<longleftrightarrow> v = Some (if ?A \<or> ?B then Accept else Drop)"
    unfolding ih by (cases ?A) simp_all
  then show ?case unfolding ex append_Cons .
qed

lemma forward_fate:
  assumes "inter_vm p" "C ''FORWARD'' = Some (forwardProgram @ fs)" "C XVMChain = Some xs"
    and "\<And>v. fate hits C p xs v \<longleftrightarrow> v = Some d"
  shows "fate hits C p (forwardProgram @ fs) v \<longleftrightarrow> v = Some d"
proof -
  have x: "hits [''-j'', XVMChain] p" "XVMChain \<notin> {''ACCEPT'', ''DROP''}" by (simp_all add: hits_always XVMChain_def)
  have p: "forwardProgram @ fs = [''-j'', XVMChain] # tl forwardProgram @ fs" by (simp add: forwardProgram_def)
  show ?thesis unfolding p using fate_jump [OF x(1) _ _ _ assms(3,4)] x(2) by simp
qed

theorem realizes_fate:
  assumes "realizes canon C S" "inter_vm p"
  shows "\<exists>fs. C ''FORWARD'' = Some fs \<and> (\<forall>v. fate hits C p fs v \<longleftrightarrow> v = Some (if allows S p then Accept else Drop))"
proof -
  obtain fs js rest where c: "C ''FORWARD'' = Some (forwardProgram @ fs)" "C XVMChain = Some (js @ xvmTerminalRule # rest)"
    "set js = link ` dom S"
    and s: "\<And>n rs. S n = Some rs \<Longrightarrow> C (SystemChainName n) = Some (map (\<lambda>r. canon (accept_rule r)) rs) \<and> wf_rules rs"
    using assms(1) by (auto simp: realizes_def)
  have "(\<exists>n rs. link n \<in> set js \<and> S n = Some rs \<and> (\<exists>r \<in> set rs. admits r p)) \<longleftrightarrow> allows S p"
    unfolding allows_def c(3) by blast
  then have "fate hits C p (js @ xvmTerminalRule # rest) v \<longleftrightarrow> v = Some (if allows S p then Accept else Drop)" for v
    using xvm_fate [of p js S C rest v] assms(2) s c(3) by simp
  with forward_fate [OF assms(2) c(1,2)] c(1) show ?thesis by auto
qed

end

section \<open>A small kernel\<close>

text \<open>The laws can hold: a table of chains in which every command may fail (a \<open>True\<close> of the fault list), and
  the tokens of a rule read in pairs.\<close>

type_synonym kernel = "bool list \<times> (string \<times> argv list) list"

definition printed :: "string \<Rightarrow> argv list \<Rightarrow> string" where
  "printed c rs = concat (map (\<lambda>r. ''-A '' @ c @ concat (map (\<lambda>t. CHR '' '' # t) r) @ [CHR 0x0A]) rs)"

definition unreferenced :: "string \<Rightarrow> (string \<times> argv list) list \<Rightarrow> bool" where
  "unreferenced c t \<longleftrightarrow> (\<forall>(d, rs) \<in> set t. \<forall>r \<in> set rs. jump_target r \<noteq> Some c)"

definition on_chain :: "string \<Rightarrow> argv \<Rightarrow> (string \<times> argv list) list \<Rightarrow> ((string \<times> argv list) list \<times> string) option" where
  "on_chain op cr t =
     (case cr of [] \<Rightarrow> None | c # r \<Rightarrow>
      (case map_of t c of
         None \<Rightarrow> if op = ''-N'' \<and> r = [] then Some (AList.update c [] t, '''') else None
       | Some rs \<Rightarrow>
           if op = ''-A'' then Some (AList.update c (rs @ [r]) t, '''')
           else if op = ''-I'' \<and> r \<noteq> [] \<and> hd r = ''1'' then Some (AList.update c (tl r # rs) t, '''')
           else if op = ''-D'' \<and> r \<in> set rs then Some (AList.update c (remove1 r rs) t, '''')
           else if op = ''-C'' \<and> r \<in> set rs then Some (t, '''')
           else if op = ''-F'' then Some (AList.update c [] t, '''')
           else if op = ''-X'' \<and> unreferenced c t then Some (AList.delete c t, '''')
           else if op = ''-S'' \<and> parse_listing c (printed c rs) = rs then Some (t, printed c rs)
           else None))"

definition kernel_run :: "kernel runner" where
  "kernel_run args k =
     (let t = snd k; k' = (tl (fst k), t) in
      if fst k \<noteq> [] \<and> hd (fst k) then (Inl (), k')
      else case args of [] \<Rightarrow> (Inl (), k')
        | op # cr \<Rightarrow> (case on_chain op cr t of None \<Rightarrow> (Inl (), k') | Some (t', out) \<Rightarrow> (Inr out, (tl (fst k), t'))))"

definition kernel_chains :: "kernel \<Rightarrow> ruleset" where
  "kernel_chains k = map_of (snd k)"

definition in_cidr :: "string \<Rightarrow> ipv4 \<Rightarrow> bool" where
  "in_cidr s a = (case ParsePrefix4 s of None \<Rightarrow> False | Some net \<Rightarrow> Contains net a)"

fun argv_hits :: "argv \<Rightarrow> packet \<Rightarrow> bool" where
  "argv_hits [] p = True"
| "argv_hits [x] p = False"
| "argv_hits (opt # v # r) p =
     ((if opt = ''-s'' then in_cidr v (pk_src p) else if opt = ''-d'' then in_cidr v (pk_dst p)
       else if opt = ''-p'' then v = ''tcp'' \<and> pk_tcp p else if opt = ''--dport'' then v = show_int (pk_dport p)
       else opt = ''-j'') \<and> argv_hits r p)"

lemma kernel_run_Inl: "kernel_run args k = (Inl e, k') \<Longrightarrow> kernel_chains k' = kernel_chains k"
  by (auto simp: kernel_run_def kernel_chains_def Let_def split: if_splits list.splits option.splits prod.splits)

lemma kernel_run_Inr:
  assumes "kernel_run (opt # c # r) k = (Inr out, k')"
  shows "\<exists>t'. on_chain opt (c # r) (snd k) = Some (t', out) \<and> kernel_chains k' = map_of t'"
  using assms by (auto simp: kernel_run_def kernel_chains_def Let_def split: if_splits option.splits prod.splits)

lemma in_cidr_fleet: "in_cidr FleetSubnet a \<longleftrightarrow> InFleetSubnet (Addr_String a)"
  by (simp add: in_cidr_def InFleetSubnet_def FleetSubnet_def fleetSubnet_def ParseAddr4_Addr_String split: option.split)

lemma ParseAddr4_no_slash:
  assumes "ParseAddr4 s = Some a"
  shows "CHR ''/'' \<notin> set s"
proof -
  from assms have "\<forall>x \<in> set (split_on (CHR ''.'') s). canon_dec x \<noteq> None"
    by (auto simp: ParseAddr4_def split: list.splits option.splits)
  then have d: "\<forall>x \<in> set (split_on (CHR ''.'') s). list_all is_digit x" by (auto simp: canon_dec_def split: if_splits)
  have "set (join_with c xs) \<subseteq> insert c (\<Union>x \<in> set xs. set x)" for c xs
    by (induction c xs rule: join_with.induct) auto
  then have "set s \<subseteq> insert (CHR ''.'') (\<Union>x \<in> set (split_on (CHR ''.'') s). set x)"
    by (metis join_split)
  note sub = this
  show ?thesis
  proof
    assume "CHR ''/'' \<in> set s"
    then obtain x where "x \<in> set (split_on (CHR ''.'') s)" "CHR ''/'' \<in> set x" using sub by auto
    with d have "is_digit (CHR ''/'')" unfolding list_all_iff by blast
    then show False by simp
  qed
qed

lemma in_cidr_host:
  assumes "InFleetSubnet ip"
  shows "in_cidr (ip @ ''/32'') a \<longleftrightarrow> ParseAddr4 ip = Some a"
proof -
  from assms obtain b where b: "ParseAddr4 ip = Some b" by (auto simp: InFleetSubnet_def split: option.splits)
  have "''32'' = dec 32" by code_simp
  then have "split_on (CHR ''/'') (ip @ ''/32'') = [ip, dec 32]"
    using split_on_append [OF ParseAddr4_no_slash [OF b], of "dec 32"] by (simp add: split_on_no_sep not_digit_dec)
  then have "ParsePrefix4 (ip @ ''/32'') = Some \<lparr>pf_addr = b, pf_bits = 32\<rparr>" by (simp add: ParsePrefix4_def b)
  then show ?thesis by (auto simp: in_cidr_def b Contains_def)
qed

definition kernel_canon :: "argv \<Rightarrow> argv" where "kernel_canon r = r"

interpretation kernel: netfilter kernel_run kernel_chains kernel_canon argv_hits
proof
  show "kernel_run args k = (Inl e, k') \<Longrightarrow> kernel_chains k' = kernel_chains k" for args k e k' by (rule kernel_run_Inl)
  show "kernel_run [''-N'', c] k = (Inr out, k') \<Longrightarrow>
      kernel_chains k c = None \<and> kernel_chains k' = (kernel_chains k)(c \<mapsto> [])" for c k out k'
    using kernel_run_Inr [of "''-N''" c "[]" k out k']
    by (auto simp: kernel_canon_def on_chain_def kernel_chains_def update_conv' split: option.splits if_splits)
  show "kernel_run ([''-A'', c] @ r) k = (Inr out, k') \<Longrightarrow>
      \<exists>rs. kernel_chains k c = Some rs \<and> kernel_chains k' = (kernel_chains k)(c \<mapsto> rs @ [kernel_canon r])" for c r k out k'
    using kernel_run_Inr [of "''-A''" c r k out k']
    by (auto simp: kernel_canon_def on_chain_def kernel_chains_def update_conv' split: option.splits if_splits)
  show "kernel_run ([''-I'', c, ''1''] @ r) k = (Inr out, k') \<Longrightarrow>
      \<exists>rs. kernel_chains k c = Some rs \<and> kernel_chains k' = (kernel_chains k)(c \<mapsto> kernel_canon r # rs)" for c r k out k'
    using kernel_run_Inr [of "''-I''" c "''1'' # r" k out k']
    by (auto simp: kernel_canon_def on_chain_def kernel_chains_def update_conv' split: option.splits if_splits)
  show "kernel_run ([''-D'', c] @ r) k = (Inr out, k') \<Longrightarrow> \<exists>rs. kernel_chains k c = Some rs \<and> kernel_canon r \<in> set rs \<and>
      kernel_chains k' = (kernel_chains k)(c \<mapsto> remove1 (kernel_canon r) rs)" for c r k out k'
    using kernel_run_Inr [of "''-D''" c r k out k']
    by (auto simp: kernel_canon_def on_chain_def kernel_chains_def update_conv' split: option.splits if_splits)
  show "kernel_run ([''-C'', c] @ r) k = (Inr out, k') \<Longrightarrow> kernel_chains k' = kernel_chains k" for c r k out k'
    using kernel_run_Inr [of "''-C''" c r k out k']
    by (auto simp: kernel_canon_def on_chain_def kernel_chains_def split: option.splits if_splits)
  show "kernel_run [''-F'', c] k = (Inr out, k') \<Longrightarrow>
      kernel_chains k c \<noteq> None \<and> kernel_chains k' = (kernel_chains k)(c \<mapsto> [])" for c k out k'
    using kernel_run_Inr [of "''-F''" c "[]" k out k']
    by (auto simp: kernel_canon_def on_chain_def kernel_chains_def update_conv' split: option.splits if_splits)
  show "kernel_run [''-X'', c] k = (Inr out, k') \<Longrightarrow> kernel_chains k' = (kernel_chains k)(c := None) \<and>
      (\<forall>d rs. kernel_chains k d = Some rs \<longrightarrow> (\<forall>r \<in> set rs. jump_target r \<noteq> Some c))" for c k out k'
    using kernel_run_Inr [of "''-X''" c "[]" k out k']
    by (auto simp: kernel_canon_def on_chain_def kernel_chains_def delete_conv' unreferenced_def split: option.splits if_splits dest: map_of_SomeD)
  show "kernel_run [''-S'', c] k = (Inr out, k') \<Longrightarrow> kernel_chains k' = kernel_chains k \<and>
      kernel_chains k c = Some (parse_listing c out)" for c k out k'
    using kernel_run_Inr [of "''-S''" c "[]" k out k']
    by (auto simp: kernel_canon_def on_chain_def kernel_chains_def split: option.splits if_splits)
  show "argv_hits [''-s'', FleetSubnet, ''-d'', FleetSubnet, ''-j'', t] p \<longleftrightarrow> inter_vm p" for t p
    by (simp add: in_cidr_fleet inter_vm_def)
  show "argv_hits (kernel_canon (accept_rule r)) p \<longleftrightarrow> admits r p" if "validateResolved r = None" for r p
    using that by (auto simp: kernel_canon_def accept_rule_def admits_def validateResolved_def PolicyProtocolTCP_def in_cidr_host
        show_int_inj split: if_splits)
qed (simp_all add: kernel_canon_def)

section \<open>Runs of the adapter\<close>

datatype filter_op = Sync uuid "ResolvedRule list" | Unlink uuid

fun op_network :: "filter_op \<Rightarrow> uuid" where
  "op_network (Sync n _) = n"
| "op_network (Unlink n) = n"

fun perform :: "'k runner \<Rightarrow> filter_op \<Rightarrow> 'k \<Rightarrow> unit enf_result \<times> 'k" where
  "perform run (Sync n rules) k = SyncSystem run n rules k"
| "perform run (Unlink n) k = DropSystem run n k"

type_synonym filter_trace = "(filter_op \<times> bool) list"

text \<open>Syncs and drops in any order and with any failures; between them other chains of the host change freely.\<close>

inductive filter_run :: "'k runner \<Rightarrow> ('k \<Rightarrow> ruleset) \<Rightarrow> 'k \<Rightarrow> filter_trace \<Rightarrow> 'k \<Rightarrow> bool"
  for run :: "'k runner" and chains :: "'k \<Rightarrow> ruleset" and k :: 'k where
  Start: "filter_run run chains k [] k"
| Step: "filter_run run chains k tr k1 \<Longrightarrow> perform run opn k1 = (x, k2) \<Longrightarrow>
    filter_run run chains k (tr @ [(opn, x = Inr ())]) k2"
| Elsewhere: "filter_run run chains k tr k1 \<Longrightarrow>
    (\<And>c. c \<in> {''FORWARD'', XVMChain} \<union> range SystemChainName \<Longrightarrow> chains k2 c = chains k1 c) \<Longrightarrow> filter_run run chains k tr k2"

fun op_spec :: "policy \<Rightarrow> filter_op \<Rightarrow> bool \<Rightarrow> policy \<Rightarrow> bool" where
  "op_spec S (Sync n rules) ok S' = sync_spec S n rules ok S'"
| "op_spec S (Unlink n) ok S' = drop_spec S n ok S'"

inductive policy_run :: "policy \<Rightarrow> filter_trace \<Rightarrow> policy \<Rightarrow> bool" for S :: policy where
  Begin: "policy_run S [] S"
| Advance: "policy_run S tr S1 \<Longrightarrow> op_spec S1 opn ok S2 \<Longrightarrow> policy_run S (tr @ [(opn, ok)]) S2"

lemma op_spec_dom: "op_spec S opn ok S' \<Longrightarrow> dom S' \<subseteq> insert (op_network opn) (dom S)"
  by (cases opn) (auto simp: sync_spec_def drop_spec_def split: if_splits)

lemma realizes_cong:
  assumes "realizes canon C S" "\<And>c. c \<in> {''FORWARD'', XVMChain} \<union> range SystemChainName \<Longrightarrow> C' c = C c"
  shows "realizes canon C' S"
proof -
  have "C' ''FORWARD'' = C ''FORWARD''" "C' XVMChain = C XVMChain" "C' (SystemChainName n) = C (SystemChainName n)" for n
    by (rule assms(2), simp)+
  note same = this
  show ?thesis using assms(1) unfolding realizes_def same .
qed

context iptables
begin

lemma perform_spec:
  assumes "realizes canon (chains k) S" "inj_on SystemChainName (insert (op_network opn) (dom S))" "perform run opn k = (x, k')"
  shows "\<exists>S'. realizes canon (chains k') S' \<and> op_spec S opn (x = Inr ()) S'"
  using assms SyncSystem_spec DropSystem_spec by (cases opn) auto

lemma filter_run_simulates:
  assumes "filter_run run chains k tr k'" "realizes canon (chains k) S" "inj_on SystemChainName (dom S \<union> op_network ` fst ` set tr)"
  shows "\<exists>S'. policy_run S tr S' \<and> realizes canon (chains k') S' \<and> dom S' \<subseteq> dom S \<union> op_network ` fst ` set tr"
  using assms
proof (induction rule: filter_run.induct)
  case Start
  then show ?case by (blast intro: policy_run.Begin)
next
  case (Step tr k1 opn x k2)
  have "inj_on SystemChainName (dom S \<union> op_network ` fst ` set tr)"
    by (rule inj_on_subset [OF Step.prems(2)]) auto
  with Step obtain S1 where S1: "policy_run S tr S1" "realizes canon (chains k1) S1" "dom S1 \<subseteq> dom S \<union> op_network ` fst ` set tr"
    by blast
  have "inj_on SystemChainName (insert (op_network opn) (dom S1))"
    by (rule inj_on_subset [OF Step.prems(2)]) (use S1(3) in auto)
  from perform_spec [OF S1(2) this Step.hyps(2)] obtain S2
    where S2: "realizes canon (chains k2) S2" "op_spec S1 opn (x = Inr ()) S2" by blast
  have "policy_run S (tr @ [(opn, x = Inr ())]) S2" by (rule policy_run.Advance [OF S1(1) S2(2)])
  moreover have "dom S2 \<subseteq> dom S \<union> op_network ` fst ` set (tr @ [(opn, x = Inr ())])"
    using op_spec_dom [OF S2(2)] S1(3) by auto
  ultimately show ?case using S2(1) by blast
next
  case (Elsewhere tr k1 k2)
  then show ?case using realizes_cong by blast
qed

end

text \<open>Claim C3.  The packet filter implements the network policy.  Start in a kernel state that realizes a policy
  and run the adapter: syncs and drops of any networks in any order, any commands of them failing,
  foreign chains changing in between.  The run is a run of the abstract policy, in which a successful sync installs exactly
  the given rules, a successful drop removes the network, and a failed call leaves its network as it was,
  unlinked or with a part of the new rules, and in the final state every packet between two microVMs is
  accepted when that policy allows it and dropped otherwise.  The chain names of the networks involved
  must differ (they are 64 bits of a hash).\<close>

theorem enforcer_refines_policy:
  fixes run :: "'k runner" and chains :: "'k \<Rightarrow> ruleset"
  assumes "netfilter run chains canon hits" "realizes canon (chains k) S"
    and "filter_run run chains k tr k'" "inj_on SystemChainName (dom S \<union> op_network ` fst ` set tr)"
  shows "\<exists>S'. policy_run S tr S' \<and> (\<forall>p. inter_vm p \<longrightarrow> (\<exists>fs. chains k' ''FORWARD'' = Some fs \<and>
    (\<forall>v. fate hits (chains k') p fs v \<longleftrightarrow> v = Some (if allows S' p then Accept else Drop))))"
proof -
  from assms(1) have "iptables run chains canon" by (simp add: netfilter_def)
  then obtain S' where "policy_run S tr S'" "realizes canon (chains k') S'"
    using iptables.filter_run_simulates [OF _ assms(3,2,4)] by blast
  then show ?thesis using netfilter.realizes_fate [OF assms(1)] by blast
qed

definition bare_kernel :: kernel where
  "bare_kernel = ([], [(''FORWARD'', forwardProgram), (XVMChain, [xvmTerminalRule])])"

lemma bare_kernel_realizes: "realizes kernel_canon (kernel_chains bare_kernel) Map.empty"
proof -
  have "kernel_chains bare_kernel ''FORWARD'' = Some (forwardProgram @ [])" "kernel_chains bare_kernel XVMChain = Some ([] @ xvmTerminalRule # [])"
    by (simp_all add: kernel_chains_def bare_kernel_def)
  moreover have "set [] = link ` dom Map.empty" by simp
  ultimately show ?thesis unfolding realizes_def by blast
qed

theorem enforcer_refines_policy_witness:
  "\<exists>S'. policy_run Map.empty
      [(Sync 7 [], fst (SyncSystem kernel_run 7 [] bare_kernel) = Inr ())] S' \<and>
    (\<forall>p. inter_vm p \<longrightarrow> (\<exists>fs. kernel_chains (snd (SyncSystem kernel_run 7 [] bare_kernel)) ''FORWARD'' = Some fs \<and>
      (\<forall>v. fate argv_hits (kernel_chains (snd (SyncSystem kernel_run 7 [] bare_kernel))) p fs v \<longleftrightarrow>
        v = Some (if allows S' p then Accept else Drop))))"
proof -
  obtain x k' where s: "SyncSystem kernel_run 7 [] bare_kernel = (x, k')" by (rule prod.exhaust)
  have "filter_run kernel_run kernel_chains bare_kernel ([] @ [(Sync 7 [], x = Inr ())]) k'"
    by (rule filter_run.Step [OF filter_run.Start]) (simp add: s)
  from enforcer_refines_policy [OF kernel.netfilter_axioms bare_kernel_realizes this] show ?thesis by (simp add: s)
qed

section \<open>Replies\<close>

lemma admits_inter_vm:
  assumes "validateResolved r = None" "admits r p"
  shows "inter_vm p"
proof -
  have "InFleetSubnet (rr_SrcIP r)" "InFleetSubnet (rr_DstIP r)" using assms(1) by (simp_all add: validateResolved_def split: if_splits)
  moreover have "InFleetSubnet (Addr_String a) \<longleftrightarrow> InFleetSubnet ip" if "ParseAddr4 ip = Some a" for ip a
    by (simp add: InFleetSubnet_addr [OF that] InFleetSubnet_addr [OF ParseAddr4_Addr_String])
  ultimately show ?thesis using assms(2) unfolding admits_def inter_vm_def by metis
qed

definition reply :: "packet \<Rightarrow> packet" where
  "reply p = \<lparr>pk_src = pk_dst p, pk_dst = pk_src p, pk_tcp = pk_tcp p, pk_sport = pk_dport p, pk_dport = pk_sport p\<rparr>"

text \<open>Claim C31.  No reply comes back.  The program has no rule for established connections: with one policy in force that
  lets one microVM open a connection to another, the first packet is accepted and every answer to it is dropped, so the
  allowed connection is never made.\<close>

theorem replies_dropped:
  fixes run :: "'k runner" and chains :: "'k \<Rightarrow> ruleset"
  assumes "netfilter run chains canon hits" "realizes canon (chains k) [n \<mapsto> [r]]"
    and "admits r p" "pk_src p \<noteq> pk_dst p"
  shows "\<exists>fs. chains k ''FORWARD'' = Some fs \<and> (\<forall>v. fate hits (chains k) p fs v \<longleftrightarrow> v = Some Accept) \<and>
    (\<forall>v. fate hits (chains k) (reply p) fs v \<longleftrightarrow> v = Some Drop)"
proof -
  have "[n \<mapsto> [r]] n = Some [r]" by simp
  with assms(2) have "wf_rules [r]" unfolding realizes_def by blast
  then have v: "validateResolved r = None" by (simp add: wf_rules_def)
  have i: "inter_vm p" by (rule admits_inter_vm [OF v assms(3)])
  then have i': "inter_vm (reply p)" by (simp add: inter_vm_def reply_def)
  have "allows [n \<mapsto> [r]] p" using assms(3) by (simp add: allows_def)
  moreover have "\<not> allows [n \<mapsto> [r]] (reply p)"
    using assms(3,4) by (auto simp: allows_def admits_def reply_def split: if_splits)
  ultimately show ?thesis
    using netfilter.realizes_fate [OF assms(1,2) i] netfilter.realizes_fate [OF assms(1,2) i'] by auto
qed

definition sample_rule :: ResolvedRule where
  "sample_rule = \<lparr>rr_SrcIP = dotted 10 201 0 6, rr_DstIP = dotted 10 201 0 10, rr_Protocol = ''tcp'', rr_Port = 8080\<rparr>"

definition sample_packet :: packet where
  "sample_packet = \<lparr>pk_src = addr_of_octets 10 201 0 6, pk_dst = addr_of_octets 10 201 0 10, pk_tcp = True, pk_sport = 40000, pk_dport = 8080\<rparr>"

definition linked_kernel :: kernel where
  "linked_kernel = ([], [(''FORWARD'', forwardProgram), (XVMChain, [link 7, xvmTerminalRule]), (SystemChainName 7, [accept_rule sample_rule])])"

lemma sample_rule_valid: "validateResolved sample_rule = None"
  by (simp add: validateResolved_def sample_rule_def PolicyProtocolTCP_def InFleetSubnet_dotted)

lemma linked_kernel_realizes: "realizes kernel_canon (kernel_chains linked_kernel) [7 \<mapsto> [sample_rule]]"
proof -
  have "kernel_chains linked_kernel ''FORWARD'' = Some (forwardProgram @ [])"
    "kernel_chains linked_kernel XVMChain = Some ([link 7] @ xvmTerminalRule # [])"
    "kernel_chains linked_kernel (SystemChainName 7) = Some (map (\<lambda>r. kernel_canon (accept_rule r)) [sample_rule])"
    by (simp_all add: kernel_canon_def kernel_chains_def linked_kernel_def)
  moreover have "set [link 7] = link ` dom [7 \<mapsto> [sample_rule]]" "wf_rules [sample_rule]"
    using sample_rule_valid by (simp_all add: wf_rules_def)
  moreover have "[7 \<mapsto> [sample_rule]] n = Some rs \<Longrightarrow> n = 7 \<and> rs = [sample_rule]" for n :: uuid and rs
    by (simp split: if_splits)
  ultimately show ?thesis unfolding realizes_def by blast
qed

theorem replies_dropped_witness:
  "\<exists>fs. kernel_chains linked_kernel ''FORWARD'' = Some fs \<and>
    (\<forall>v. fate argv_hits (kernel_chains linked_kernel) (reply sample_packet) fs v \<longleftrightarrow> v = Some Drop)"
proof -
  have a: "admits sample_rule sample_packet"
    by (simp add: admits_def sample_rule_def sample_packet_def ParseAddr4_dotted)
  have "pk_src sample_packet \<noteq> pk_dst sample_packet"
    by (simp add: sample_packet_def addr_of_octets_def word_of_nat_eq_iff take_bit_nat_def)
  from replies_dropped [OF kernel.netfilter_axioms linked_kernel_realizes a this] show ?thesis by blast
qed

section \<open>Listings read back\<close>

definition plain :: "string \<Rightarrow> bool" where
  "plain t \<longleftrightarrow> t \<noteq> [] \<and> (\<forall>c \<in> set t. (32::nat) < of_char c \<and> of_char c < (128::nat))"

lemma space_len_plain: "(32::nat) < of_char c \<Longrightarrow> of_char c < (128::nat) \<Longrightarrow> space_len (c # s) = 0"
  by (auto simp: space_len_def Let_def take_Cons')

lemma field_len_plain:
  assumes "\<forall>c \<in> set t. (32::nat) < of_char c \<and> of_char c < (128::nat)" "s = [] \<or> space_len s \<noteq> 0"
  shows "field_len (t @ s) = length t"
  using assms
proof (induction t)
  case Nil
  then show ?case by (cases s) auto
qed (simp add: space_len_plain)

lemma trim_left_plain: "plain t \<Longrightarrow> trim_left (t @ s) = t @ s"
  by (subst trim_left.simps) (cases t, auto simp: plain_def space_len_plain)

lemma Fields_plain:
  assumes "plain t" "s = [] \<or> space_len s \<noteq> 0"
  shows "Fields (t @ s) = t # Fields s"
proof -
  have "field_len (t @ s) = length t" using assms by (intro field_len_plain) (simp_all add: plain_def)
  then show ?thesis using assms(1) by (subst Fields.simps) (auto simp: trim_left_plain Let_def plain_def)
qed

lemma space_len_blank: "space_len (CHR '' '' # s) = 1"
  by (simp add: space_len_def Let_def)

lemma Fields_blank: "plain t \<Longrightarrow> Fields (CHR '' '' # t @ s) = Fields (t @ s)"
proof -
  assume p: "plain t"
  have "trim_left (CHR '' '' # t @ s) = trim_left (t @ s)" by (subst trim_left.simps) (simp add: space_len_blank)
  then show ?thesis by (subst (1 2) Fields.simps) simp
qed

lemma Fields_tokens: "(\<And>t. t \<in> set r \<Longrightarrow> plain t) \<Longrightarrow> Fields (concat (map (\<lambda>t. CHR '' '' # t) r)) = r"
proof (induction r)
  case Nil
  then show ?case by (subst Fields.simps) (simp add: trim_left.simps)
next
  case (Cons t r)
  have "concat (map (\<lambda>t. CHR '' '' # t) r) = [] \<or> space_len (concat (map (\<lambda>t. CHR '' '' # t) r)) \<noteq> 0"
    by (cases r) (simp_all add: space_len_blank)
  with Cons show ?case by (simp add: Fields_blank Fields_plain)
qed

lemma split_on_lines:
  "(\<And>x. x \<in> set xs \<Longrightarrow> c \<notin> set x) \<Longrightarrow> split_on c (concat (map (\<lambda>x. x @ [c]) xs)) = xs @ [[]]"
  by (induction xs) (simp_all add: split_on_append)

lemma plain_no_newline: "plain t \<Longrightarrow> CHR 0x0A \<notin> set t"
  by (auto simp: plain_def)

lemma parse_printed:
  assumes "plain c" "\<And>r. r \<in> set rs \<Longrightarrow> r \<noteq> [] \<and> (\<forall>t \<in> set r. plain t)"
  shows "parse_listing c (printed c rs) = rs"
proof -
  let ?line = "\<lambda>r. ''-A '' @ c @ concat (map (\<lambda>t. CHR '' '' # t) r)"
  have A: "plain ''-A''" by (simp add: plain_def)
  have f: "Fields (?line r) = ''-A'' # c # r" if "r \<in> set rs" for r
  proof -
    let ?toks = "concat (map (\<lambda>t. CHR '' '' # t) r)"
    have t: "?toks = [] \<or> space_len ?toks \<noteq> 0" by (cases r) (simp_all add: space_len_blank)
    have "Fields (''-A'' @ CHR '' '' # c @ ?toks) = ''-A'' # Fields (CHR '' '' # c @ ?toks)"
      by (rule Fields_plain [OF A]) (simp add: space_len_blank)
    also have "Fields (CHR '' '' # c @ ?toks) = c # r"
      using assms that t by (simp add: Fields_blank Fields_plain Fields_tokens)
    finally show ?thesis by simp
  qed
  have nl: "CHR 0x0A \<notin> set (?line r)" if "r \<in> set rs" for r
    using assms that plain_no_newline by auto
  have "printed c rs = concat (map (\<lambda>x. x @ [CHR 0x0A]) (map ?line rs))"
    by (simp add: printed_def comp_def)
  then have split: "split_on (CHR 0x0A) (printed c rs) = map ?line rs @ [[]]"
    using nl by (simp only:) (rule split_on_lines, auto)
  have fields: "map Fields (map ?line rs @ [[]]) = map (\<lambda>r. ''-A'' # c # r) rs @ [[]]"
  proof -
    have "map (Fields \<circ> ?line) rs = map (\<lambda>r. ''-A'' # c # r) rs" by (rule map_cong) (simp_all only: f comp_def)
    moreover have "Fields [] = []" by (subst Fields.simps) (simp add: trim_left.simps)
    ultimately show ?thesis by (simp only: map_append map_map list.map)
  qed
  have "filter (\<lambda>fields. 3 \<le> length fields \<and> fields ! 0 = ''-A'' \<and> fields ! 1 = c) (map (\<lambda>r. ''-A'' # c # r) rs) =
      map (\<lambda>r. ''-A'' # c # r) rs"
    using assms(2) by (auto simp: filter_id_conv Suc_le_eq)
  then show ?thesis unfolding parse_listing_def split fields by (simp add: comp_def)
qed

lemma kernel_lists:
  assumes "map_of t c = Some rs" "plain c" "\<And>r. r \<in> set rs \<Longrightarrow> r \<noteq> [] \<and> (\<forall>t \<in> set r. plain t)"
  shows "listChain kernel_run c ([], t) = (Inr rs, ([], t))"
  using parse_printed [OF assms(2,3)] assms(1) by (simp add: listChain_def kernel_run_def on_chain_def Let_def)

lemma plain_names: "plain ''FORWARD''" "plain XVMChain" "plain EgressParentChain" "plain FleetSubnet"
  by (simp_all add: plain_def XVMChain_def EgressParentChain_def FleetSubnet_def FleetSubnetCIDR_def)

lemma plain_program: "r \<in> set (xvmTerminalRule # forwardProgram) \<Longrightarrow> r \<noteq> [] \<and> (\<forall>t \<in> set r. plain t)"
  using plain_names by (auto simp: forwardProgram_def xvmTerminalRule_def) (simp_all add: plain_def)

section \<open>A proven posture\<close>

lemma fate_ends:
  assumes "hits t p" "jump_target t = Some ''DROP''"
  shows "fate hits C p (xs @ [t]) v \<Longrightarrow> v \<noteq> None"
proof (induction xs arbitrary: v)
  case Nil
  then show ?case by (simp add: fate_drop [of hits t p, OF assms])
next
  case (Cons x xs)
  then show ?case by (auto simp: fate_Cons_iff [where rs = "xs @ [t]"])
qed



end
