(* ===== verification/Net_Fabric.thy ===== *)
theory Net_Fabric
  imports Net_Filter Fleet_Store
begin

text \<open>
  The network fabric (\<open>internal/usecase/fleet_network_fabric.go\<close>) over the tables of networks and policies
  (\<open>internal/repository/postgres/fleet_network_repository.go\<close>, \<open>fleet_network_policy_repository.go\<close>,
  migration 0009), the shared app and replica tables, and an enforcer with its kernel state \<open>'k\<close>.  The tables are
  the fleet's, the kernel is one host's.  The order in which the code walks its map of components is an argument.
\<close>

section \<open>Rows\<close>

datatype FleetNetworkStatus = FleetNetworkActive | FleetNetworkDeprovisioned | FleetNetworkStatusOther string

fun FleetNetworkStatus_IsValid :: "FleetNetworkStatus \<Rightarrow> bool" where
  "FleetNetworkStatus_IsValid FleetNetworkActive = True"
| "FleetNetworkStatus_IsValid FleetNetworkDeprovisioned = True"
| "FleetNetworkStatus_IsValid (FleetNetworkStatusOther _) = False"

record FleetNetwork =
  fn_ID :: uuid
  fn_SystemID :: string
  fn_Env :: string
  fn_OwnerOrg :: string
  fn_Status :: FleetNetworkStatus
  fn_CreatedAt :: instant
  fn_UpdatedAt :: instant

record FleetNetworkPolicy =
  np_ID :: uuid
  np_NetworkID :: uuid
  np_FromComponentID :: string
  np_ToComponentID :: string
  np_Protocol :: string
  np_Port :: int
  np_DerivedFromEdgeID :: string
  np_CreatedAt :: instant

definition FleetNetworkPolicy_Validate :: "FleetNetworkPolicy \<Rightarrow> network_error option" where
  "FleetNetworkPolicy_Validate p =
     (if np_FromComponentID p = '''' \<or> np_ToComponentID p = '''' then Some ErrInvalidNetworkPolicy
      else if np_Protocol p \<noteq> PolicyProtocolTCP then Some ErrUnsupportedPolicyProtocol
      else if np_Port p \<le> 0 \<or> 65535 < np_Port p then Some ErrInvalidNetworkPolicy
      else None)"

record ('f, 'h, 'k) fabric_world =
  fb_fleet :: "('f, 'h) fleet_world"
  fb_networks :: "FleetNetwork list"
  fb_policies :: "FleetNetworkPolicy list"
  fb_kernel :: 'k

section \<open>Statements\<close>

definition on_fleet ::
  "(('f, 'h) fleet_world \<Rightarrow> 'a \<times> ('f, 'h) fleet_world) \<Rightarrow> ('f, 'h, 'k) fabric_world \<Rightarrow> 'a \<times> ('f, 'h, 'k) fabric_world" where
  "on_fleet f w = (case f (fb_fleet w) of (x, fl) \<Rightarrow> (x, w\<lparr>fb_fleet := fl\<rparr>))"

definition nread ::
  "(('f, 'h, 'k) fabric_world \<Rightarrow> 'a op_result) \<Rightarrow> ('f, 'h, 'k) fabric_world \<Rightarrow> 'a op_result \<times> ('f, 'h, 'k) fabric_world" where
  "nread q w0 = (case on_fleet next_fault w0 of (f, w) \<Rightarrow> (if f = NoFault then q w else Inl (OpFleet ErrOther), w))"

definition nwrite ::
  "(('f, 'h, 'k) fabric_world \<Rightarrow> op_error + ('f, 'h, 'k) fabric_world) \<Rightarrow> ('f, 'h, 'k) fabric_world \<Rightarrow>
   unit op_result \<times> ('f, 'h, 'k) fabric_world" where
  "nwrite stmt w0 =
     (case on_fleet next_fault w0 of (f, w) \<Rightarrow>
        if f = LostCall then (Inl (OpFleet ErrOther), w)
        else (case stmt w of
            Inl e \<Rightarrow> (Inl e, w)
          | Inr w' \<Rightarrow> (if f = NoFault then Inr () else Inl (OpFleet ErrOther), w')))"

definition insert_network :: "FleetNetwork \<Rightarrow> ('f, 'h, 'k) fabric_world \<Rightarrow> op_error + ('f, 'h, 'k) fabric_world" where
  "insert_network n w =
     (if \<exists>x \<in> set (fb_networks w). fn_ID x = fn_ID n \<or> fn_SystemID x = fn_SystemID n \<and> fn_Env x = fn_Env n
      then Inl (OpFleet ErrOther) else Inr (w\<lparr>fb_networks := fb_networks w @ [n]\<rparr>))"

definition fleetNetworkRepository_Create ::
  "FleetNetwork \<Rightarrow> ('f, 'h, 'k) fabric_world \<Rightarrow> unit op_result \<times> ('f, 'h, 'k) fabric_world" where
  "fleetNetworkRepository_Create n = nwrite (insert_network n)"

definition fleetNetworkRepository_FindByID ::
  "uuid \<Rightarrow> ('f, 'h, 'k) fabric_world \<Rightarrow> FleetNetwork op_result \<times> ('f, 'h, 'k) fabric_world" where
  "fleetNetworkRepository_FindByID i =
     nread (\<lambda>w. case find (\<lambda>n. fn_ID n = i) (fb_networks w) of
        None \<Rightarrow> Inl (OpNetwork ErrFleetNetworkNotFound) | Some n \<Rightarrow> Inr n)"

definition fleetNetworkRepository_FindBySystemEnv ::
  "string \<Rightarrow> string \<Rightarrow> ('f, 'h, 'k) fabric_world \<Rightarrow> FleetNetwork op_result \<times> ('f, 'h, 'k) fabric_world" where
  "fleetNetworkRepository_FindBySystemEnv systemID env w =
     (if systemID = '''' then (Inl (OpNetwork ErrFleetNetworkNotFound), w)
      else nread (\<lambda>w. case find (\<lambda>n. fn_SystemID n = systemID \<and> fn_Env n = env) (fb_networks w) of
        None \<Rightarrow> Inl (OpNetwork ErrFleetNetworkNotFound) | Some n \<Rightarrow> Inr n) w)"

definition fleetNetworkRepository_ListActive ::
  "('f, 'h, 'k) fabric_world \<Rightarrow> FleetNetwork list op_result \<times> ('f, 'h, 'k) fabric_world" where
  "fleetNetworkRepository_ListActive = nread (\<lambda>w. Inr (filter (\<lambda>n. fn_Status n = FleetNetworkActive) (fb_networks w)))"

definition mark_network ::
  "FleetNetworkStatus \<Rightarrow> instant \<Rightarrow> uuid \<Rightarrow> ('f, 'h, 'k) fabric_world \<Rightarrow> op_error + ('f, 'h, 'k) fabric_world" where
  "mark_network st now i w =
     (if \<forall>n \<in> set (fb_networks w). fn_ID n \<noteq> i then Inl (OpNetwork ErrFleetNetworkNotFound)
      else Inr (w\<lparr>fb_networks := map (\<lambda>n. if fn_ID n = i then n\<lparr>fn_Status := st, fn_UpdatedAt := now\<rparr> else n) (fb_networks w)\<rparr>))"

definition fleetNetworkRepository_MarkDeprovisioned ::
  "instant \<Rightarrow> uuid \<Rightarrow> ('f, 'h, 'k) fabric_world \<Rightarrow> unit op_result \<times> ('f, 'h, 'k) fabric_world" where
  "fleetNetworkRepository_MarkDeprovisioned now i = nwrite (mark_network FleetNetworkDeprovisioned now i)"

definition fleetNetworkRepository_MarkActive ::
  "instant \<Rightarrow> uuid \<Rightarrow> ('f, 'h, 'k) fabric_world \<Rightarrow> unit op_result \<times> ('f, 'h, 'k) fabric_world" where
  "fleetNetworkRepository_MarkActive now i = nwrite (mark_network FleetNetworkActive now i)"

text \<open>One transaction: the old set goes and the new set comes, or neither (primary key, foreign key, port check).\<close>

definition replace_policies ::
  "uuid \<Rightarrow> FleetNetworkPolicy list \<Rightarrow> ('f, 'h, 'k) fabric_world \<Rightarrow> op_error + ('f, 'h, 'k) fabric_world" where
  "replace_policies i ps w =
     (let kept = filter (\<lambda>p. np_NetworkID p \<noteq> i) (fb_policies w) in
      if distinct (map np_ID ps) \<and> (\<forall>p \<in> set ps. np_ID p \<notin> np_ID ` set kept \<and> 0 < np_Port p \<and> np_Port p \<le> 65535 \<and>
           (\<exists>n \<in> set (fb_networks w). fn_ID n = np_NetworkID p))
      then Inr (w\<lparr>fb_policies := kept @ ps\<rparr>) else Inl (OpFleet ErrOther))"

definition fleetNetworkPolicyRepository_ReplaceForNetwork ::
  "uuid \<Rightarrow> FleetNetworkPolicy list \<Rightarrow> ('f, 'h, 'k) fabric_world \<Rightarrow> unit op_result \<times> ('f, 'h, 'k) fabric_world" where
  "fleetNetworkPolicyRepository_ReplaceForNetwork i ps = nwrite (replace_policies i ps)"

definition fleetNetworkPolicyRepository_ListForNetwork ::
  "uuid \<Rightarrow> ('f, 'h, 'k) fabric_world \<Rightarrow> FleetNetworkPolicy list op_result \<times> ('f, 'h, 'k) fabric_world" where
  "fleetNetworkPolicyRepository_ListForNetwork i =
     nread (\<lambda>w. Inr (sort_key np_CreatedAt (filter (\<lambda>p. np_NetworkID p = i) (fb_policies w))))"

definition system_apps :: "string \<Rightarrow> string \<Rightarrow> string \<Rightarrow> FleetApp list \<Rightarrow> FleetApp list" where
  "system_apps systemID env ownerOrg apps =
     filter (\<lambda>a. fa_SystemID a = systemID \<and> fa_Env a = env \<and> fa_OwnerOrg a = ownerOrg) apps"

definition fleetAppRepository_ListBySystemEnv ::
  "string \<Rightarrow> string \<Rightarrow> string \<Rightarrow> ('f, 'h) fleet_world \<Rightarrow> FleetApp list op_result \<times> ('f, 'h) fleet_world" where
  "fleetAppRepository_ListBySystemEnv systemID env ownerOrg w =
     (if systemID = '''' \<or> ownerOrg = '''' then (Inr [], w)
      else fread (\<lambda>w. Inr (system_apps systemID env ownerOrg (fw_apps w))) w)"

section \<open>The enforcer as the fabric sees it\<close>

record 'k NetworkEnforcer =
  ne_InstallSkeleton :: "'k \<Rightarrow> unit enf_result \<times> 'k"
  ne_AssertPosture :: "'k \<Rightarrow> unit enf_result \<times> 'k"
  ne_SyncSystem :: "uuid \<Rightarrow> ResolvedRule list \<Rightarrow> 'k \<Rightarrow> unit enf_result \<times> 'k"
  ne_DropSystem :: "uuid \<Rightarrow> 'k \<Rightarrow> unit enf_result \<times> 'k"

definition IPTablesEnforcer :: "'k runner \<Rightarrow> 'k NetworkEnforcer" where
  "IPTablesEnforcer run = \<lparr>ne_InstallSkeleton = InstallSkeleton run, ne_AssertPosture = AssertPosture run,
     ne_SyncSystem = SyncSystem run, ne_DropSystem = DropSystem run\<rparr>"

definition FailLoudNetworkEnforcer :: "'k NetworkEnforcer" where
  "FailLoudNetworkEnforcer =
     (let no = (\<lambda>k. (Inl (EnfNetwork ErrNetworkEnforcerUnavailable), k)) in
      \<lparr>ne_InstallSkeleton = no, ne_AssertPosture = no, ne_SyncSystem = (\<lambda>_ _. no), ne_DropSystem = (\<lambda>_. no)\<rparr>)"

fun enf_op_error :: "enforcer_error \<Rightarrow> op_error" where
  "enf_op_error (EnfNetwork e) = OpNetwork e"
| "enf_op_error EnfExec = OpFleet ErrOther"

definition on_kernel ::
  "('k \<Rightarrow> unit enf_result \<times> 'k) \<Rightarrow> ('f, 'h, 'k) fabric_world \<Rightarrow> unit op_result \<times> ('f, 'h, 'k) fabric_world" where
  "on_kernel f w = (case f (fb_kernel w) of (x, k) \<Rightarrow> (case x of Inl e \<Rightarrow> Inl (enf_op_error e) | Inr u \<Rightarrow> Inr u, w\<lparr>fb_kernel := k\<rparr>))"

section \<open>The fabric\<close>

record 'k FleetNetworkFabric =
  nf_enforcer :: "'k NetworkEnforcer"
  nf_order :: "string list \<Rightarrow> string list"
  nf_newID :: "nat \<Rightarrow> uuid"
  nf_now :: "nat \<Rightarrow> instant"

record EnsureNetworkInput =
  en_SystemID :: string
  en_Env :: string
  en_OwnerOrg :: string

record PolicySpecInput =
  ps_FromComponentID :: string
  ps_ToComponentID :: string
  ps_Protocol :: string
  ps_Port :: int
  ps_DerivedFromEdgeID :: string

definition EnforcementEnforced :: string where "EnforcementEnforced = ''enforced''"

definition EnforcementAdvisory :: string where "EnforcementAdvisory = ''advisory''"

record PolicyEnforcementReport =
  er_FromComponentID :: string
  er_ToComponentID :: string
  er_Port :: int
  er_Tier :: string
  er_Detail :: string

definition unresolvedComponent :: "FleetNetworkPolicy \<Rightarrow> nat \<Rightarrow> nat \<Rightarrow> string" where
  "unresolvedComponent p nSrc nDst = (if nSrc = 0 then np_FromComponentID p else np_ToComponentID p)"

definition aggregateTier :: "PolicyEnforcementReport list \<Rightarrow> string" where
  "aggregateTier reports =
     (case find (\<lambda>r. er_Tier r \<noteq> EnforcementEnforced) reports of None \<Rightarrow> EnforcementEnforced | Some r \<Rightarrow> er_Tier r)"

definition live_ips :: "Replica list \<Rightarrow> string list" where
  "live_ips reps = map re_GuestIP (filter (\<lambda>r. re_State r = ReplicaStateResident \<and> InFleetSubnet (re_GuestIP r)) reps)"

fun live_loop ::
  "FleetApp list \<Rightarrow> string list \<Rightarrow> ('f, 'h, 'k) fabric_world \<Rightarrow> (string \<times> string list) list op_result \<times> ('f, 'h, 'k) fabric_world" where
  "live_loop apps [] w = (Inr [], w)"
| "live_loop apps (c # cs) w =
     (case on_fleet (replicas_ListByApp (fa_ID (last (filter (\<lambda>a. fa_ComponentID a = c) apps)))) w of
        (Inl e, w1) \<Rightarrow> (Inl e, w1)
      | (Inr reps, w1) \<Rightarrow>
          (case live_loop apps cs w1 of
             (Inl e, w2) \<Rightarrow> (Inl e, w2)
           | (Inr m, w2) \<Rightarrow> (Inr ((c, live_ips reps) # m), w2)))"

definition ips_of :: "(string \<times> string list) list \<Rightarrow> string \<Rightarrow> string list" where
  "ips_of m c = (case map_of m c of None \<Rightarrow> [] | Some ips \<Rightarrow> ips)"

definition policy_rules :: "(string \<times> string list) list \<Rightarrow> FleetNetworkPolicy \<Rightarrow> ResolvedRule list" where
  "policy_rules m p =
     concat (map (\<lambda>src. map (\<lambda>dst. \<lparr>rr_SrcIP = src, rr_DstIP = dst, rr_Protocol = np_Protocol p, rr_Port = np_Port p\<rparr>)
       (ips_of m (np_ToComponentID p))) (ips_of m (np_FromComponentID p)))"

definition policy_report :: "(string \<times> string list) list \<Rightarrow> FleetNetworkPolicy \<Rightarrow> PolicyEnforcementReport" where
  "policy_report m p =
     (let nSrc = length (ips_of m (np_FromComponentID p)); nDst = length (ips_of m (np_ToComponentID p));
          report = \<lparr>er_FromComponentID = np_FromComponentID p, er_ToComponentID = np_ToComponentID p, er_Port = np_Port p,
                    er_Tier = EnforcementEnforced, er_Detail = ''''\<rparr> in
      if nSrc = 0 \<or> nDst = 0
      then report\<lparr>er_Tier := EnforcementAdvisory,
                  er_Detail := ''no live replica for '' @ unresolvedComponent p nSrc nDst @ ''; no rule installed''\<rparr>
      else report)"

definition resolve ::
  "'k FleetNetworkFabric \<Rightarrow> FleetNetwork \<Rightarrow> FleetNetworkPolicy list \<Rightarrow> ('f, 'h, 'k) fabric_world \<Rightarrow>
   (ResolvedRule list \<times> PolicyEnforcementReport list) op_result \<times> ('f, 'h, 'k) fabric_world" where
  "resolve uc n ps w =
     (case on_fleet (fleetAppRepository_ListBySystemEnv (fn_SystemID n) (fn_Env n) (fn_OwnerOrg n)) w of
        (Inl e, w1) \<Rightarrow> (Inl e, w1)
      | (Inr apps, w1) \<Rightarrow>
          (case live_loop apps (nf_order uc (remdups (map fa_ComponentID apps))) w1 of
             (Inl e, w2) \<Rightarrow> (Inl e, w2)
           | (Inr m, w2) \<Rightarrow> (Inr (concat (map (policy_rules m) ps), map (policy_report m) ps), w2)))"

definition syncNetwork ::
  "'k FleetNetworkFabric \<Rightarrow> FleetNetwork \<Rightarrow> ('f, 'h, 'k) fabric_world \<Rightarrow> unit op_result \<times> ('f, 'h, 'k) fabric_world" where
  "syncNetwork uc n w =
     (case fleetNetworkPolicyRepository_ListForNetwork (fn_ID n) w of
        (Inl e, w1) \<Rightarrow> (Inl e, w1)
      | (Inr ps, w1) \<Rightarrow>
          (case resolve uc n ps w1 of
             (Inl e, w2) \<Rightarrow> (Inl e, w2)
           | (Inr (rules, _), w2) \<Rightarrow> on_kernel (ne_SyncSystem (nf_enforcer uc) (fn_ID n) rules) w2))"

definition advance :: "nat \<Rightarrow> ('f, 'h, 'k) fabric_world \<Rightarrow> ('f, 'h, 'k) fabric_world" where
  "advance n w = w\<lparr>fb_fleet := (fb_fleet w)\<lparr>fw_tick := fw_tick (fb_fleet w) + n\<rparr>\<rparr>"

abbreviation now_tick :: "('f, 'h, 'k) fabric_world \<Rightarrow> nat" where
  "now_tick w \<equiv> fw_tick (fb_fleet w)"

definition revive_network ::
  "'k FleetNetworkFabric \<Rightarrow> FleetNetwork \<Rightarrow> ('f, 'h, 'k) fabric_world \<Rightarrow> uuid op_result \<times> ('f, 'h, 'k) fabric_world" where
  "revive_network uc existing w =
     (case fleetNetworkRepository_MarkActive (nf_now uc (now_tick w)) (fn_ID existing) (advance 1 w) of
        (Inl e, w1) \<Rightarrow> (Inl e, w1)
      | (Inr _, w1) \<Rightarrow>
          (case fleetNetworkPolicyRepository_ReplaceForNetwork (fn_ID existing) [] w1 of
             (Inl e, w2) \<Rightarrow> (Inl e, w2)
           | (Inr _, w2) \<Rightarrow>
               (case syncNetwork uc (existing\<lparr>fn_Status := FleetNetworkActive\<rparr>) w2 of
                  (Inl e, w3) \<Rightarrow> (Inl e, w3)
                | (Inr _, w3) \<Rightarrow> (Inr (fn_ID existing), w3))))"

definition create_network ::
  "'k FleetNetworkFabric \<Rightarrow> EnsureNetworkInput \<Rightarrow> ('f, 'h, 'k) fabric_world \<Rightarrow> uuid op_result \<times> ('f, 'h, 'k) fabric_world" where
  "create_network uc i w =
     (let now = nf_now uc (now_tick w);
          n = \<lparr>fn_ID = nf_newID uc (Suc (now_tick w)), fn_SystemID = en_SystemID i, fn_Env = en_Env i, fn_OwnerOrg = en_OwnerOrg i,
               fn_Status = FleetNetworkActive, fn_CreatedAt = now, fn_UpdatedAt = now\<rparr> in
      case fleetNetworkRepository_Create n (advance 2 w) of
        (Inl e, w1) \<Rightarrow> (Inl e, w1)
      | (Inr _, w1) \<Rightarrow>
          (case syncNetwork uc n w1 of (Inl e, w2) \<Rightarrow> (Inl e, w2) | (Inr _, w2) \<Rightarrow> (Inr (fn_ID n), w2)))"

definition EnsureNetwork ::
  "'k FleetNetworkFabric \<Rightarrow> EnsureNetworkInput \<Rightarrow> ('f, 'h, 'k) fabric_world \<Rightarrow> uuid op_result \<times> ('f, 'h, 'k) fabric_world" where
  "EnsureNetwork uc i w =
     (if en_SystemID i = '''' \<or> en_Env i = '''' then (Inl (OpNetwork ErrInvalidNetworkPolicy), w)
      else if en_OwnerOrg i = '''' then (Inl (OpNetwork ErrNetworkOwnerOrgRequired), w)
      else case on_kernel (ne_AssertPosture (nf_enforcer uc)) w of
        (Inl e, w1) \<Rightarrow> (Inl e, w1)
      | (Inr _, w1) \<Rightarrow>
          (case fleetNetworkRepository_FindBySystemEnv (en_SystemID i) (en_Env i) w1 of
             (Inr existing, w2) \<Rightarrow>
               if fn_OwnerOrg existing \<noteq> en_OwnerOrg i then (Inl (OpNetwork ErrNetworkOwnerOrgRequired), w2)
               else if fn_Status existing \<noteq> FleetNetworkActive then revive_network uc existing w2
               else (case syncNetwork uc existing w2 of (Inl e, w3) \<Rightarrow> (Inl e, w3) | (Inr _, w3) \<Rightarrow> (Inr (fn_ID existing), w3))
           | (Inl e, w2) \<Rightarrow>
               if e = OpNetwork ErrFleetNetworkNotFound then create_network uc i w2 else (Inl e, w2)))"

fun compile_policies ::
  "'k FleetNetworkFabric \<Rightarrow> uuid \<Rightarrow> instant \<Rightarrow> PolicySpecInput list \<Rightarrow> nat \<Rightarrow> FleetNetworkPolicy list op_result" where
  "compile_policies uc nid now [] k = Inr []"
| "compile_policies uc nid now (s # ss) k =
     (let p = \<lparr>np_ID = nf_newID uc k, np_NetworkID = nid, np_FromComponentID = ps_FromComponentID s,
               np_ToComponentID = ps_ToComponentID s, np_Protocol = ps_Protocol s, np_Port = ps_Port s,
               np_DerivedFromEdgeID = ps_DerivedFromEdgeID s, np_CreatedAt = now\<rparr> in
      case FleetNetworkPolicy_Validate p of
        Some e \<Rightarrow> Inl (OpNetwork e)
      | None \<Rightarrow> (case compile_policies uc nid now ss (Suc k) of Inl e \<Rightarrow> Inl e | Inr ps \<Rightarrow> Inr (p # ps)))"

definition apply_compiled ::
  "'k FleetNetworkFabric \<Rightarrow> FleetNetwork \<Rightarrow> FleetNetworkPolicy list \<Rightarrow> ('f, 'h, 'k) fabric_world \<Rightarrow>
   (string \<times> PolicyEnforcementReport list) op_result \<times> ('f, 'h, 'k) fabric_world" where
  "apply_compiled uc n compiled w =
     (case fleetNetworkPolicyRepository_ReplaceForNetwork (fn_ID n) compiled w of
        (Inl e, w1) \<Rightarrow> (Inl e, w1)
      | (Inr _, w1) \<Rightarrow>
          (case resolve uc n compiled w1 of
             (Inl e, w2) \<Rightarrow> (Inl e, w2)
           | (Inr (rules, reports), w2) \<Rightarrow>
               (case on_kernel (ne_SyncSystem (nf_enforcer uc) (fn_ID n) rules) w2 of
                  (Inl e, w3) \<Rightarrow> (Inl e, w3)
                | (Inr _, w3) \<Rightarrow> (Inr (aggregateTier reports, reports), w3))))"

definition ApplyPolicies ::
  "'k FleetNetworkFabric \<Rightarrow> uuid \<Rightarrow> PolicySpecInput list \<Rightarrow> ('f, 'h, 'k) fabric_world \<Rightarrow>
   (string \<times> PolicyEnforcementReport list) op_result \<times> ('f, 'h, 'k) fabric_world" where
  "ApplyPolicies uc handle specs w =
     (case on_kernel (ne_AssertPosture (nf_enforcer uc)) w of
        (Inl e, w1) \<Rightarrow> (Inl e, w1)
      | (Inr _, w1) \<Rightarrow>
          (case fleetNetworkRepository_FindByID handle w1 of
             (Inl e, w2) \<Rightarrow> (Inl e, w2)
           | (Inr n, w2) \<Rightarrow>
               if fn_Status n \<noteq> FleetNetworkActive then (Inl (OpNetwork ErrFleetNetworkNotFound), w2)
               else (case compile_policies uc (fn_ID n) (nf_now uc (now_tick w2)) specs (Suc (now_tick w2)) of
                  Inl e \<Rightarrow> (Inl e, advance (Suc (length specs)) w2)
                | Inr compiled \<Rightarrow> apply_compiled uc n compiled (advance (Suc (length specs)) w2))))"

definition Deprovision ::
  "'k FleetNetworkFabric \<Rightarrow> uuid \<Rightarrow> ('f, 'h, 'k) fabric_world \<Rightarrow> unit op_result \<times> ('f, 'h, 'k) fabric_world" where
  "Deprovision uc handle w =
     (case fleetNetworkRepository_FindByID handle w of
        (Inl e, w1) \<Rightarrow> (Inl e, w1)
      | (Inr n, w1) \<Rightarrow>
          (case on_kernel (ne_DropSystem (nf_enforcer uc) (fn_ID n)) w1 of
             (Inl e, w2) \<Rightarrow> (Inl e, w2)
           | (Inr _, w2) \<Rightarrow>
               (case fleetNetworkPolicyRepository_ReplaceForNetwork (fn_ID n) [] w2 of
                  (Inl e, w3) \<Rightarrow> (Inl e, w3)
                | (Inr _, w3) \<Rightarrow> fleetNetworkRepository_MarkDeprovisioned (nf_now uc (now_tick w3)) (fn_ID n) (advance 1 w3))))"

definition RequireNetwork ::
  "'k FleetNetworkFabric \<Rightarrow> string \<Rightarrow> string \<Rightarrow> ('f, 'h, 'k) fabric_world \<Rightarrow> unit op_result \<times> ('f, 'h, 'k) fabric_world" where
  "RequireNetwork uc systemID env w =
     (if systemID = '''' then (Inr (), w)
      else case on_kernel (ne_AssertPosture (nf_enforcer uc)) w of
        (Inl e, w1) \<Rightarrow> (Inl e, w1)
      | (Inr _, w1) \<Rightarrow>
          (case fleetNetworkRepository_FindBySystemEnv systemID env w1 of
             (Inl e, w2) \<Rightarrow> (Inl e, w2)
           | (Inr n, w2) \<Rightarrow>
               (if fn_Status n \<noteq> FleetNetworkActive then Inl (OpNetwork ErrFleetNetworkNotFound) else Inr (), w2)))"

definition SyncForApp ::
  "'k FleetNetworkFabric \<Rightarrow> string \<Rightarrow> string \<Rightarrow> ('f, 'h, 'k) fabric_world \<Rightarrow> unit op_result \<times> ('f, 'h, 'k) fabric_world" where
  "SyncForApp uc systemID env w =
     (if systemID = '''' then (Inr (), w)
      else case fleetNetworkRepository_FindBySystemEnv systemID env w of
        (Inl e, w1) \<Rightarrow> (if e = OpNetwork ErrFleetNetworkNotFound then Inr () else Inl e, w1)
      | (Inr n, w1) \<Rightarrow> if fn_Status n \<noteq> FleetNetworkActive then (Inr (), w1) else syncNetwork uc n w1)"

fun restore_networks ::
  "'k FleetNetworkFabric \<Rightarrow> FleetNetwork list \<Rightarrow> ('f, 'h, 'k) fabric_world \<Rightarrow> unit op_result \<times> ('f, 'h, 'k) fabric_world" where
  "restore_networks uc [] w = (Inr (), w)"
| "restore_networks uc (n # ns) w =
     (case syncNetwork uc n w of (Inl e, w1) \<Rightarrow> (Inl e, w1) | (Inr _, w1) \<Rightarrow> restore_networks uc ns w1)"

definition RestoreAll ::
  "'k FleetNetworkFabric \<Rightarrow> ('f, 'h, 'k) fabric_world \<Rightarrow> unit op_result \<times> ('f, 'h, 'k) fabric_world" where
  "RestoreAll uc w =
     (case fleetNetworkRepository_ListActive w of (Inl e, w1) \<Rightarrow> (Inl e, w1) | (Inr ns, w1) \<Rightarrow> restore_networks uc ns w1)"

definition egressEntryOverlapsFleet :: "string \<Rightarrow> bool" where
  "egressEntryOverlapsFleet e = (if InFleetSubnet e then True else CIDRWithinFleetSubnet e)"

definition ValidateEgressAllow :: "string list \<Rightarrow> op_error option" where
  "ValidateEgressAllow allow =
     (case find (\<lambda>e. TrimSpace e \<noteq> '''' \<and> egressEntryOverlapsFleet (TrimSpace e)) allow of
        None \<Rightarrow> None | Some _ \<Rightarrow> Some (OpNetwork ErrNetworkPolicyEgressOverlap))"

section \<open>What resolving finds\<close>

definition same_state :: "('f, 'h, 'k) fabric_world \<Rightarrow> ('f, 'h, 'k) fabric_world \<Rightarrow> bool" where
  "same_state w w' \<longleftrightarrow> fb_networks w' = fb_networks w \<and> fb_policies w' = fb_policies w \<and> fb_kernel w' = fb_kernel w \<and>
     fw_apps (fb_fleet w') = fw_apps (fb_fleet w) \<and> fw_replicas (fb_fleet w') = fw_replicas (fb_fleet w)"

lemma same_state_refl [simp]: "same_state w w"
  by (simp add: same_state_def)

lemma same_state_trans: "same_state w w1 \<Longrightarrow> same_state w1 w2 \<Longrightarrow> same_state w w2"
  by (simp add: same_state_def)

lemma advance_same [simp]: "same_state w (advance n w)"
  by (simp add: same_state_def advance_def)

lemma next_fault_same: "on_fleet next_fault w = (f, w') \<Longrightarrow> same_state w w'"
  by (auto simp: on_fleet_def next_fault_def same_state_def split: list.splits)

lemma nread_same: "nread q w = (x, w') \<Longrightarrow> same_state w w'" and nread_ok: "nread q w = (Inr v, w') \<Longrightarrow> q w' = Inr v"
  using next_fault_same by (auto simp: nread_def split: prod.splits if_splits)

lemma fread_on_fleet:
  assumes "on_fleet (fread q) w = (x, w')"
  shows "same_state w w'" "x = Inr v \<Longrightarrow> q (fb_fleet w') = Inr v"
  using assms by (auto simp: on_fleet_def fread_def next_fault_def same_state_def split: list.splits if_splits)

text \<open>The address of a component, as a policy means it: of a resident replica of the component's app in
  the network's system, environment and organisation.\<close>

definition live :: "('f, 'h, 'k) fabric_world \<Rightarrow> FleetNetwork \<Rightarrow> string \<Rightarrow> string \<Rightarrow> bool" where
  "live w n c ip \<longleftrightarrow> fn_SystemID n \<noteq> '''' \<and> fn_OwnerOrg n \<noteq> '''' \<and>
     (\<exists>a \<in> set (fw_apps (fb_fleet w)). fa_ComponentID a = c \<and> fa_SystemID a = fn_SystemID n \<and> fa_Env a = fn_Env n \<and>
        fa_OwnerOrg a = fn_OwnerOrg n \<and>
        (\<exists>r \<in> set (fw_replicas (fb_fleet w)). re_AppID r = fa_ID a \<and> re_State r = ReplicaStateResident \<and>
           InFleetSubnet (re_GuestIP r) \<and> re_GuestIP r = ip))"

definition unique_claims :: "('f, 'h) fleet_world \<Rightarrow> bool" where
  "unique_claims w \<longleftrightarrow> (\<forall>a \<in> set (fw_apps w). \<forall>b \<in> set (fw_apps w). same_claim a b \<longrightarrow> a = b)"

lemma live_cong: "same_state w w' \<Longrightarrow> live w' = live w"
  by (simp add: live_def same_state_def fun_eq_iff)

abbreviation app_of :: "FleetApp list \<Rightarrow> string \<Rightarrow> FleetApp" where
  "app_of apps c \<equiv> last (filter (\<lambda>a. fa_ComponentID a = c) apps)"

lemma live_loop_ok:
  assumes "live_loop apps cs w = (x, w')"
  shows "same_state w w' \<and> (\<forall>m. x = Inr m \<longrightarrow>
    m = map (\<lambda>c. (c, live_ips (app_replicas_of (fa_ID (app_of apps c)) (fw_replicas (fb_fleet w))))) cs)"
  using assms
proof (induction cs arbitrary: w x w')
  case Nil
  then show ?case by auto
next
  case (Cons c cs)
  obtain y w1 where 1: "on_fleet (replicas_ListByApp (fa_ID (app_of apps c))) w = (y, w1)" by fastforce
  obtain z w2 where 2: "live_loop apps cs w1 = (z, w2)" by fastforce
  note s1 = fread_on_fleet [OF 1 [unfolded replicas_ListByApp_def]] and s2 = Cons.IH [OF 2]
  have rows: "fw_replicas (fb_fleet w1) = fw_replicas (fb_fleet w)" using s1(1) by (simp add: same_state_def)
  show ?case
    using Cons.prems s1 s2 rows same_state_trans [OF s1(1)] by (cases y; cases z) (auto simp: 1 2)
qed

lemma resolve_same: "resolve uc n ps w = (x, w') \<Longrightarrow> same_state w w'"
proof -
  assume r: "resolve uc n ps w = (x, w')"
  obtain y w1 where 1: "on_fleet (fleetAppRepository_ListBySystemEnv (fn_SystemID n) (fn_Env n) (fn_OwnerOrg n)) w = (y, w1)" by fastforce
  then have s1: "same_state w w1"
    using fread_on_fleet(1) [of _ w y w1] unfolding fleetAppRepository_ListBySystemEnv_def
    by (auto simp: on_fleet_def fread_def next_fault_def same_state_def split: list.splits if_splits)
  show ?thesis
  proof (cases y)
    case (Inr as)
    obtain z w2 where 2: "live_loop as (nf_order uc (remdups (map fa_ComponentID as))) w1 = (z, w2)" by fastforce
    have "w' = w2" using r 1 2 Inr by (cases z) (auto simp: resolve_def)
    then show ?thesis using live_loop_ok [OF 2] s1 same_state_trans by blast
  qed (use r s1 1 in \<open>auto simp: resolve_def\<close>)
qed

lemma app_of_eq:
  assumes "unique_claims w" "a \<in> set (system_apps s e oo (fw_apps w))" "fa_ComponentID a = c"
  shows "app_of (system_apps s e oo (fw_apps w)) c = a"
proof -
  let ?f = "filter (\<lambda>a. fa_ComponentID a = c) (system_apps s e oo (fw_apps w))"
  have "a \<in> set ?f" using assms(2,3) by simp
  then have "last ?f \<in> set ?f" by (metis empty_iff empty_set last_in_set)
  then show ?thesis using assms unfolding unique_claims_def same_claim_def system_apps_def by auto
qed

lemma resolve_ok:
  assumes "resolve uc n ps w = (x, w')" "unique_claims (fb_fleet w)" "\<And>xs. set (nf_order uc xs) = set xs"
  shows "same_state w w' \<and> (\<forall>rules reports. x = Inr (rules, reports) \<longrightarrow>
    (\<exists>m. (\<forall>c ip. ip \<in> set (ips_of m c) \<longleftrightarrow> live w n c ip) \<and>
      rules = concat (map (policy_rules m) ps) \<and> reports = map (policy_report m) ps))"
proof -
  let ?sys = "system_apps (fn_SystemID n) (fn_Env n) (fn_OwnerOrg n)"
  obtain y w1 where 1: "on_fleet (fleetAppRepository_ListBySystemEnv (fn_SystemID n) (fn_Env n) (fn_OwnerOrg n)) w = (y, w1)" by fastforce
  have s1: "same_state w w1" and apps: "y = Inr as \<Longrightarrow> as = (if fn_SystemID n = '''' \<or> fn_OwnerOrg n = '''' then [] else ?sys (fw_apps (fb_fleet w)))" for as
    using 1 fread_on_fleet [of _ w y w1] unfolding fleetAppRepository_ListBySystemEnv_def 
    by (auto simp: on_fleet_def fread_def next_fault_def same_state_def split: list.splits if_splits)
  show ?thesis
  proof (cases y)
    case (Inl e)
    then show ?thesis using assms(1) s1 by (auto simp: resolve_def 1)
  next
    case (Inr as)
    obtain z w2 where 2: "live_loop as (nf_order uc (remdups (map fa_ComponentID as))) w1 = (z, w2)" by fastforce
    note s2 = live_loop_ok [OF 2]
    have s: "same_state w w2" using s1 s2 same_state_trans by blast
    show ?thesis
    proof (cases z)
      case (Inl e)
      then show ?thesis using assms(1) s by (auto simp: resolve_def 1 2 Inr)
    next
      case (Inr m)
      let ?rows = "fw_replicas (fb_fleet w)"
      have m: "m = map (\<lambda>c. (c, live_ips (app_replicas_of (fa_ID (app_of as c)) ?rows))) (nf_order uc (remdups (map fa_ComponentID as)))"
        using s1 s2 Inr by (simp add: same_state_def)
      have ips: "ips_of m c = (if c \<in> fa_ComponentID ` set as then live_ips (app_replicas_of (fa_ID (app_of as c)) ?rows) else [])" for c
        unfolding ips_of_def m by (simp add: map_of_map_restrict restrict_map_def assms(3))
      have "ip \<in> set (ips_of m c) \<longleftrightarrow> live w n c ip" for c ip
      proof (cases "fn_SystemID n = '''' \<or> fn_OwnerOrg n = ''''")
        case True
        then show ?thesis using ips apps \<open>y = Inr as\<close> by (auto simp: live_def)
      next
        case False
        then have as: "as = ?sys (fw_apps (fb_fleet w))" using apps \<open>y = Inr as\<close> by simp
        have "ip \<in> set (ips_of m c) \<longleftrightarrow> (\<exists>a \<in> set as. fa_ComponentID a = c \<and> ip \<in> set (live_ips (app_replicas_of (fa_ID a) ?rows)))"
          using app_of_eq [OF assms(2)] unfolding ips as by force
        also have "\<dots> \<longleftrightarrow> live w n c ip"
          using False unfolding as live_def by (auto simp: live_ips_def app_replicas_of_def system_apps_def)
        finally show ?thesis .
      qed
      moreover have "w' = w2" "x = Inr (concat (map (policy_rules m) ps), map (policy_report m) ps)"
        using assms(1) Inr \<open>y = Inr as\<close> by (auto simp: resolve_def 1 2)
      ultimately show ?thesis using s by blast
    qed
  qed
qed


section \<open>What applying policies installs\<close>

lemma nwrite_ok: "nwrite stmt w = (Inr u, w') \<Longrightarrow> \<exists>w1. same_state w w1 \<and> stmt w1 = Inr w'"
  using next_fault_same by (auto simp: nwrite_def split: prod.splits if_splits sum.splits)

lemma compile_policies_ok:
  assumes "compile_policies uc nid now specs k = Inr ps"
  shows "map (\<lambda>p. (np_FromComponentID p, np_ToComponentID p, np_Protocol p, np_Port p)) ps =
      map (\<lambda>s. (ps_FromComponentID s, ps_ToComponentID s, ps_Protocol s, ps_Port s)) specs \<and>
    (\<forall>p \<in> set ps. FleetNetworkPolicy_Validate p = None)"
  using assms
proof (induction specs arbitrary: k ps)
  case (Cons s ss)
  then show ?case by (auto simp: Let_def split: option.splits sum.splits)
qed auto

lemma on_kernel_ok:
  assumes "on_kernel f w = (x, w')"
  shows "fb_networks w' = fb_networks w" "fb_policies w' = fb_policies w" "fb_fleet w' = fb_fleet w"
    "\<exists>y. f (fb_kernel w) = (y, fb_kernel w') \<and> (x = Inr () \<longleftrightarrow> y = Inr ())"
  using assms by (auto simp: on_kernel_def split: prod.splits sum.splits)

lemma rule_ex: "(\<exists>r :: ResolvedRule. P (rr_SrcIP r) (rr_DstIP r) (rr_Protocol r) (rr_Port r)) \<longleftrightarrow> (\<exists>s d q t. P s d q t)"
proof
  assume "\<exists>s d q t. P s d q t"
  then obtain s d q t where "P s d q t" by blast
  then show "\<exists>r :: ResolvedRule. P (rr_SrcIP r) (rr_DstIP r) (rr_Protocol r) (rr_Port r)"
    by (intro exI [of _ "\<lparr>rr_SrcIP = s, rr_DstIP = d, rr_Protocol = q, rr_Port = t\<rparr>"]) simp
qed blast

lemma policy_rules_iff:
  assumes "\<forall>c ip. ip \<in> set (ips_of m c) \<longleftrightarrow> L c ip"
  shows "r \<in> set (policy_rules m p) \<longleftrightarrow> L (np_FromComponentID p) (rr_SrcIP r) \<and> L (np_ToComponentID p) (rr_DstIP r) \<and>
    rr_Protocol r = np_Protocol p \<and> rr_Port r = np_Port p"
  unfolding policy_rules_def using assms by (cases r) auto

lemma policy_report_tier:
  assumes "\<forall>c ip. ip \<in> set (ips_of m c) \<longleftrightarrow> L c ip"
  shows "er_Tier (policy_report m p) = EnforcementEnforced \<longleftrightarrow> (\<exists>ip. L (np_FromComponentID p) ip) \<and> (\<exists>ip. L (np_ToComponentID p) ip)"
proof -
  have "ips_of m c = [] \<longleftrightarrow> (\<nexists>ip. L c ip)" for c using assms by (metis empty_iff empty_set last_in_set)
  then show ?thesis by (auto simp: policy_report_def Let_def EnforcementEnforced_def EnforcementAdvisory_def)
qed

lemma aggregateTier_enforced: "aggregateTier rs = EnforcementEnforced \<longleftrightarrow> (\<forall>r \<in> set rs. er_Tier r = EnforcementEnforced)"
  by (induction rs) (auto simp: aggregateTier_def)

text \<open>The flows a list of policies asks for.\<close>

definition asks :: "('f, 'h, 'k) fabric_world \<Rightarrow> FleetNetwork \<Rightarrow> PolicySpecInput list \<Rightarrow> packet \<Rightarrow> bool" where
  "asks w n specs p \<longleftrightarrow> (\<exists>s \<in> set specs. \<exists>src dst. live w n (ps_FromComponentID s) src \<and> live w n (ps_ToComponentID s) dst \<and>
     ParseAddr4 src = Some (pk_src p) \<and> ParseAddr4 dst = Some (pk_dst p) \<and> pk_tcp p \<and> pk_dport p = ps_Port s)"

lemma map_eq_ex: "map f xs = map g ys \<Longrightarrow> (\<exists>x \<in> set xs. P (f x)) \<longleftrightarrow> (\<exists>y \<in> set ys. P (g y))"
  by (metis (no_types, lifting) imageE imageI list.set_map)

lemma ApplyPolicies_steps:
  fixes run :: "'k runner" and chains :: "'k \<Rightarrow> ruleset"
  assumes "ApplyPolicies uc handle specs w = (Inr (tier, reports), w')" "nf_enforcer uc = IPTablesEnforcer run"
    and "unique_claims (fb_fleet w)" "\<And>xs. set (nf_order uc xs) = set xs" "iptables run chains canon"
  obtains n rules k where "n \<in> set (fb_networks w)" "fn_ID n = handle" "fn_Status n = FleetNetworkActive"
    "chains k = chains (fb_kernel w)" "SyncSystem run handle rules k = (Inr (), fb_kernel w')"
    "\<And>p. (\<exists>r \<in> set rules. admits r p) \<longleftrightarrow> asks w n specs p"
    "tier = EnforcementEnforced \<longleftrightarrow> (\<forall>s \<in> set specs. (\<exists>ip. live w n (ps_FromComponentID s) ip) \<and> (\<exists>ip. live w n (ps_ToComponentID s) ip))"
proof -
  obtain a w1 where 1: "on_kernel (AssertPosture run) w = (a, w1)" by (rule prod.exhaust)
  obtain b w2 where 2: "fleetNetworkRepository_FindByID handle w1 = (b, w2)" by (rule prod.exhaust)
  note run = assms(1) [unfolded ApplyPolicies_def assms(2), simplified IPTablesEnforcer_def, simplified, unfolded 1]
  from run obtain n where a: "a = Inr ()" and b: "b = Inr n" and act: "fn_Status n = FleetNetworkActive"
    by (cases a; cases b) (auto simp: 2 split: if_splits)
  let ?w3 = "advance (Suc (length specs)) w2"
  obtain ps where c: "compile_policies uc (fn_ID n) (nf_now uc (now_tick w2)) specs (Suc (now_tick w2)) = Inr ps"
    and ap: "apply_compiled uc n ps ?w3 = (Inr (tier, reports), w')"
    using run unfolding a sum.case prod.case 2 b using act by (auto split: sum.splits)
  obtain d w4 where 4: "fleetNetworkPolicyRepository_ReplaceForNetwork (fn_ID n) ps ?w3 = (d, w4)" by (rule prod.exhaust)
  obtain e w5 where 5: "resolve uc n ps w4 = (e, w5)" by (rule prod.exhaust)
  from ap obtain rules reps where d: "d = Inr ()" and e: "e = Inr (rules, reps)"
    by (cases d; cases e) (auto simp: apply_compiled_def 4 5)
  obtain g w6 where 6: "on_kernel (ne_SyncSystem (nf_enforcer uc) (fn_ID n) rules) w5 = (g, w6)" by (rule prod.exhaust)
  from ap have g: "g = Inr ()" "w' = w6" "tier = aggregateTier reps"
    by (cases g; simp add: apply_compiled_def 4 5 d e 6)+
  note k1 = on_kernel_ok [OF 1] and k6 = on_kernel_ok [OF 6]
  have q: "find (\<lambda>n. fn_ID n = handle) (fb_networks w2) = Some n"
    using nread_ok [OF 2 [unfolded b fleetNetworkRepository_FindByID_def]] by (simp split: option.splits)
  have s2: "same_state w1 w2" by (rule nread_same [OF 2 [unfolded fleetNetworkRepository_FindByID_def]])
  have n: "n \<in> set (fb_networks w)" "fn_ID n = handle"
    using q s2 k1(1) by (auto simp: find_Some_iff same_state_def)
  obtain w3' where s3: "same_state ?w3 w3'" "replace_policies (fn_ID n) ps w3' = Inr w4"
    using nwrite_ok [OF 4 [unfolded d fleetNetworkPolicyRepository_ReplaceForNetwork_def]] by blast
  have w4: "fw_apps (fb_fleet w4) = fw_apps (fb_fleet w)" "fw_replicas (fb_fleet w4) = fw_replicas (fb_fleet w)" "fb_kernel w4 = fb_kernel w1"
    using s2 s3 k1(3) by (auto simp: same_state_def replace_policies_def Let_def advance_def split: if_splits)
  have "unique_claims (fb_fleet w4)" using assms(3) w4 by (simp add: unique_claims_def)
  from resolve_ok [OF 5 this assms(4), unfolded e] obtain m where
    s5: "same_state w4 w5" and m: "\<forall>c ip. ip \<in> set (ips_of m c) \<longleftrightarrow> live w4 n c ip"
      "rules = concat (map (policy_rules m) ps)" "reps = map (policy_report m) ps" by blast
  have lv: "live w4 n = live w n" using w4 by (simp add: live_def fun_eq_iff)
  note cp = compile_policies_ok [OF c]
  show thesis
  proof (rule that [OF n act])
    show "chains (fb_kernel w5) = chains (fb_kernel w)"
      using k1(4) s5 w4(3) iptables.AssertPosture_iff(1) [OF assms(5)] by (auto simp: same_state_def)
    show "SyncSystem run handle rules (fb_kernel w5) = (Inr (), fb_kernel w')"
      using k6(4) g n(2) by (auto simp: assms(2) IPTablesEnforcer_def)
    show "tier = EnforcementEnforced \<longleftrightarrow> (\<forall>s \<in> set specs. (\<exists>ip. live w n (ps_FromComponentID s) ip) \<and> (\<exists>ip. live w n (ps_ToComponentID s) ip))"
      using map_eq_ex [OF cp [THEN conjunct1], of "\<lambda>(a, b, _). \<not> ((\<exists>ip. live w n a ip) \<and> (\<exists>ip. live w n b ip))"]
      unfolding g(3) aggregateTier_enforced m(3) using policy_report_tier [OF m(1)] by (auto simp: lv)
    show "(\<exists>r \<in> set rules. admits r p) \<longleftrightarrow> asks w n specs p" for p
    proof -
      have all: "(\<exists>r \<in> set rules. admits r p) \<longleftrightarrow> (\<exists>q \<in> set ps. \<exists>r \<in> set (policy_rules m q). admits r p)"
        unfolding m(2) by auto
      have each: "(\<exists>r \<in> set (policy_rules m q). admits r p) \<longleftrightarrow> (\<exists>src dst. live w n (np_FromComponentID q) src \<and> live w n (np_ToComponentID q) dst \<and>
          ParseAddr4 src = Some (pk_src p) \<and> ParseAddr4 dst = Some (pk_dst p) \<and> pk_tcp p \<and> pk_dport p = np_Port q)" for q
        unfolding Bex_def policy_rules_iff [OF m(1)] admits_def lv
        using rule_ex [of "\<lambda>s d y t. live w n (np_FromComponentID q) s \<and> live w n (np_ToComponentID q) d \<and> y = np_Protocol q \<and>
          t = np_Port q \<and> ParseAddr4 s = Some (pk_src p) \<and> ParseAddr4 d = Some (pk_dst p) \<and> pk_tcp p \<and> pk_dport p = t"] by simp
      have spec: "(\<exists>q \<in> set ps. \<exists>src dst. live w n (np_FromComponentID q) src \<and> live w n (np_ToComponentID q) dst \<and>
          ParseAddr4 src = Some (pk_src p) \<and> ParseAddr4 dst = Some (pk_dst p) \<and> pk_tcp p \<and> pk_dport p = np_Port q) \<longleftrightarrow> asks w n specs p"
        using map_eq_ex [OF cp [THEN conjunct1], of "\<lambda>(a, b, _, port). \<exists>src dst. live w n a src \<and> live w n b dst \<and>
          ParseAddr4 src = Some (pk_src p) \<and> ParseAddr4 dst = Some (pk_dst p) \<and> pk_tcp p \<and> pk_dport p = port"]
        by (simp add: asks_def)
      show ?thesis unfolding all each by (rule spec)
    qed
  qed
qed

lemma allows_upd: "allows (S(n \<mapsto> rs)) p \<longleftrightarrow> (\<exists>r \<in> set rs. admits r p) \<or> allows (S(n := None)) p"
proof
  assume "allows (S(n \<mapsto> rs)) p"
  then obtain i xs where i: "(S(n \<mapsto> rs)) i = Some xs" "\<exists>r \<in> set xs. admits r p" unfolding allows_def by blast
  then show "(\<exists>r \<in> set rs. admits r p) \<or> allows (S(n := None)) p"
    unfolding allows_def by (cases "i = n") (simp, metis fun_upd_other)
next
  assume "(\<exists>r \<in> set rs. admits r p) \<or> allows (S(n := None)) p"
  then show "allows (S(n \<mapsto> rs)) p"
  proof
    assume "allows (S(n := None)) p"
    then obtain i xs where i: "(S(n := None)) i = Some xs" "\<exists>r \<in> set xs. admits r p" unfolding allows_def by blast
    then have "(S(n \<mapsto> rs)) i = Some xs" by (simp split: if_splits)
    with i show ?thesis unfolding allows_def by blast
  qed (auto simp: allows_def)
qed


section \<open>A sample fabric\<close>

definition demo_kernel :: kernel where
  "demo_kernel = ([], [(''FORWARD'', forwardProgram), (XVMChain, [xvmTerminalRule]), (EgressParentChain, [])])"

definition demo_network :: FleetNetwork where
  "demo_network = \<lparr>fn_ID = 7, fn_SystemID = ''s'', fn_Env = ''e'', fn_OwnerOrg = ''o'', fn_Status = FleetNetworkActive,
     fn_CreatedAt = 0, fn_UpdatedAt = 0\<rparr>"

definition member_app :: "uuid \<Rightarrow> string \<Rightarrow> FleetApp" where
  "member_app i c = Fleet_Scheduler.demo_app\<lparr>fa_ID := i, fa_ComponentID := c, fa_Env := ''e'', fa_OwnerOrg := ''o'', fa_SystemID := ''s''\<rparr>"

definition member_replica :: "uuid \<Rightarrow> uuid \<Rightarrow> string \<Rightarrow> Replica" where
  "member_replica i a ip = Fleet_Scheduler.demo_replica\<lparr>re_ID := i, re_AppID := a, re_GuestIP := ip\<rparr>"

definition demo_fabric_world :: "(unit, unit, kernel) fabric_world" where
  "demo_fabric_world = \<lparr>fb_fleet = \<lparr>fw_apps = [member_app 1 ''web'', member_app 2 ''db''],
       fw_replicas = [member_replica 5 1 (dotted 10 201 0 6), member_replica 6 2 (dotted 10 201 0 10)],
       fw_routes = [], fw_script = [], fw_hosts = \<lparr>h_rows = [], h_script = []\<rparr>,
       fw_vols = \<lparr>vw_rows = [], vw_script = [], vw_files = ()\<rparr>, fw_tokens = Map.empty, fw_pullTokens = Map.empty,
       fw_staging = [], fw_host = (), fw_tick = 0\<rparr>,
     fb_networks = [demo_network], fb_policies = [], fb_kernel = demo_kernel\<rparr>"

definition demo_fabric :: "kernel FleetNetworkFabric" where
  "demo_fabric = \<lparr>nf_enforcer = IPTablesEnforcer kernel_run, nf_order = (\<lambda>xs. xs), nf_newID = (\<lambda>n. of_nat n), nf_now = (\<lambda>_. 0)\<rparr>"

definition demo_spec :: PolicySpecInput where
  "demo_spec = \<lparr>ps_FromComponentID = ''web'', ps_ToComponentID = ''db'', ps_Protocol = ''tcp'', ps_Port = 8080, ps_DerivedFromEdgeID = ''''\<rparr>"

lemma demo_posture: "AssertPosture kernel_run demo_kernel = (Inr (), demo_kernel)"
proof -
  obtain t where k: "demo_kernel = ([], t)" and m: "map_of t ''FORWARD'' = Some forwardProgram"
      "map_of t XVMChain = Some [xvmTerminalRule]" "map_of t EgressParentChain = Some []"
    by (rule that [of "snd demo_kernel"]) (simp_all add: demo_kernel_def XVMChain_def EgressParentChain_def)
  have "listChain kernel_run ''FORWARD'' demo_kernel = (Inr forwardProgram, demo_kernel)"
    unfolding k by (rule kernel_lists [OF m(1) plain_names(1)], rule plain_program) simp
  moreover have "listChain kernel_run XVMChain demo_kernel = (Inr [xvmTerminalRule], demo_kernel)"
    unfolding k by (rule kernel_lists [OF m(2) plain_names(2)], rule plain_program) simp
  moreover have "listChain kernel_run EgressParentChain demo_kernel = (Inr [], demo_kernel)"
    unfolding k by (rule kernel_lists [OF m(3) plain_names(3)]) simp
  ultimately show ?thesis by (simp add: AssertPosture_def equalRule_iff)
qed

lemma demo_sync:
  "\<exists>k. SyncSystem kernel_run 7 [sample_rule] demo_kernel = (Inr (), k)"
  using sample_rule_valid chain_names
  by (simp add: SyncSystem_def List.map_filter_simps Let_def ensureChain_def kernel_run_def on_chain_def demo_kernel_def exec_def
    refill_def deleteAllCopies_def maxRuleDeleteLoops_def numeral_eq_Suc)

lemma demo_apply:
  "\<exists>tier reports w'. ApplyPolicies demo_fabric 7 [demo_spec] demo_fabric_world = (Inr (tier, reports), w')"
proof -
  obtain k where k: "SyncSystem kernel_run 7 [sample_rule] demo_kernel = (Inr (), k)" using demo_sync by blast
  show ?thesis
    by (simp add: ApplyPolicies_def demo_fabric_def IPTablesEnforcer_def on_kernel_def demo_fabric_world_def demo_posture
      fleetNetworkRepository_FindByID_def nread_def on_fleet_def next_fault_def demo_network_def demo_spec_def
      FleetNetworkPolicy_Validate_def PolicyProtocolTCP_def Let_def apply_compiled_def
      fleetNetworkPolicyRepository_ReplaceForNetwork_def nwrite_def replace_policies_def advance_def resolve_def
      fleetAppRepository_ListBySystemEnv_def fread_def system_apps_def replicas_ListByApp_def app_replicas_of_def
      member_app_def member_replica_def Fleet_Scheduler.demo_app_def Fleet_Scheduler.demo_replica_def live_ips_def InFleetSubnet_dotted policy_rules_def ips_of_def k [unfolded sample_rule_def])
qed


lemma demo_kernel_realizes: "realizes kernel_canon (kernel_chains demo_kernel) Map.empty"
proof -
  have "kernel_chains demo_kernel ''FORWARD'' = Some (forwardProgram @ [])" "kernel_chains demo_kernel XVMChain = Some ([] @ xvmTerminalRule # [])"
    by (simp_all add: kernel_chains_def demo_kernel_def)
  moreover have "set [] = link ` dom Map.empty" by simp
  ultimately show ?thesis unfolding realizes_def by blast
qed


section \<open>Teardown and the other hosts\<close>

lemma sample_admits: "admits sample_rule sample_packet"
  by (simp add: admits_def sample_rule_def sample_packet_def ParseAddr4_dotted)

lemma program_spares_systems: "r \<in> set forwardProgram \<Longrightarrow> jump_target r \<noteq> Some (SystemChainName n)"
  using SystemChainName_fresh [of n, symmetric]
  by (auto simp: forwardProgram_def jump_target_def FleetSubnet_def FleetSubnetCIDR_def)

text \<open>A sync changes no row, and in the kernel at most its own network.\<close>

definition same_rows :: "('f, 'h, 'k) fabric_world \<Rightarrow> ('f, 'h, 'k) fabric_world \<Rightarrow> bool" where
  "same_rows w w' \<longleftrightarrow> fb_networks w' = fb_networks w \<and> fb_policies w' = fb_policies w"

lemma syncNetwork_effect:
  fixes run :: "'k runner" and chains :: "'k \<Rightarrow> ruleset"
  assumes "syncNetwork uc n w = (x, w')" "nf_enforcer uc = IPTablesEnforcer run" "iptables run chains canon"
    and "realizes canon (chains (fb_kernel w)) S" "inj_on SystemChainName (insert (fn_ID n) (dom S))"
  shows "same_rows w w' \<and> (\<exists>now. realizes canon (chains (fb_kernel w')) (S(fn_ID n := now)))"
proof -
  have old: "realizes canon (chains (fb_kernel w)) (S(fn_ID n := S (fn_ID n)))" using assms(4) by simp
  obtain y w1 where 1: "fleetNetworkPolicyRepository_ListForNetwork (fn_ID n) w = (y, w1)" by fastforce
  have s1: "same_state w w1" by (rule nread_same [OF 1 [unfolded fleetNetworkPolicyRepository_ListForNetwork_def]])
  show ?thesis
  proof (cases y)
    case (Inl e)
    then have "w' = w1" using assms(1) by (simp add: syncNetwork_def 1)
    then show ?thesis using s1 old unfolding same_state_def same_rows_def by metis
  next
    case (Inr ps)
    obtain z w2 where 2: "resolve uc n ps w1 = (z, w2)" by fastforce
    have s2: "same_state w w2" using s1 resolve_same [OF 2] same_state_trans by blast
    show ?thesis
    proof (cases z)
      case (Inl e)
      then have "w' = w2" using assms(1) Inr by (simp add: syncNetwork_def 1 2)
      then show ?thesis using s2 old unfolding same_state_def same_rows_def by metis
    next
      case (Inr zz)
      obtain rules reps where zz: "zz = (rules, reps)" by fastforce
      have on: "on_kernel (SyncSystem run (fn_ID n) rules) w2 = (x, w')"
        using assms(1) \<open>y = Inr ps\<close> Inr by (simp add: syncNetwork_def 1 2 zz assms(2) IPTablesEnforcer_def)
      note k = on_kernel_ok [OF on]
      have "realizes canon (chains (fb_kernel w2)) S" using assms(4) s2 by (simp add: same_state_def)
      with k(4) iptables.SyncSystem_spec [OF assms(3) _ assms(5)] obtain S'
        where "realizes canon (chains (fb_kernel w')) S'" "\<exists>now. S' = S(fn_ID n := now)"
        unfolding sync_spec_def by metis
      then show ?thesis using k(1,2) s2 unfolding same_state_def same_rows_def by auto
    qed
  qed
qed

text \<open>What a host does later for its networks: the sync of a reconcile tick, the restore of a start.\<close>

datatype fabric_call = TickSync string string | Restart

fun fabric_later :: "'k FleetNetworkFabric \<Rightarrow> fabric_call list \<Rightarrow> ('f, 'h, 'k) fabric_world \<Rightarrow> ('f, 'h, 'k) fabric_world" where
  "fabric_later uc [] w = w"
| "fabric_later uc (TickSync s e # cs) w = fabric_later uc cs (snd (SyncForApp uc s e w))"
| "fabric_later uc (Restart # cs) w = fabric_later uc cs (snd (RestoreAll uc w))"

text \<open>The chain of a network no active row names stays as it is.\<close>

definition stale :: "(argv \<Rightarrow> argv) \<Rightarrow> ('k \<Rightarrow> ruleset) \<Rightarrow> uuid \<Rightarrow> ResolvedRule list \<Rightarrow> ('f, 'h, 'k) fabric_world \<Rightarrow> bool" where
  "stale canon ch i rs w \<longleftrightarrow> (\<forall>n \<in> set (fb_networks w). fn_Status n = FleetNetworkActive \<longrightarrow> fn_ID n \<noteq> i) \<and>
     (\<exists>S. realizes canon (ch (fb_kernel w)) S \<and> S i = Some rs \<and>
        inj_on SystemChainName (dom S \<union> fn_ID ` set (fb_networks w)))"

lemma stale_sync:
  fixes run :: "'k runner" and chains :: "'k \<Rightarrow> ruleset"
  assumes "stale canon chains i rs w" "n \<in> set (fb_networks w)" "fn_Status n = FleetNetworkActive"
    and "syncNetwork uc n w = (x, w')" "nf_enforcer uc = IPTablesEnforcer run" "iptables run chains canon"
  shows "stale canon chains i rs w' \<and> fb_networks w' = fb_networks w"
proof -
  obtain S where S: "realizes canon (chains (fb_kernel w)) S" "S i = Some rs"
    "inj_on SystemChainName (dom S \<union> fn_ID ` set (fb_networks w))" and ne: "fn_ID n \<noteq> i"
    using assms(1-3) by (auto simp: stale_def)
  have "inj_on SystemChainName (insert (fn_ID n) (dom S))"
    by (rule inj_on_subset [OF S(3)]) (use assms(2) in auto)
  from syncNetwork_effect [OF assms(4,5,6) S(1) this] obtain now
    where e: "same_rows w w'" "realizes canon (chains (fb_kernel w')) (S(fn_ID n := now))" by blast
  have "inj_on SystemChainName (dom (S(fn_ID n := now)) \<union> fn_ID ` set (fb_networks w))"
    by (rule inj_on_subset [OF S(3)]) (use assms(2) in \<open>auto split: if_splits\<close>)
  moreover have "(S(fn_ID n := now)) i = Some rs" using S(2) ne by simp
  ultimately show ?thesis using e assms(1) unfolding stale_def same_rows_def by metis
qed

lemma stale_cong: "same_state w w' \<Longrightarrow> stale canon ch i rs w \<Longrightarrow> stale canon ch i rs w'"
  by (simp add: stale_def same_state_def)

lemma stale_restore:
  fixes run :: "'k runner" and chains :: "'k \<Rightarrow> ruleset"
  assumes "stale canon chains i rs w" "set ns \<subseteq> {n \<in> set (fb_networks w). fn_Status n = FleetNetworkActive}"
    and "nf_enforcer uc = IPTablesEnforcer run" "iptables run chains canon"
  shows "stale canon chains i rs (snd (restore_networks uc ns w))"
  using assms(1,2)
proof (induction ns arbitrary: w)
  case (Cons n ns)
  obtain x w1 where 1: "syncNetwork uc n w = (x, w1)" by fastforce
  have "n \<in> set (fb_networks w)" "fn_Status n = FleetNetworkActive" using Cons.prems(2) by auto
  note s = stale_sync [OF Cons.prems(1) this 1 assms(3,4)]
  then have "stale canon chains i rs (snd (restore_networks uc ns w1))" using Cons.prems(2) by (intro Cons.IH) auto
  then show ?case using s by (cases x) (auto simp: 1)
qed simp

lemma stale_later:
  fixes run :: "'k runner" and chains :: "'k \<Rightarrow> ruleset"
  assumes "stale canon chains i rs w" "nf_enforcer uc = IPTablesEnforcer run" "iptables run chains canon"
  shows "stale canon chains i rs (fabric_later uc calls w)"
  using assms
proof (induction uc calls w rule: fabric_later.induct)
  case (2 uc s e cs w)
  obtain y w1 where 1: "fleetNetworkRepository_FindBySystemEnv s e w = (y, w1)" by fastforce
  have s1: "same_state w w1" using 1 nread_same by (auto simp: fleetNetworkRepository_FindBySystemEnv_def split: if_splits)
  note st = stale_cong [OF s1 2(2)]
  have "stale canon chains i rs (snd (SyncForApp uc s e w))"
  proof (cases "\<exists>n. y = Inr n \<and> s \<noteq> '''' \<and> fn_Status n = FleetNetworkActive")
    case True
    then obtain n where n: "y = Inr n" "s \<noteq> ''''" "fn_Status n = FleetNetworkActive" by blast
    then have "find (\<lambda>n. fn_SystemID n = s \<and> fn_Env n = e) (fb_networks w1) = Some n"
      using nread_ok [OF 1 [unfolded n(1) fleetNetworkRepository_FindBySystemEnv_def if_not_P [OF n(2)]]] by (simp split: option.splits)
    then have "n \<in> set (fb_networks w1)" by (auto simp: find_Some_iff)
    moreover obtain x w2 where 2: "syncNetwork uc n w1 = (x, w2)" by fastforce
    ultimately have "stale canon chains i rs w2" using stale_sync [OF st _ n(3) _ \<open>nf_enforcer uc = _\<close> \<open>iptables run chains canon\<close>] by blast
    then show ?thesis using n 1 2 by (simp add: SyncForApp_def)
  next
    case False
    then have "snd (SyncForApp uc s e w) \<in> {w, w1}" by (cases y) (auto simp: SyncForApp_def 1)
    then show ?thesis using st 2(2) by auto
  qed
  then show ?case using 2 by simp
next
  case (3 uc cs w)
  obtain y w1 where 1: "fleetNetworkRepository_ListActive w = (y, w1)" by fastforce
  have st: "stale canon chains i rs w1"
    using stale_cong [OF nread_same [OF 1 [unfolded fleetNetworkRepository_ListActive_def]] 3(2)] .
  have "stale canon chains i rs (snd (RestoreAll uc w))"
  proof (cases y)
    case (Inr ns)
    then have "set ns \<subseteq> {n \<in> set (fb_networks w1). fn_Status n = FleetNetworkActive}"
      using nread_ok [OF 1 [unfolded Inr fleetNetworkRepository_ListActive_def]] by auto
    from stale_restore [OF st this 3(3,4)] show ?thesis by (simp add: RestoreAll_def 1 Inr)
  qed (use st 1 in \<open>simp add: RestoreAll_def\<close>)
  then show ?case using 3 by simp
qed simp

lemma replace_networks: "replace_policies i ps w = Inr w' \<Longrightarrow> fb_networks w' = fb_networks w"
  by (auto simp: replace_policies_def Let_def split: if_splits)

lemma Deprovision_marks:
  assumes "Deprovision uc handle w = (Inr (), w')"
  shows "map fn_ID (fb_networks w') = map fn_ID (fb_networks w)"
    "n \<in> set (fb_networks w') \<Longrightarrow> fn_ID n = handle \<Longrightarrow> fn_Status n = FleetNetworkDeprovisioned"
proof -
  obtain a w1 where 1: "fleetNetworkRepository_FindByID handle w = (a, w1)" by fastforce
  obtain n0 where a: "a = Inr n0" using assms by (cases a) (auto simp: Deprovision_def 1)
  obtain b w2 where 2: "on_kernel (ne_DropSystem (nf_enforcer uc) (fn_ID n0)) w1 = (b, w2)" by fastforce
  have b: "b = Inr ()" using assms by (cases b) (auto simp: Deprovision_def 1 2 a)
  obtain c w3 where 3: "fleetNetworkPolicyRepository_ReplaceForNetwork (fn_ID n0) [] w2 = (c, w3)" by fastforce
  have c: "c = Inr ()" using assms by (cases c) (auto simp: Deprovision_def 1 2 3 a b)
  have 4: "fleetNetworkRepository_MarkDeprovisioned (nf_now uc (now_tick w3)) (fn_ID n0) (advance 1 w3) = (Inr (), w')"
    using assms by (simp add: Deprovision_def 1 2 3 a b c)
  have "find (\<lambda>n. fn_ID n = handle) (fb_networks w1) = Some n0"
    using nread_ok [OF 1 [unfolded a fleetNetworkRepository_FindByID_def]] by (simp split: option.splits)
  then have id: "fn_ID n0 = handle" by (auto simp: find_Some_iff)
  obtain w2' where r: "same_state w2 w2'" "replace_policies (fn_ID n0) [] w2' = Inr w3"
    using nwrite_ok [OF 3 [unfolded c fleetNetworkPolicyRepository_ReplaceForNetwork_def]] by blast
  obtain w3' where m: "same_state (advance 1 w3) w3'" "mark_network FleetNetworkDeprovisioned (nf_now uc (now_tick w3)) (fn_ID n0) w3' = Inr w'"
    using nwrite_ok [OF 4 [unfolded fleetNetworkRepository_MarkDeprovisioned_def]] by blast
  have same: "fb_networks w3' = fb_networks w"
    using nread_same [OF 1 [unfolded fleetNetworkRepository_FindByID_def]] on_kernel_ok(1) [OF 2] r(1) m(1) replace_networks [OF r(2)]
    by (simp add: same_state_def advance_def)
  have w': "fb_networks w' = map (\<lambda>n. if fn_ID n = fn_ID n0 then n\<lparr>fn_Status := FleetNetworkDeprovisioned, fn_UpdatedAt := nf_now uc (now_tick w3)\<rparr> else n) (fb_networks w)"
    using m(2) same by (auto simp: mark_network_def split: if_splits)
  show "map fn_ID (fb_networks w') = map fn_ID (fb_networks w)" unfolding w' by simp
  assume n: "n \<in> set (fb_networks w')" "fn_ID n = handle"
  then obtain m where "n = (if fn_ID m = fn_ID n0 then m\<lparr>fn_Status := FleetNetworkDeprovisioned, fn_UpdatedAt := nf_now uc (now_tick w3)\<rparr> else m)"
    unfolding w' set_map by blast
  then show "fn_Status n = FleetNetworkDeprovisioned" using n(2) id by (simp split: if_splits)
qed



text \<open>Another host that still carries the chain of the sample network.\<close>

lemma demo_drop: "\<exists>w'. Deprovision demo_fabric 7 (demo_fabric_world\<lparr>fb_kernel := linked_kernel\<rparr>) = (Inr (), w')"
  using program_spares_systems [of _ 7] SystemChainName_fresh(6) [of 7, symmetric]
  by (simp add: Deprovision_def demo_fabric_def IPTablesEnforcer_def on_kernel_def demo_fabric_world_def
      fleetNetworkRepository_FindByID_def nread_def on_fleet_def next_fault_def demo_network_def DropSystem_def deleteAllCopies_def
      maxRuleDeleteLoops_def numeral_eq_Suc kernel_run_def on_chain_def exec_def Let_def linked_kernel_def unreferenced_def
      fleetNetworkPolicyRepository_ReplaceForNetwork_def fleetNetworkRepository_MarkDeprovisioned_def mark_network_def
      nwrite_def replace_policies_def advance_def)



end
