(* ===== verification/Resource_Endpoint.thy ===== *)
theory Resource_Endpoint
  imports Errors Host_Facts
begin

text \<open>
  The customer-facing name of a database (\<open>internal/domain/resource_endpoint.go\<close>, \<open>resource_endpoint_words.go\<close>): a minted
  id, a region and a zone.  The entropy source is an argument, one draw for each random index.
\<close>

section \<open>Words\<close>

definition endpointAdjectives :: "string list" where
  "endpointAdjectives =
     [''amber'', ''ancient'', ''arctic'', ''autumn'', ''azure'', ''balmy'', ''brave'', ''breezy'', ''bright'',
      ''brisk'', ''bronze'', ''calm'', ''candid'', ''careful'', ''caring'', ''cheerful'', ''chilly'',
      ''civic'', ''classic'', ''clean'', ''clear'', ''clever'', ''cobalt'', ''cool'', ''copper'', ''cosmic'',
      ''cozy'', ''crimson'', ''crisp'', ''curly'', ''daily'', ''dainty'', ''dapper'', ''dewy'', ''dreamy'',
      ''dusky'', ''eager'', ''early'', ''earthy'', ''easy'', ''elder'', ''elegant'', ''emerald'', ''endless'',
      ''even'', ''fabled'', ''faithful'', ''famous'', ''fancy'', ''feathery'', ''fertile'', ''fine'', ''firm'',
      ''flowing'', ''fluent'', ''fluffy'', ''fond'', ''formal'', ''fragrant'', ''free'', ''fresh'',
      ''friendly'', ''frosty'', ''gentle'', ''giddy'', ''gilded'', ''glad'', ''gleaming'', ''gliding'',
      ''glowing'', ''golden'', ''graceful'', ''grand'', ''grassy'', ''green'', ''hearty'', ''helpful'',
      ''hidden'', ''honest'', ''hopeful'', ''humble'', ''icy'', ''indigo'', ''ivory'', ''jade'', ''jolly'',
      ''jovial'', ''joyful'', ''keen'', ''kind'', ''lasting'', ''leafy'', ''lively'', ''loyal'', ''lucid'',
      ''lucky'', ''lunar'', ''marble'', ''mellow'', ''merry'', ''mighty'', ''mild'', ''minty'', ''misty'',
      ''modest'', ''mossy'', ''muted'', ''narrow'', ''neat'', ''nimble'', ''noble'', ''northern'', ''olive'',
      ''opal'', ''open'', ''pale'', ''patient'', ''peaceful'', ''pearly'', ''placid'', ''plain'', ''pleasant'',
      ''plucky'', ''polar'', ''polite'', ''precise'', ''pretty'', ''prime'', ''proud'', ''quaint'', ''quick'',
      ''quiet'', ''rapid'', ''ready'', ''restful'', ''rippling'', ''robust'', ''rocky'', ''rosy'', ''royal'',
      ''ruby'', ''rustic'', ''sandy'', ''sapphire'', ''scenic'', ''serene'', ''shady'', ''sharp'', ''shiny'',
      ''silent'', ''silken'', ''silver'', ''simple'', ''sincere'', ''sleek'', ''slender'', ''smiling'',
      ''smooth'', ''snowy'', ''soaring'', ''soft'', ''solar'', ''solid'', ''sparkling'', ''spirited'',
      ''spry'', ''stable'', ''starry'', ''steady'', ''sterling'', ''still'', ''stony'', ''sturdy'', ''sunlit'',
      ''sunny'', ''swift'', ''tender'', ''thankful'', ''tidal'', ''tidy'', ''timely'', ''tranquil'',
      ''trusty'', ''twilight'', ''upbeat'', ''urban'', ''valiant'', ''velvet'', ''verdant'', ''vivid'',
      ''wandering'', ''warm'', ''wavy'', ''whimsical'', ''willing'', ''windy'', ''winsome'', ''wise'',
      ''woven'', ''zesty'']"

definition endpointNouns :: "string list" where
  "endpointNouns =
     [''acorn'', ''alcove'', ''anchor'', ''anvil'', ''arbor'', ''arch'', ''ash'', ''aspen'', ''aurora'',
      ''badger'', ''basin'', ''basket'', ''bay'', ''beach'', ''beacon'', ''bell'', ''birch'', ''bison'',
      ''blossom'', ''bluff'', ''boulder'', ''bramble'', ''branch'', ''brook'', ''burrow'', ''cabin'',
      ''cactus'', ''canoe'', ''canopy'', ''canyon'', ''cascade'', ''castle'', ''cavern'', ''cedar'', ''chalk'',
      ''channel'', ''chapel'', ''clay'', ''cliff'', ''cloud'', ''clover'', ''coast'', ''cobble'', ''comet'',
      ''compass'', ''cottage'', ''cove'', ''crane'', ''crater'', ''creek'', ''crest'', ''crocus'', ''crystal'',
      ''cypress'', ''daisy'', ''dale'', ''dawn'', ''deer'', ''dew'', ''dove'', ''dune'', ''dusk'', ''egret'',
      ''elk'', ''ember'', ''falcon'', ''fawn'', ''fern'', ''field'', ''finch'', ''fjord'', ''flint'',
      ''forest'', ''fountain'', ''foxglove'', ''garden'', ''gate'', ''geyser'', ''glacier'', ''glade'',
      ''glen'', ''granite'', ''grotto'', ''grove'', ''gulf'', ''harbor'', ''hare'', ''harvest'', ''haven'',
      ''heath'', ''hedge'', ''heron'', ''hill'', ''horizon'', ''ibex'', ''iceberg'', ''inlet'', ''iris'',
      ''island'', ''ivy'', ''juniper'', ''kettle'', ''kite'', ''koi'', ''lagoon'', ''lake'', ''lantern'',
      ''lark'', ''ledge'', ''lily'', ''linden'', ''lodge'', ''lotus'', ''lynx'', ''maple'', ''marsh'',
      ''marten'', ''meadow'', ''mesa'', ''mill'', ''mist'', ''moor'', ''moss'', ''moth'', ''mountain'',
      ''nectar'', ''nest'', ''oak'', ''oasis'', ''orchard'', ''orchid'', ''otter'', ''owl'', ''palm'',
      ''pasture'', ''path'', ''pebble'', ''petal'', ''pier'', ''pine'', ''plateau'', ''pond'', ''poplar'',
      ''prairie'', ''puffin'', ''quail'', ''quarry'', ''quartz'', ''quill'', ''rapids'', ''raven'', ''ravine'',
      ''reef'', ''ridge'', ''rill'', ''river'', ''robin'', ''rowan'', ''sage'', ''sail'', ''sandbar'',
      ''sapling'', ''savanna'', ''seal'', ''sequoia'', ''shore'', ''shrub'', ''sierra'', ''silo'', ''sky'',
      ''slope'', ''sparrow'', ''spring'', ''spruce'', ''stream'', ''summit'', ''sunrise'', ''sunset'',
      ''swan'', ''thicket'', ''thistle'', ''tide'', ''timber'', ''trail'', ''tulip'', ''tundra'', ''valley'',
      ''vine'', ''violet'', ''vista'', ''wave'', ''willow'', ''window'', ''woodland'', ''wren'', ''yarrow'',
      ''zephyr'']"

definition endpointIDNumberSpace :: nat where "endpointIDNumberSpace = 10000"

definition dnsMaxLabel :: nat where "dnsMaxLabel = 63"

definition dnsMaxName :: nat where "dnsMaxName = 253"

section \<open>Checks\<close>

definition lower_byte :: "char \<Rightarrow> bool" where
  "lower_byte c \<longleftrightarrow> (97::nat) \<le> of_char c \<and> of_char c \<le> (122::nat)"

definition isLowerAlpha :: "string \<Rightarrow> bool" where
  "isLowerAlpha s \<longleftrightarrow> (\<forall>c \<in> set s. lower_byte c)"

definition isDigits :: "string \<Rightarrow> bool" where
  "isDigits s \<longleftrightarrow> (\<forall>c \<in> set s. is_digit c)"

definition validateDNSLabel :: "string \<Rightarrow> bool" where
  "validateDNSLabel l \<longleftrightarrow> l \<noteq> [] \<and> length l \<le> dnsMaxLabel \<and> hd l \<noteq> CHR ''-'' \<and> last l \<noteq> CHR ''-'' \<and>
     (\<forall>c \<in> set l. lower_byte c \<or> is_digit c \<or> c = CHR ''-'')"

definition validateEndpointID :: "string \<Rightarrow> resource_error option" where
  "validateEndpointID i =
     (let parts = split_on (CHR ''-'') i in
      if length parts \<noteq> 3 then Some ErrEndpointIDInvalid
      else if \<exists>w \<in> set (take 2 parts). w = [] \<or> \<not> isLowerAlpha w then Some ErrEndpointIDInvalid
      else if length (parts ! 2) \<noteq> 4 \<or> \<not> isDigits (parts ! 2) then Some ErrEndpointIDInvalid
      else if \<not> validateDNSLabel i then Some ErrEndpointIDInvalid
      else None)"

definition validateEndpointRegion :: "string \<Rightarrow> resource_error option" where
  "validateEndpointRegion region =
     (if region = [] then Some ErrEndpointRegionRequired
      else if CHR ''.'' \<in> set region then Some ErrEndpointRegionInvalid
      else if \<not> validateDNSLabel region then Some ErrEndpointRegionInvalid
      else None)"

definition validateEndpointZone :: "string \<Rightarrow> resource_error option" where
  "validateEndpointZone zone =
     (let labels = split_on (CHR ''.'') zone in
      if zone = [] then Some ErrEndpointZoneRequired
      else if length labels < 2 then Some ErrEndpointZoneInvalid
      else if \<not> (\<forall>l \<in> set labels. validateDNSLabel l) then Some ErrEndpointZoneInvalid
      else if dnsMaxName < length zone then Some ErrEndpointZoneInvalid
      else None)"

section \<open>Endpoints\<close>

record ResourceEndpoint =
  ep_id :: string
  ep_region :: string
  ep_zone :: string

record EndpointNaming =
  ng_Zone :: string
  ng_Region :: string

definition ResourceEndpoint_Host :: "ResourceEndpoint \<Rightarrow> string" where
  "ResourceEndpoint_Host e = ep_id e @ ''.'' @ ep_region e @ ''.'' @ ep_zone e"

definition ResourceEndpoint_IsZero :: "ResourceEndpoint \<Rightarrow> bool" where
  "ResourceEndpoint_IsZero e \<longleftrightarrow> ep_id e = []"

definition EndpointNaming_Validate :: "EndpointNaming \<Rightarrow> resource_error option" where
  "EndpointNaming_Validate n =
     (if blank (ng_Zone n) then Some ErrEndpointZoneRequired
      else if blank (ng_Region n) then Some ErrEndpointRegionRequired
      else case validateEndpointZone (ng_Zone n) of Some e \<Rightarrow> Some e | None \<Rightarrow> validateEndpointRegion (ng_Region n))"

definition NewResourceEndpoint :: "string \<Rightarrow> string \<Rightarrow> string \<Rightarrow> resource_error + ResourceEndpoint" where
  "NewResourceEndpoint i region zone =
     (case validateEndpointID i of Some e \<Rightarrow> Inl e | None \<Rightarrow>
      (case validateEndpointRegion region of Some e \<Rightarrow> Inl e | None \<Rightarrow>
       (case validateEndpointZone zone of Some e \<Rightarrow> Inl e | None \<Rightarrow>
        (let ep = \<lparr>ep_id = i, ep_region = region, ep_zone = zone\<rparr> in
         if dnsMaxName < length (ResourceEndpoint_Host ep) then Inl ErrEndpointHostTooLong else Inr ep))))"

text \<open>\<open>crypto/rand.Int\<close> answers a number below its bound, or fails.\<close>

type_synonym entropy = "nat \<Rightarrow> nat \<Rightarrow> nat option"

definition fair :: "entropy \<Rightarrow> bool" where
  "fair ent \<longleftrightarrow> (\<forall>k n v. ent k n = Some v \<longrightarrow> v < n)"

definition randomIndex :: "entropy \<Rightarrow> nat \<Rightarrow> nat \<Rightarrow> resource_error + nat" where
  "randomIndex ent k n =
     (if n = 0 then Inl ErrEndpointMintFailed
      else case ent k n of None \<Rightarrow> Inl ErrEndpointMintFailed | Some v \<Rightarrow> Inr v)"

definition pickWord :: "entropy \<Rightarrow> nat \<Rightarrow> string list \<Rightarrow> resource_error + string" where
  "pickWord ent k l = (case randomIndex ent k (length l) of Inl e \<Rightarrow> Inl e | Inr i \<Rightarrow> Inr (l ! i))"

definition pad4 :: "nat \<Rightarrow> string" where
  "pad4 n = replicate (4 - length (dec n)) (CHR ''0'') @ dec n"

definition mint :: "entropy \<Rightarrow> EndpointNaming \<Rightarrow> resource_error + ResourceEndpoint" where
  "mint ent n =
     (case EndpointNaming_Validate n of Some e \<Rightarrow> Inl e | None \<Rightarrow>
      (case pickWord ent 0 endpointAdjectives of Inl e \<Rightarrow> Inl e | Inr adjective \<Rightarrow>
       (case pickWord ent 1 endpointNouns of Inl e \<Rightarrow> Inl e | Inr noun \<Rightarrow>
        (case randomIndex ent 2 endpointIDNumberSpace of Inl e \<Rightarrow> Inl e | Inr number \<Rightarrow>
         NewResourceEndpoint (adjective @ ''-'' @ noun @ ''-'' @ pad4 number) (ng_Region n) (ng_Zone n)))))"

section \<open>The word lists\<close>

fun ascending :: "string list \<Rightarrow> bool" where
  "ascending (a # b # r) \<longleftrightarrow> string_less a b \<and> ascending (b # r)"
| "ascending _ \<longleftrightarrow> True"

lemma ascending_distinct: "ascending xs \<Longrightarrow> distinct xs"
proof -
  have head: "ascending (a # r) \<Longrightarrow> \<forall>b \<in> set r. string_less a b" for a r
  proof (induction r arbitrary: a)
    case (Cons b r)
    then show ?case using string_less_trans by auto
  qed simp
  show "ascending xs \<Longrightarrow> distinct xs"
  proof (induction xs)
    case (Cons a r)
    then have "ascending r" by (cases r) auto
    moreover have "a \<notin> set r" using head [OF Cons.prems] by auto
    ultimately show ?case using Cons.IH by simp
  qed simp
qed

definition good_word :: "string \<Rightarrow> bool" where
  "good_word w \<longleftrightarrow> w \<noteq> [] \<and> length w \<le> 12 \<and> isLowerAlpha w"

lemma adjectives_good: "list_all good_word endpointAdjectives"
  by code_simp

lemma nouns_good: "list_all good_word endpointNouns"
  by code_simp

lemma adjectives_distinct: "distinct endpointAdjectives"
  by (rule ascending_distinct) code_simp

lemma nouns_distinct: "distinct endpointNouns"
  by (rule ascending_distinct) code_simp

section \<open>What is minted\<close>

lemma pad4_shape: "n < 10000 \<Longrightarrow> length (pad4 n) = 4 \<and> isDigits (pad4 n)"
proof -
  assume n: "n < 10000"
  have "length (dec n) \<le> 4" using n by (simp add: dec.simps)
  then show ?thesis using dec_digits by (auto simp: pad4_def isDigits_def is_digit_def)
qed

lemma dec_val_zeros: "dec_val (replicate k (CHR ''0'') @ s) = dec_val s"
  by (induction k) (simp_all add: dec_val_def digit_val_def)

lemma pad4_inj: "pad4 m = pad4 n \<longleftrightarrow> m = n"
  by (metis pad4_def dec_val_zeros dec_val_dec)

lemma alpha_no_dash: "isLowerAlpha w \<Longrightarrow> CHR ''-'' \<notin> set w" and digits_no_dash: "isDigits w \<Longrightarrow> CHR ''-'' \<notin> set w"
  by (auto simp: isLowerAlpha_def lower_byte_def isDigits_def is_digit_def)

definition endpoint_id :: "string \<Rightarrow> string \<Rightarrow> nat \<Rightarrow> string" where
  "endpoint_id a b k = a @ ''-'' @ b @ ''-'' @ pad4 k"

lemma split_endpoint_id:
  assumes "isLowerAlpha a" "isLowerAlpha b" "k < 10000"
  shows "split_on (CHR ''-'') (endpoint_id a b k) = [a, b, pad4 k]"
proof -
  have "CHR ''-'' \<notin> set (pad4 k)" using pad4_shape [OF assms(3)] digits_no_dash by blast
  then show ?thesis
    using alpha_no_dash [OF assms(1)] alpha_no_dash [OF assms(2)]
    by (simp add: endpoint_id_def split_on_append split_on_no_sep)
qed

lemma endpoint_id_valid:
  assumes "good_word a" "good_word b" "k < 10000"
  shows "validateEndpointID (endpoint_id a b k) = None"
proof -
  note p = pad4_shape [OF assms(3)]
  have w: "isLowerAlpha a" "isLowerAlpha b" "a \<noteq> []" "b \<noteq> []" "length a \<le> 12" "length b \<le> 12"
    using assms(1,2) by (auto simp: good_word_def)
  have "hd (endpoint_id a b k) = hd a" "last (endpoint_id a b k) = last (pad4 k)"
    using w p by (auto simp: endpoint_id_def)
  moreover have "hd a \<noteq> CHR ''-''" using w(1,3) alpha_no_dash [OF w(1)] hd_in_set by metis
  moreover have "last (pad4 k) \<noteq> CHR ''-''"
    using p digits_no_dash last_in_set [of "pad4 k"] by fastforce
  moreover have "length (endpoint_id a b k) \<le> dnsMaxLabel" using w p by (simp add: endpoint_id_def dnsMaxLabel_def)
  moreover have "\<forall>c \<in> set (endpoint_id a b k). lower_byte c \<or> is_digit c \<or> c = CHR ''-''"
    using w p by (auto simp: endpoint_id_def isLowerAlpha_def isDigits_def)
  ultimately have "validateDNSLabel (endpoint_id a b k)" using w by (simp add: validateDNSLabel_def endpoint_id_def)
  then show ?thesis
    using w p by (simp add: validateEndpointID_def split_endpoint_id [OF w(1,2) assms(3)])
qed

lemma mint_draws:
  assumes "fair ent" "EndpointNaming_Validate n = None"
    and "ent 0 (length endpointAdjectives) = Some a" "ent 1 (length endpointNouns) = Some b" "ent 2 endpointIDNumberSpace = Some k"
  defines "i \<equiv> endpoint_id (endpointAdjectives ! a) (endpointNouns ! b) k"
  shows "mint ent n = (if dnsMaxName < length i + length (ng_Region n) + length (ng_Zone n) + 2 then Inl ErrEndpointHostTooLong
      else Inr \<lparr>ep_id = i, ep_region = ng_Region n, ep_zone = ng_Zone n\<rparr>)"
    and "split_on (CHR ''-'') i = [endpointAdjectives ! a, endpointNouns ! b, pad4 k]"
    and "a < length endpointAdjectives" "b < length endpointNouns"
proof -
  have r: "a < length endpointAdjectives" "b < length endpointNouns" "k < 10000"
    using assms(1,3-5) by (auto simp: fair_def endpointIDNumberSpace_def)
  have w: "good_word (endpointAdjectives ! a)" "good_word (endpointNouns ! b)"
    using adjectives_good nouns_good r by (simp_all add: list_all_length)
  have region: "validateEndpointRegion (ng_Region n) = None" and zone: "validateEndpointZone (ng_Zone n) = None"
    using assms(2) by (auto simp: EndpointNaming_Validate_def split: if_splits option.splits)
  show "split_on (CHR ''-'') i = [endpointAdjectives ! a, endpointNouns ! b, pad4 k]"
    unfolding i_def using w r(3) by (intro split_endpoint_id) (auto simp: good_word_def)
  have ne: "length endpointAdjectives \<noteq> 0" "length endpointNouns \<noteq> 0" "endpointIDNumberSpace \<noteq> 0"
    using r by (auto simp: endpointIDNumberSpace_def)
  have "mint ent n = NewResourceEndpoint i (ng_Region n) (ng_Zone n)"
    using assms(2-5) ne by (simp add: mint_def pickWord_def randomIndex_def endpoint_id_def i_def)
  then show "mint ent n = (if dnsMaxName < length i + length (ng_Region n) + length (ng_Zone n) + 2 then Inl ErrEndpointHostTooLong
      else Inr \<lparr>ep_id = i, ep_region = ng_Region n, ep_zone = ng_Zone n\<rparr>)"
    using region zone endpoint_id_valid [OF w r(3)] by (simp add: NewResourceEndpoint_def Let_def ResourceEndpoint_Host_def i_def)
qed (use assms(1,3,4) in \<open>auto simp: fair_def\<close>)

text \<open>Claim C36.  Endpoint names.  With a valid naming context and an entropy source that answers, minting takes the two words
  and the number drawn, and returns exactly the name made of them, unless the host name exceeds 253 octets; the
  id read back by splitting at the dashes gives the words and the number, the words sit in their lists
  at no other place and the number has no other four-digit form, so two mints share an id only if
  they drew the same.  A long zone therefore passes the naming check although no draw mints a name in it.\<close>

theorem mint_roundtrip:
  assumes "fair ent" "EndpointNaming_Validate n = None"
    and "ent 0 (length endpointAdjectives) = Some a" "ent 1 (length endpointNouns) = Some b" "ent 2 endpointIDNumberSpace = Some k"
  shows "\<exists>i. mint ent n = (if dnsMaxName < length i + length (ng_Region n) + length (ng_Zone n) + 2 then Inl ErrEndpointHostTooLong
      else Inr \<lparr>ep_id = i, ep_region = ng_Region n, ep_zone = ng_Zone n\<rparr>) \<and>
    split_on (CHR ''-'') i = [endpointAdjectives ! a, endpointNouns ! b, pad4 k] \<and>
    (\<forall>a' < length endpointAdjectives. endpointAdjectives ! a' = endpointAdjectives ! a \<longrightarrow> a' = a) \<and>
    (\<forall>b' < length endpointNouns. endpointNouns ! b' = endpointNouns ! b \<longrightarrow> b' = b) \<and>
    (\<forall>k'. pad4 k' = pad4 k \<longrightarrow> k' = k)"
proof -
  note m = mint_draws [OF assms]
  have "\<forall>a' < length endpointAdjectives. endpointAdjectives ! a' = endpointAdjectives ! a \<longrightarrow> a' = a"
    "\<forall>b' < length endpointNouns. endpointNouns ! b' = endpointNouns ! b \<longrightarrow> b' = b"
    using m(3,4) adjectives_distinct nouns_distinct nth_eq_iff_index_eq by blast+
  with m(1,2) pad4_inj show ?thesis by blast
qed

definition demo_naming :: EndpointNaming where
  "demo_naming = \<lparr>ng_Zone = ''db.sentiae.com'', ng_Region = ''eu-central''\<rparr>"

definition demo_entropy :: entropy where
  "demo_entropy k n = (if n = 0 then None else Some 0)"

lemma demo_naming_valid: "EndpointNaming_Validate demo_naming = None"
proof -
  have b: "\<not> blank ''db.sentiae.com''" "\<not> blank ''eu-central''"
    by (rule not_blank_head, simp, simp)+
  have l: "validateDNSLabel ''db''" "validateDNSLabel ''sentiae''" "validateDNSLabel ''com''" "validateDNSLabel ''eu-central''"
    by (simp_all add: validateDNSLabel_def dnsMaxLabel_def lower_byte_def is_digit_def)
  have s: "split_on (CHR ''.'') ''db.sentiae.com'' = [''db'', ''sentiae'', ''com'']" by simp
  have z: "validateEndpointZone ''db.sentiae.com'' = None"
    unfolding validateEndpointZone_def s Let_def by (simp add: l dnsMaxName_def del: split_on.simps)
  have r: "validateEndpointRegion ''eu-central'' = None"
    unfolding validateEndpointRegion_def by (simp add: l)
  show ?thesis unfolding EndpointNaming_Validate_def demo_naming_def EndpointNaming.select_convs if_not_P [OF b(1)] if_not_P [OF b(2)] z option.case by (rule r)
qed

lemma demo_draws: "fair demo_entropy" "demo_entropy 0 (length endpointAdjectives) = Some 0"
  "demo_entropy 1 (length endpointNouns) = Some 0" "demo_entropy 2 endpointIDNumberSpace = Some 0"
proof -
  have "length endpointAdjectives \<noteq> 0" "length endpointNouns \<noteq> 0" "endpointIDNumberSpace \<noteq> 0"
    by (simp_all add: endpointAdjectives_def endpointNouns_def endpointIDNumberSpace_def)
  then show "fair demo_entropy" "demo_entropy 0 (length endpointAdjectives) = Some 0"
    "demo_entropy 1 (length endpointNouns) = Some 0" "demo_entropy 2 endpointIDNumberSpace = Some 0"
    by (simp_all add: fair_def demo_entropy_def)
qed

lemma demo_mint:
  "mint demo_entropy demo_naming = Inr \<lparr>ep_id = endpoint_id ''amber'' ''acorn'' 0, ep_region = ''eu-central'', ep_zone = ''db.sentiae.com''\<rparr>"
proof -
  have w: "endpointAdjectives ! 0 = ''amber''" "endpointNouns ! 0 = ''acorn''"
    by (simp_all add: endpointAdjectives_def endpointNouns_def)
  show ?thesis
    unfolding mint_draws(1) [OF demo_draws(1) demo_naming_valid demo_draws(2-4)] w
    by (simp add: endpoint_id_def demo_naming_def pad4_def dnsMaxName_def dec.simps)
qed

theorem mint_roundtrip_witness:
  "\<exists>i. mint demo_entropy demo_naming = (if dnsMaxName < length i + length (ng_Region demo_naming) + length (ng_Zone demo_naming) + 2
      then Inl ErrEndpointHostTooLong else Inr \<lparr>ep_id = i, ep_region = ng_Region demo_naming, ep_zone = ng_Zone demo_naming\<rparr>) \<and>
    split_on (CHR ''-'') i = [endpointAdjectives ! 0, endpointNouns ! 0, pad4 0]"
proof -
  obtain i where "mint demo_entropy demo_naming = (if dnsMaxName < length i + length (ng_Region demo_naming) + length (ng_Zone demo_naming) + 2
      then Inl ErrEndpointHostTooLong else Inr \<lparr>ep_id = i, ep_region = ng_Region demo_naming, ep_zone = ng_Zone demo_naming\<rparr>)"
    "split_on (CHR ''-'') i = [endpointAdjectives ! 0, endpointNouns ! 0, pad4 0]"
    using mint_roundtrip [OF demo_draws(1) demo_naming_valid demo_draws(2-4)] by (elim exE conjE)
  then show ?thesis by (intro exI conjI)
qed

end
