(* ===== verification/Resource_Ledger.thy ===== *)
theory Resource_Ledger
  imports Resource_Endpoint Fleet_Store
begin

text \<open>
  The ledger of durable resources: claims, recovery points and worker heartbeats
  (\<open>internal/domain/fleet_resource.go\<close>) and every statement over them
  (\<open>internal/repository/postgres/fleet_resource_repo.go\<close>) under the keys and checks of migrations 0012 to 0025.  A
  script says what happens to each statement: whether the call or its reply is lost, and which statements other
  processes commit before it.  \<open>'e\<close> is the rest of the world (apps, volumes, VMs).
\<close>

section \<open>Rows\<close>

datatype FleetResourcePhase = FleetResourcePhaseProvisioning | FleetResourcePhaseReady | FleetResourcePhaseDegraded
  | FleetResourcePhaseRestoring | FleetResourcePhaseFailed | FleetResourcePhaseDecommissioned | FleetResourcePhaseOther string

fun FleetResourcePhase_IsValid :: "FleetResourcePhase \<Rightarrow> bool" where
  "FleetResourcePhase_IsValid (FleetResourcePhaseOther _) = False"
| "FleetResourcePhase_IsValid _ = True"

definition FleetResourceInitialGeneration :: int where "FleetResourceInitialGeneration = 1"

datatype Durability = DurabilityDurable | DurabilityEphemeral | DurabilityOther string

fun Durability_IsValid :: "Durability \<Rightarrow> bool" where
  "Durability_IsValid (DurabilityOther _) = False"
| "Durability_IsValid _ = True"

definition ProtectionComponentOffsite :: string where "ProtectionComponentOffsite = ''offsite''"

definition ProtectionComponentCadence :: string where "ProtectionComponentCadence = ''cadence''"

definition ProtectionScopePlatform :: string where "ProtectionScopePlatform = ''''"

record ProtectionHeartbeat =
  pb_Component :: string
  pb_Scope :: string
  pb_BeatenAt :: instant
  pb_Detail :: string

definition IsFreshAt :: "ProtectionHeartbeat \<Rightarrow> instant \<Rightarrow> int \<Rightarrow> bool" where
  "IsFreshAt h now staleness \<longleftrightarrow> now - pb_BeatenAt h \<le> staleness"

record FleetResource =
  rs_ID :: uuid
  rs_OwnerOrg :: uuid
  rs_ClaimKey :: string
  rs_Env :: string
  rs_Revision :: int
  rs_Class :: string
  rs_Tier :: string
  rs_Phase :: FleetResourcePhase
  rs_AppID :: "uuid option"
  rs_DBName :: string
  rs_RoleName :: string
  rs_Endpoint :: string
  rs_EndpointID :: "string option"
  rs_Region :: string
  rs_Generation :: int
  rs_AvailabilityClass :: AvailabilityClass
  rs_SyncDegradePolicy :: SyncDegradePolicy
  rs_Durability :: Durability
  rs_ProtectionCadenceSeconds :: "int option"
  rs_ProtectionAttachedAt :: "instant option"
  rs_ProtectionWaivedBy :: string
  rs_ProtectionWaiverReason :: string
  rs_ProtectionWaivedAt :: "instant option"
  rs_SecretRefs :: "string list"
  rs_SystemID :: string
  rs_LastError :: string
  rs_ConsecutiveSnapshotFailures :: int
  rs_LastSnapshotFailureAt :: "instant option"
  rs_LastSnapshotError :: string
  rs_LastSnapshotSuccessAt :: "instant option"
  rs_ExpiresAt :: "instant option"
  rs_CreatedAt :: instant
  rs_UpdatedAt :: instant
  rs_DecommissionedAt :: "instant option"

datatype RecoveryPointConsistency = RecoveryPointGuestFrozen | RecoveryPointDetachedClean | RecoveryPointDetachedUnclean
  | RecoveryPointUnknown | RecoveryPointConsistencyOther string

fun RecoveryPointConsistency_IsValid :: "RecoveryPointConsistency \<Rightarrow> bool" where
  "RecoveryPointConsistency_IsValid (RecoveryPointConsistencyOther _) = False"
| "RecoveryPointConsistency_IsValid _ = True"

datatype RecoveryPointLocations = RecoveryPointLocationsUnknown | RecoveryPointLocationsPrimaryOnly
  | RecoveryPointLocationsSecondDomain | RecoveryPointLocationsOther string

fun RecoveryPointLocations_IsValid :: "RecoveryPointLocations \<Rightarrow> bool" where
  "RecoveryPointLocations_IsValid (RecoveryPointLocationsOther _) = False"
| "RecoveryPointLocations_IsValid _ = True"

definition InTwoFailureDomains :: "RecoveryPointLocations \<Rightarrow> bool" where
  "InTwoFailureDomains l \<longleftrightarrow> l = RecoveryPointLocationsSecondDomain"

record FleetResourceRecoveryPoint =
  rp_ID :: uuid
  rp_ResourceID :: uuid
  rp_VolumeID :: "uuid option"
  rp_ObjectKey :: string
  rp_Kind :: string
  rp_SizeBytes :: int
  rp_Consistency :: RecoveryPointConsistency
  rp_Checksum :: string
  rp_RestoredInPlaceOK :: bool
  rp_Locations :: RecoveryPointLocations
  rp_SecondDomainStore :: string
  rp_SecondDomainAt :: "instant option"
  rp_SecondDomainError :: string
  rp_CreatedAt :: instant

section \<open>Table constraints\<close>

definition endpoint_id_ck :: "string \<Rightarrow> bool" where
  "endpoint_id_ck i \<longleftrightarrow>
     (let parts = split_on (CHR ''-'') i in length parts = 3 \<and> (\<forall>w \<in> set (take 2 parts). w \<noteq> [] \<and> isLowerAlpha w) \<and>
        length (parts ! 2) = 4 \<and> isDigits (parts ! 2))"

definition resource_ck :: "FleetResource \<Rightarrow> bool" where
  "resource_ck r \<longleftrightarrow> 1 \<le> rs_Generation r \<and> (\<forall>i. rs_EndpointID r = Some i \<longrightarrow> endpoint_id_ck i) \<and>
     AvailabilityClass_IsValid (rs_AvailabilityClass r) \<and> SyncDegradePolicy_IsValid (rs_SyncDegradePolicy r) \<and>
     (rs_Tier r = ''dedicated'' \<and> rs_Durability r = DurabilityDurable \<or> rs_Tier r = ''shared'' \<and> rs_Durability r = DurabilityEphemeral) \<and>
     (\<forall>n. rs_ProtectionCadenceSeconds r = Some n \<longrightarrow> 0 < n) \<and>
     (rs_ProtectionWaivedBy r = [] \<and> rs_ProtectionWaiverReason r = [] \<and> rs_ProtectionWaivedAt r = None \<or>
      rs_ProtectionWaivedBy r \<noteq> [] \<and> rs_ProtectionWaiverReason r \<noteq> [] \<and> rs_ProtectionWaivedAt r \<noteq> None)"

definition point_ck :: "FleetResourceRecoveryPoint \<Rightarrow> bool" where
  "point_ck p \<longleftrightarrow> RecoveryPointLocations_IsValid (rp_Locations p) \<and>
     (rp_Locations p = RecoveryPointLocationsSecondDomain \<longrightarrow> rp_SecondDomainStore p \<noteq> [] \<and> rp_SecondDomainAt p \<noteq> None)"

definition beat_ck :: "ProtectionHeartbeat \<Rightarrow> bool" where
  "beat_ck b \<longleftrightarrow> pb_Component b = ProtectionComponentOffsite \<and> pb_Scope b = '''' \<or>
     pb_Component b = ProtectionComponentCadence \<and> pb_Scope b \<noteq> ''''"

definition same_resource_claim :: "FleetResource \<Rightarrow> FleetResource \<Rightarrow> bool" where
  "same_resource_claim a b \<longleftrightarrow> rs_OwnerOrg a = rs_OwnerOrg b \<and> rs_ClaimKey a = rs_ClaimKey b \<and> rs_Env a = rs_Env b"

record ledger =
  lg_resources :: "FleetResource list"
  lg_points :: "FleetResourceRecoveryPoint list"
  lg_beats :: "ProtectionHeartbeat list"

text \<open>Every column of the row with this id is written, or the row is inserted.  The checks are tried first, then the unique
  indexes in the order they were made.\<close>

definition save_resource :: "FleetResource \<Rightarrow> ledger \<Rightarrow> op_error + ledger" where
  "save_resource r db =
     (let others = filter (\<lambda>x. rs_ID x \<noteq> rs_ID r) (lg_resources db) in
      if \<not> resource_ck r then Inl (OpFleet ErrOther)
      else if \<exists>x \<in> set others. same_resource_claim x r then Inl (OpFleet ErrOther)
      else if rs_EndpointID r \<noteq> None \<and> (\<exists>x \<in> set others. rs_EndpointID x = rs_EndpointID r) then Inl (OpResource ErrEndpointTaken)
      else Inr (db\<lparr>lg_resources := (if \<exists>x \<in> set (lg_resources db). rs_ID x = rs_ID r
        then map (\<lambda>x. if rs_ID x = rs_ID r then r else x) (lg_resources db) else lg_resources db @ [r])\<rparr>))"

text \<open>An update of the row with this id through a function of the row.\<close>

definition update_resource :: "uuid \<Rightarrow> (FleetResource \<Rightarrow> FleetResource) \<Rightarrow> ledger \<Rightarrow> op_error + ledger" where
  "update_resource i f db =
     (if \<forall>x \<in> set (lg_resources db). rs_ID x \<noteq> i then Inl (OpResource ErrResourceNotFound)
      else Inr (db\<lparr>lg_resources := map (\<lambda>x. if rs_ID x = i then f x else x) (lg_resources db)\<rparr>))"

definition insert_point :: "FleetResourceRecoveryPoint \<Rightarrow> ledger \<Rightarrow> op_error + ledger" where
  "insert_point p db =
     (if point_ck p \<and> (\<forall>x \<in> set (lg_points db). rp_ID x \<noteq> rp_ID p) \<and> (\<exists>r \<in> set (lg_resources db). rs_ID r = rp_ResourceID p)
      then Inr (db\<lparr>lg_points := lg_points db @ [p]\<rparr>) else Inl (OpFleet ErrOther))"

definition update_point :: "uuid \<Rightarrow> (FleetResourceRecoveryPoint \<Rightarrow> FleetResourceRecoveryPoint) \<Rightarrow> ledger \<Rightarrow> op_error + ledger" where
  "update_point i f db =
     (if \<forall>x \<in> set (lg_points db). rp_ID x \<noteq> i then Inl (OpResource ErrRecoveryPointNotFound)
      else if \<exists>x \<in> set (lg_points db). rp_ID x = i \<and> \<not> point_ck (f x) then Inl (OpFleet ErrOther)
      else Inr (db\<lparr>lg_points := map (\<lambda>x. if rp_ID x = i then f x else x) (lg_points db)\<rparr>))"

definition upsert_beat :: "ProtectionHeartbeat \<Rightarrow> ledger \<Rightarrow> op_error + ledger" where
  "upsert_beat b db =
     (if \<not> beat_ck b then Inl (OpFleet ErrOther)
      else Inr (db\<lparr>lg_beats := b # filter (\<lambda>x. \<not> (pb_Component x = pb_Component b \<and> pb_Scope x = pb_Scope b)) (lg_beats db)\<rparr>))"

section \<open>Statements under faults\<close>

datatype ledger_stmt = StSave FleetResource | StPoint FleetResourceRecoveryPoint | StBeat ProtectionHeartbeat

fun exec_stmt :: "ledger_stmt \<Rightarrow> ledger \<Rightarrow> ledger" where
  "exec_stmt (StSave r) db = (case save_resource r db of Inl _ \<Rightarrow> db | Inr db' \<Rightarrow> db')"
| "exec_stmt (StPoint p) db = (case insert_point p db of Inl _ \<Rightarrow> db | Inr db' \<Rightarrow> db')"
| "exec_stmt (StBeat b) db = (case upsert_beat b db of Inl _ \<Rightarrow> db | Inr db' \<Rightarrow> db')"

record ledger_event =
  le_fault :: fault
  le_before :: "ledger_stmt list"

record 'e res_world =
  rw_db :: ledger
  rw_script :: "ledger_event list"
  rw_tick :: nat
  rw_env :: 'e

definition next_ledger_event :: "'e res_world \<Rightarrow> fault \<times> 'e res_world" where
  "next_ledger_event w =
     (case rw_script w of
        [] \<Rightarrow> (NoFault, w)
      | e # es \<Rightarrow> (le_fault e, w\<lparr>rw_db := fold exec_stmt (le_before e) (rw_db w), rw_script := es\<rparr>))"

definition lread :: "(ledger \<Rightarrow> 'a op_result) \<Rightarrow> 'e res_world \<Rightarrow> 'a op_result \<times> 'e res_world" where
  "lread q w0 = (case next_ledger_event w0 of (f, w) \<Rightarrow> (if f = NoFault then q (rw_db w) else Inl (OpFleet ErrOther), w))"

definition lwrite :: "(ledger \<Rightarrow> op_error + ledger) \<Rightarrow> 'e res_world \<Rightarrow> unit op_result \<times> 'e res_world" where
  "lwrite stmt w0 =
     (case next_ledger_event w0 of (f, w) \<Rightarrow>
        if f = LostCall then (Inl (OpFleet ErrOther), w)
        else (case stmt (rw_db w) of
            Inl e \<Rightarrow> (Inl e, w)
          | Inr db \<Rightarrow> (if f = NoFault then Inr () else Inl (OpFleet ErrOther), w\<lparr>rw_db := db\<rparr>)))"

definition first_resource :: "(FleetResource \<Rightarrow> bool) \<Rightarrow> FleetResource list \<Rightarrow> FleetResource op_result" where
  "first_resource P rs = (case find P rs of None \<Rightarrow> Inl (OpResource ErrResourceNotFound) | Some r \<Rightarrow> Inr r)"

definition SaveResource :: "FleetResource \<Rightarrow> 'e res_world \<Rightarrow> unit op_result \<times> 'e res_world" where
  "SaveResource r = lwrite (save_resource r)"

definition GetResourceByHandle :: "uuid \<Rightarrow> 'e res_world \<Rightarrow> FleetResource op_result \<times> 'e res_world" where
  "GetResourceByHandle i = lread (\<lambda>db. first_resource (\<lambda>r. rs_ID r = i) (lg_resources db))"

definition FindResource :: "uuid \<Rightarrow> string \<Rightarrow> string \<Rightarrow> 'e res_world \<Rightarrow> FleetResource op_result \<times> 'e res_world" where
  "FindResource ownerOrg claimKey env =
     lread (\<lambda>db. first_resource (\<lambda>r. rs_OwnerOrg r = ownerOrg \<and> rs_ClaimKey r = claimKey \<and> rs_Env r = env) (lg_resources db))"

definition live_claim :: "FleetResource \<Rightarrow> bool" where
  "live_claim r \<longleftrightarrow> rs_DecommissionedAt r = None \<and> rs_Phase r \<noteq> FleetResourcePhaseDecommissioned"

definition FindLiveResourceByApp :: "uuid \<Rightarrow> 'e res_world \<Rightarrow> FleetResource op_result \<times> 'e res_world" where
  "FindLiveResourceByApp appID =
     lread (\<lambda>db. first_resource (\<lambda>r. rs_AppID r = Some appID \<and> live_claim r)
       (sort_key (\<lambda>r. - rs_CreatedAt r) (lg_resources db)))"

definition UpdateResourcePhase :: "instant \<Rightarrow> uuid \<Rightarrow> FleetResourcePhase \<Rightarrow> 'e res_world \<Rightarrow> unit op_result \<times> 'e res_world" where
  "UpdateResourcePhase now i phase = lwrite (update_resource i (\<lambda>r. r\<lparr>rs_Phase := phase, rs_UpdatedAt := now\<rparr>))"

definition CompareAndSwapPhase ::
  "instant \<Rightarrow> uuid \<Rightarrow> FleetResourcePhase list \<Rightarrow> FleetResourcePhase \<Rightarrow> 'e res_world \<Rightarrow> bool op_result \<times> 'e res_world" where
  "CompareAndSwapPhase now i from to w0 =
     (if from = [] then (Inr False, w0)
      else case next_ledger_event w0 of (f, w) \<Rightarrow>
        if f = LostCall then (Inl (OpFleet ErrOther), w)
        else let hit = (\<exists>r \<in> set (lg_resources (rw_db w)). rs_ID r = i \<and> rs_Phase r \<in> set from);
                 db = (rw_db w)\<lparr>lg_resources := map (\<lambda>r. if rs_ID r = i \<and> rs_Phase r \<in> set from
                   then r\<lparr>rs_Phase := to, rs_UpdatedAt := now\<rparr> else r) (lg_resources (rw_db w))\<rparr> in
          (if f = NoFault then Inr hit else Inl (OpFleet ErrOther), w\<lparr>rw_db := db\<rparr>))"

definition SetResourceLastError :: "instant \<Rightarrow> uuid \<Rightarrow> string \<Rightarrow> 'e res_world \<Rightarrow> unit op_result \<times> 'e res_world" where
  "SetResourceLastError now i msg = lwrite (update_resource i (\<lambda>r. r\<lparr>rs_LastError := msg, rs_UpdatedAt := now\<rparr>))"

definition RecordSnapshotFailure :: "uuid \<Rightarrow> instant \<Rightarrow> string \<Rightarrow> 'e res_world \<Rightarrow> unit op_result \<times> 'e res_world" where
  "RecordSnapshotFailure i at cause =
     lwrite (update_resource i (\<lambda>r. r\<lparr>rs_ConsecutiveSnapshotFailures := rs_ConsecutiveSnapshotFailures r + 1,
       rs_LastSnapshotFailureAt := Some at, rs_LastSnapshotError := cause, rs_UpdatedAt := at\<rparr>))"

definition RecordSnapshotSuccess :: "uuid \<Rightarrow> instant \<Rightarrow> 'e res_world \<Rightarrow> unit op_result \<times> 'e res_world" where
  "RecordSnapshotSuccess i at =
     lwrite (update_resource i (\<lambda>r. r\<lparr>rs_ConsecutiveSnapshotFailures := 0, rs_LastSnapshotError := '''',
       rs_LastSnapshotSuccessAt := Some at, rs_UpdatedAt := at\<rparr>))"

definition ListResourcesByPhase :: "FleetResourcePhase \<Rightarrow> 'e res_world \<Rightarrow> FleetResource list op_result \<times> 'e res_world" where
  "ListResourcesByPhase phase =
     lread (\<lambda>db. Inr (sort_key rs_UpdatedAt (filter (\<lambda>r. rs_Phase r = phase \<and> rs_DecommissionedAt r = None) (lg_resources db))))"

definition expired_shared :: "instant \<Rightarrow> FleetResource \<Rightarrow> bool" where
  "expired_shared now r \<longleftrightarrow> rs_AppID r = None \<and> (\<exists>t. rs_ExpiresAt r = Some t \<and> t \<le> now) \<and> rs_DecommissionedAt r = None"

definition ListExpiredShared :: "instant \<Rightarrow> 'e res_world \<Rightarrow> FleetResource list op_result \<times> 'e res_world" where
  "ListExpiredShared now =
     lread (\<lambda>db. Inr (sort_key (\<lambda>r. the (rs_ExpiresAt r)) (filter (expired_shared now) (lg_resources db))))"

definition SaveRecoveryPoint :: "FleetResourceRecoveryPoint \<Rightarrow> 'e res_world \<Rightarrow> unit op_result \<times> 'e res_world" where
  "SaveRecoveryPoint p = lwrite (insert_point p)"

definition points_of :: "uuid \<Rightarrow> ledger \<Rightarrow> FleetResourceRecoveryPoint list" where
  "points_of i db = sort_key (\<lambda>p. - rp_CreatedAt p) (filter (\<lambda>p. rp_ResourceID p = i) (lg_points db))"

definition ListRecoveryPoints :: "uuid \<Rightarrow> 'e res_world \<Rightarrow> FleetResourceRecoveryPoint list op_result \<times> 'e res_world" where
  "ListRecoveryPoints i = lread (\<lambda>db. Inr (points_of i db))"

definition GetRecoveryPointByRef :: "uuid \<Rightarrow> string \<Rightarrow> 'e res_world \<Rightarrow> FleetResourceRecoveryPoint op_result \<times> 'e res_world" where
  "GetRecoveryPointByRef i objectKey =
     lread (\<lambda>db. case find (\<lambda>p. rp_ObjectKey p = objectKey) (points_of i db) of
        None \<Rightarrow> Inl (OpResource ErrRecoveryPointNotFound) | Some p \<Rightarrow> Inr p)"

definition ListRecoveryPointsToMirror :: "int \<Rightarrow> 'e res_world \<Rightarrow> FleetResourceRecoveryPoint list op_result \<times> 'e res_world" where
  "ListRecoveryPointsToMirror limit w =
     (if limit \<le> 0 then (Inr [], w)
      else lread (\<lambda>db. Inr (take (nat limit) (sort_key rp_CreatedAt
        (filter (\<lambda>p. rp_Locations p = RecoveryPointLocationsPrimaryOnly) (lg_points db))))) w)"

definition MarkRecoveryPointInSecondDomain ::
  "uuid \<Rightarrow> string \<Rightarrow> instant \<Rightarrow> 'e res_world \<Rightarrow> unit op_result \<times> 'e res_world" where
  "MarkRecoveryPointInSecondDomain i store at w0 =
     (if store = '''' then (Inl (OpFleet ErrOther), w0)
      else case next_ledger_event w0 of (f, w) \<Rightarrow>
        if f = LostCall then (Inl (OpFleet ErrOther), w)
        else let hits = (\<lambda>p. rp_ID p = i \<and> rp_Locations p \<noteq> RecoveryPointLocationsSecondDomain);
                 db = (rw_db w)\<lparr>lg_points := map (\<lambda>p. if hits p
                   then p\<lparr>rp_Locations := RecoveryPointLocationsSecondDomain, rp_SecondDomainStore := store,
                          rp_SecondDomainAt := Some at, rp_SecondDomainError := ''''\<rparr> else p) (lg_points (rw_db w))\<rparr>;
                 w1 = w\<lparr>rw_db := db\<rparr> in
          if f \<noteq> NoFault then (Inl (OpFleet ErrOther), w1)
          else if \<exists>p \<in> set (lg_points (rw_db w)). hits p then (Inr (), w1)
          else lread (\<lambda>db. if \<exists>p \<in> set (lg_points db). rp_ID p = i then Inr () else Inl (OpResource ErrRecoveryPointNotFound)) w1)"

definition RecordRecoveryPointMirrorFailure ::
  "uuid \<Rightarrow> string \<Rightarrow> 'e res_world \<Rightarrow> unit op_result \<times> 'e res_world" where
  "RecordRecoveryPointMirrorFailure i cause =
     lwrite (update_point i (\<lambda>p. p\<lparr>rp_SecondDomainError := cause, rp_SecondDomainAt := None\<rparr>))"

definition MarkRecoveryPointRestoredInPlace :: "uuid \<Rightarrow> 'e res_world \<Rightarrow> unit op_result \<times> 'e res_world" where
  "MarkRecoveryPointRestoredInPlace i = lwrite (update_point i (\<lambda>p. p\<lparr>rp_RestoredInPlaceOK := True\<rparr>))"

definition GetProtectionHeartbeat :: "string \<Rightarrow> string \<Rightarrow> 'e res_world \<Rightarrow> ProtectionHeartbeat op_result \<times> 'e res_world" where
  "GetProtectionHeartbeat component scope =
     lread (\<lambda>db. case find (\<lambda>b. pb_Component b = component \<and> pb_Scope b = scope) (lg_beats db) of
        None \<Rightarrow> Inl (OpResource ErrProtectionHeartbeatNotFound) | Some b \<Rightarrow> Inr b)"

definition UpsertProtectionHeartbeat ::
  "string \<Rightarrow> string \<Rightarrow> instant \<Rightarrow> string \<Rightarrow> 'e res_world \<Rightarrow> unit op_result \<times> 'e res_world" where
  "UpsertProtectionHeartbeat component scope at detail =
     lwrite (upsert_beat \<lparr>pb_Component = component, pb_Scope = scope, pb_BeatenAt = at, pb_Detail = detail\<rparr>)"

text \<open>The work list of the cadence worker; \<open>vols\<close> is the volume table, \<open>second\<close> the length of a second.\<close>

definition second :: int where "second = 1000000000"

definition due_snapshot :: "Volume list \<Rightarrow> uuid \<Rightarrow> instant \<Rightarrow> int \<Rightarrow> FleetResource \<Rightarrow> bool" where
  "due_snapshot vols selfHost now retryCooldown r \<longleftrightarrow>
     rs_Durability r = DurabilityDurable \<and> rs_Tier r = ''dedicated'' \<and> rs_AppID r \<noteq> None \<and> rs_DecommissionedAt r = None \<and>
     rs_Phase r \<noteq> FleetResourcePhaseDecommissioned \<and> rs_Phase r \<noteq> FleetResourcePhaseRestoring \<and>
     (case rs_ProtectionCadenceSeconds r of None \<Rightarrow> False
      | Some n \<Rightarrow> (case rs_LastSnapshotSuccessAt r of None \<Rightarrow> True | Some t \<Rightarrow> t < now - n * second)) \<and>
     (case rs_LastSnapshotFailureAt r of None \<Rightarrow> True | Some t \<Rightarrow> t < now - retryCooldown) \<and>
     (\<exists>v \<in> set vols. vo_ResourceID v = Some (rs_ID r)) \<and>
     (\<forall>v \<in> set vols. vo_ResourceID v = Some (rs_ID r) \<longrightarrow> vo_HostAffinity v = Some selfHost)"

definition nulls_first :: "FleetResource list \<Rightarrow> FleetResource list" where
  "nulls_first rs = filter (\<lambda>r. rs_LastSnapshotSuccessAt r = None) rs @
     sort_key (\<lambda>r. the (rs_LastSnapshotSuccessAt r)) (filter (\<lambda>r. rs_LastSnapshotSuccessAt r \<noteq> None) rs)"

definition ListResourcesDueSnapshot ::
  "('e \<Rightarrow> Volume list) \<Rightarrow> uuid \<Rightarrow> instant \<Rightarrow> int \<Rightarrow> int \<Rightarrow> 'e res_world \<Rightarrow> FleetResource list op_result \<times> 'e res_world" where
  "ListResourcesDueSnapshot vols selfHost now retryCooldown limit w =
     (if limit \<le> 0 then (Inr [], w)
      else lread (\<lambda>db. Inr (take (nat limit)
        (nulls_first (filter (due_snapshot (vols (rw_env w)) selfHost now retryCooldown) (lg_resources db))))) w)"

end
