(* ===== verification/Resource_Provision.thy ===== *)
theory Resource_Provision
  imports Resource_Ledger Fleet_Orchestrator
begin

text \<open>
  The control plane of dedicated databases (\<open>internal/usecase/fleet_resource_provision.go\<close>) and the evaluation of
  their protection (\<open>fleet_resource_protection.go\<close>), over the ledger and the ports the Go type takes: the
  app provisioner, the snapshotter, the volume stamping port, the host inventory, the volume affinities and the
  engine probe are functions on the world, an absent one is \<open>None\<close>.
\<close>

section \<open>Ports and inputs\<close>

definition resourceClassPostgres :: string where "resourceClassPostgres = ''postgres''"

definition resourceTierDedicated :: string where "resourceTierDedicated = ''dedicated''"

definition endpointMintAttempts :: nat where "endpointMintAttempts = 4"

definition and_then ::
  "'a op_result \<times> 'w \<Rightarrow> ('a \<Rightarrow> 'w \<Rightarrow> 'b op_result \<times> 'w) \<Rightarrow> 'b op_result \<times> 'w" where
  "and_then r k = (case r of (Inl e, w) \<Rightarrow> (Inl e, w) | (Inr x, w) \<Rightarrow> k x w)"

record ProvisionDescriptor = FleetProvisionInput +
  pd_Registry :: string
  pd_WorkloadClass :: ImageWorkloadClass
  pd_EnvVars :: "(string \<times> string) list"

record 'e FleetProvisioner =
  fv_Provision :: "ProvisionDescriptor \<Rightarrow> 'e res_world \<Rightarrow> string op_result \<times> 'e res_world"
  fv_Health :: "string \<Rightarrow> 'e res_world \<Rightarrow> FleetHealthOutput op_result \<times> 'e res_world"
  fv_Decommission :: "string \<Rightarrow> 'e res_world \<Rightarrow> unit op_result \<times> 'e res_world"

text \<open>The snapshotter returns its points and its error side by side.\<close>

type_synonym 'e VolumeSnapshotter =
  "uuid \<Rightarrow> uuid \<Rightarrow> 'e res_world \<Rightarrow> (FleetResourceRecoveryPoint list \<times> op_error option) \<times> 'e res_world"

record 'e ResourceVolumeBinder =
  rb_BindToResource :: "uuid \<Rightarrow> uuid \<Rightarrow> 'e res_world \<Rightarrow> unit op_result \<times> 'e res_world"
  rb_HasUnstampedVolumes :: "uuid \<Rightarrow> 'e res_world \<Rightarrow> bool op_result \<times> 'e res_world"

record DedicatedEngineConfig =
  de_Registry :: string
  de_Repository :: string
  de_Digest :: string
  de_ConnBudget :: int

record ProtectionConfig =
  pc_CadenceSeconds :: int
  pc_CadenceStaleness :: int
  pc_OffsiteStaleness :: int

record ProtectionWaiver =
  wv_Actor :: string
  wv_Reason :: string

record 'e FleetResourceProvisioner =
  up_provisioner :: "'e FleetProvisioner"
  up_replicas :: "uuid \<Rightarrow> 'e res_world \<Rightarrow> Replica list op_result \<times> 'e res_world"
  up_snapshotter :: "'e VolumeSnapshotter option"
  up_binder :: "'e ResourceVolumeBinder option"
  up_engine :: DedicatedEngineConfig
  up_naming :: EndpointNaming
  up_hosts :: "('e res_world \<Rightarrow> Host list op_result \<times> 'e res_world) option"
  up_facts :: bool
  up_affinity :: "(uuid \<Rightarrow> 'e res_world \<Rightarrow> Volume list op_result \<times> 'e res_world) option"
  up_protection :: ProtectionConfig
  up_now :: "nat \<Rightarrow> instant"
  up_newID :: "nat \<Rightarrow> uuid"
  up_entropy :: "nat \<Rightarrow> entropy"
  up_parse :: "string \<Rightarrow> uuid option"
  up_string :: "uuid \<Rightarrow> string"
  up_pgReady :: "(string \<Rightarrow> int \<Rightarrow> 'e res_world \<Rightarrow> bool) option"

record ProvisionDedicatedInput =
  di_OwnerOrg :: string
  di_ClaimKey :: string
  di_Env :: string
  di_Revision :: int
  di_Class :: string
  di_Tier :: string
  di_SystemID :: string
  di_SecretRefs :: "string list"
  di_VaultToken :: string
  di_SizeMB :: int
  di_AvailabilityClass :: string
  di_Durability :: string
  di_Waiver :: "ProtectionWaiver option"

record ProvisionDedicatedOutput =
  do_Handle :: string
  do_Phase :: FleetResourcePhase

definition uc_now :: "'e FleetResourceProvisioner \<Rightarrow> 'e res_world \<Rightarrow> instant \<times> 'e res_world" where
  "uc_now uc w = (up_now uc (rw_tick w), w\<lparr>rw_tick := Suc (rw_tick w)\<rparr>)"

section \<open>Protection\<close>

record ProtectionComponentResult =
  cr_Component :: string
  cr_Scope :: string
  cr_Attached :: bool
  cr_Err :: "resource_error option"

record ProtectionEvaluation =
  ev_Cadence :: ProtectionComponentResult
  ev_Offsite :: ProtectionComponentResult

definition ProtectionEvaluation_Attached :: "ProtectionEvaluation \<Rightarrow> bool" where
  "ProtectionEvaluation_Attached e \<longleftrightarrow> cr_Attached (ev_Cadence e) \<and> cr_Attached (ev_Offsite e)"

text \<open>The joined refusal: the errors of every component that could not attach, none when all did.\<close>

definition ProtectionEvaluation_Err :: "ProtectionEvaluation \<Rightarrow> resource_error list" where
  "ProtectionEvaluation_Err e =
     (let failures = List.map_filter (\<lambda>r. if cr_Attached r then None else cr_Err r) [ev_Cadence e, ev_Offsite e] in
      if failures = [] then [] else ErrProtectionUnattachable # failures)"

record cadenceScopes =
  cs_hosts :: "string list"
  cs_failed :: bool

fun cadence_beats ::
  "'e FleetResourceProvisioner \<Rightarrow> instant \<Rightarrow> string list \<Rightarrow> 'e res_world \<Rightarrow> string option \<times> 'e res_world" where
  "cadence_beats uc now [] w = (None, w)"
| "cadence_beats uc now (h # hs) w =
     (case GetProtectionHeartbeat ProtectionComponentCadence h w of
        (Inl e, w1) \<Rightarrow> (Some h, w1)
      | (Inr b, w1) \<Rightarrow>
          if IsFreshAt b now (pc_CadenceStaleness (up_protection uc)) then cadence_beats uc now hs w1 else (Some h, w1))"

definition evaluateCadence ::
  "'e FleetResourceProvisioner \<Rightarrow> cadenceScopes \<Rightarrow> int \<Rightarrow> 'e res_world \<Rightarrow> ProtectionComponentResult \<times> 'e res_world" where
  "evaluateCadence uc scopes enrolled w =
     (let failed = \<lparr>cr_Component = ProtectionComponentCadence, cr_Scope = '''', cr_Attached = False,
                    cr_Err = Some ErrProtectionCadenceUnavailable\<rparr> in
      if enrolled \<le> 0 then (failed, w)
      else if \<not> up_facts uc then (failed, w)
      else if cs_failed scopes then (failed, w)
      else if cs_hosts scopes = [] then (failed, w)
      else case uc_now uc w of (now, w1) \<Rightarrow>
        (case cadence_beats uc now (cs_hosts scopes) w1 of
           (Some h, w2) \<Rightarrow> (failed\<lparr>cr_Scope := h\<rparr>, w2)
         | (None, w2) \<Rightarrow> (\<lparr>cr_Component = ProtectionComponentCadence,
             cr_Scope = (if length (cs_hosts scopes) = 1 then hd (cs_hosts scopes) else ''''), cr_Attached = True, cr_Err = None\<rparr>, w2)))"

definition evaluateOffsite ::
  "'e FleetResourceProvisioner \<Rightarrow> 'e res_world \<Rightarrow> ProtectionComponentResult \<times> 'e res_world" where
  "evaluateOffsite uc w =
     (let failed = \<lparr>cr_Component = ProtectionComponentOffsite, cr_Scope = ProtectionScopePlatform, cr_Attached = False,
                    cr_Err = Some ErrProtectionOffsiteUnproven\<rparr> in
      if \<not> up_facts uc then (failed, w)
      else case GetProtectionHeartbeat ProtectionComponentOffsite ProtectionScopePlatform w of
        (Inl e, w1) \<Rightarrow> (failed, w1)
      | (Inr b, w1) \<Rightarrow>
          (case uc_now uc w1 of (now, w2) \<Rightarrow>
             if IsFreshAt b now (pc_OffsiteStaleness (up_protection uc))
             then (failed\<lparr>cr_Attached := True, cr_Err := None\<rparr>, w2) else (failed, w2)))"

definition evaluateProtection ::
  "'e FleetResourceProvisioner \<Rightarrow> cadenceScopes \<Rightarrow> int \<Rightarrow> 'e res_world \<Rightarrow> ProtectionEvaluation \<times> 'e res_world" where
  "evaluateProtection uc scopes enrolled w =
     (case evaluateCadence uc scopes enrolled w of (c, w1) \<Rightarrow>
        (case evaluateOffsite uc w1 of (p, w2) \<Rightarrow> (\<lparr>ev_Cadence = c, ev_Offsite = p\<rparr>, w2)))"

definition unknown_scopes :: cadenceScopes where
  "unknown_scopes = \<lparr>cs_hosts = [], cs_failed = True\<rparr>"

definition acceptScopes :: "'e FleetResourceProvisioner \<Rightarrow> 'e res_world \<Rightarrow> cadenceScopes \<times> 'e res_world" where
  "acceptScopes uc w =
     (case up_hosts uc of
        None \<Rightarrow> (unknown_scopes, w)
      | Some list_live \<Rightarrow> (case list_live w of
          (Inl e, w1) \<Rightarrow> (unknown_scopes, w1)
        | (Inr live, w1) \<Rightarrow> (if live = [] then unknown_scopes
            else \<lparr>cs_hosts = map (\<lambda>h. up_string uc (ho_ID h)) live, cs_failed = False\<rparr>, w1)))"

definition statusScopes :: "'e FleetResourceProvisioner \<Rightarrow> FleetResource \<Rightarrow> 'e res_world \<Rightarrow> cadenceScopes \<times> 'e res_world" where
  "statusScopes uc res w =
     (case up_affinity uc of
        None \<Rightarrow> (unknown_scopes, w)
      | Some list_volumes \<Rightarrow> (case list_volumes (rs_ID res) w of
          (Inl e, w1) \<Rightarrow> (unknown_scopes, w1)
        | (Inr vols, w1) \<Rightarrow>
            (if \<exists>v \<in> set vols. vo_HostAffinity v = None then unknown_scopes
             else (case remdups (map (\<lambda>v. the (vo_HostAffinity v)) vols) of
                 [h] \<Rightarrow> \<lparr>cs_hosts = [up_string uc h], cs_failed = False\<rparr>
               | _ \<Rightarrow> unknown_scopes), w1)))"

definition resolveDedicatedDurability :: "string \<Rightarrow> op_error + Durability" where
  "resolveDedicatedDurability requested =
     (if requested = '''' \<or> requested = ''durable'' then Inr DurabilityDurable else Inl (OpResource ErrResourceDurabilityInvalid))"

definition resolveSharedDurability :: "string \<Rightarrow> op_error + Durability" where
  "resolveSharedDurability requested =
     (if requested = '''' \<or> requested = ''ephemeral'' then Inr DurabilityEphemeral else Inl (OpResource ErrResourceDurabilityInvalid))"

definition normalizeWaiver :: "ProtectionWaiver option \<Rightarrow> op_error + ProtectionWaiver option" where
  "normalizeWaiver wv =
     (case wv of None \<Rightarrow> Inr None
      | Some x \<Rightarrow> if wv_Actor x = '''' \<or> wv_Reason x = '''' then Inl (OpResource ErrProtectionWaiverIncomplete) else Inr (Some x))"

definition attachProtection ::
  "'e FleetResourceProvisioner \<Rightarrow> Durability \<Rightarrow> ProtectionWaiver option \<Rightarrow> 'e res_world \<Rightarrow> int option op_result \<times> 'e res_world" where
  "attachProtection uc durability waiver w =
     (if durability \<noteq> DurabilityDurable then (Inr None, w)
      else case acceptScopes uc w of (scopes, w1) \<Rightarrow>
        (case evaluateProtection uc scopes (pc_CadenceSeconds (up_protection uc)) w1 of (eval, w2) \<Rightarrow>
           if ProtectionEvaluation_Err eval \<noteq> [] \<and> waiver = None then (Inl (OpResource ErrProtectionUnattachable), w2)
           else (Inr (if cr_Attached (ev_Cadence eval) then Some (pc_CadenceSeconds (up_protection uc)) else None), w2)))"

definition attachOnRecover :: "'e FleetResourceProvisioner \<Rightarrow> FleetResource \<Rightarrow> 'e res_world \<Rightarrow> 'e res_world" where
  "attachOnRecover uc res w =
     (if rs_Durability res \<noteq> DurabilityDurable \<or> rs_ProtectionAttachedAt res \<noteq> None \<or> rs_ProtectionWaivedBy res \<noteq> '''' then w
      else case statusScopes uc res w of (scopes, w1) \<Rightarrow>
        (case evaluateProtection uc scopes (pc_CadenceSeconds (up_protection uc)) w1 of (eval, w2) \<Rightarrow>
           if ProtectionEvaluation_Err eval \<noteq> [] then w2
           else case uc_now uc w2 of (now, w3) \<Rightarrow>
             snd (SaveResource (res\<lparr>rs_ProtectionCadenceSeconds := Some (pc_CadenceSeconds (up_protection uc)),
               rs_ProtectionAttachedAt := Some now, rs_UpdatedAt := now\<rparr>) w3)))"

section \<open>Provisioning\<close>

definition AvailabilityClass_of :: "string \<Rightarrow> AvailabilityClass" where
  "AvailabilityClass_of s =
     (if s = ''single'' then AvailabilityClassSingle else if s = ''ha'' then AvailabilityClassHA else AvailabilityClassOther s)"

definition resolveAvailability ::
  "'e FleetResourceProvisioner \<Rightarrow> string \<Rightarrow> 'e res_world \<Rightarrow> AvailabilityClass op_result \<times> 'e res_world" where
  "resolveAvailability uc requested w =
     (let class = AvailabilityClass_of requested in
      if requested = '''' then (Inr AvailabilityClassSingle, w)
      else if \<not> AvailabilityClass_IsValid class then (Inl (OpFleet ErrHAAvailabilityClassInvalid), w)
      else if class \<noteq> AvailabilityClassHA then (Inr class, w)
      else case up_hosts uc of
        None \<Rightarrow> (Inl (OpFleet ErrHAPlacementUnknowable), w)
      | Some list_live \<Rightarrow> (case list_live w of
          (Inl e, w1) \<Rightarrow> (Inl (OpFleet ErrHAPlacementUnknowable), w1)
        | (Inr live, w1) \<Rightarrow> (case RequireHAPlacement live of Inl e \<Rightarrow> (Inl (OpFleet e), w1) | Inr _ \<Rightarrow> (Inr class, w1))))"

definition dedicatedDescriptor :: "'e FleetResourceProvisioner \<Rightarrow> ProvisionDedicatedInput \<Rightarrow> ProvisionDescriptor" where
  "dedicatedDescriptor uc i =
     \<lparr>fp_ComponentID = ''resource/'' @ di_OwnerOrg i @ ''/'' @ di_ClaimKey i, fp_Env = di_Env i, fp_OwnerOrg = di_OwnerOrg i,
      fp_Repository = de_Repository (up_engine uc), fp_Digest = de_Digest (up_engine uc), fp_VCPU = 0, fp_MemoryMB = 0,
      fp_SecretRefs = di_SecretRefs i, fp_Port = residentPGPort, fp_SystemID = di_SystemID i,
      fp_Volumes = [\<lparr>vs_ID = 0, vs_SizeMB = di_SizeMB i, vs_MountPath = ''/data''\<rparr>], fp_ScaleToZero = False, fp_IdleTTLSeconds = 0,
      fp_MinReplicas = 1, fp_MaxReplicas = 1, fp_VaultToken = di_VaultToken i, fp_RegistryPullToken = '''',
      fp_ResourceClass = resourceClassPostgres, pd_Registry = de_Registry (up_engine uc),
      pd_WorkloadClass = ImageWorkloadClassResident, pd_EnvVars = [(''PGDATA'', ''/data/pgdata'')]\<rparr>"

text \<open>The checks before anything is read or created, in their order.\<close>

definition validate_dedicated ::
  "'e FleetResourceProvisioner \<Rightarrow> ProvisionDedicatedInput \<Rightarrow>
   op_error + (Durability \<times> ProtectionWaiver option \<times> uuid \<times> 'e ResourceVolumeBinder)" where
  "validate_dedicated uc i =
     (if di_Class i \<noteq> resourceClassPostgres then Inl (OpResource ErrResourceClassUnsupported)
      else if di_Tier i \<noteq> resourceTierDedicated then Inl (OpResource ErrResourceTierUnsupported)
      else case up_binder uc of None \<Rightarrow> Inl (OpFleet ErrOther) | Some bnd \<Rightarrow>
      (case resolveDedicatedDurability (di_Durability i) of Inl e \<Rightarrow> Inl e | Inr durability \<Rightarrow>
       (case normalizeWaiver (di_Waiver i) of Inl e \<Rightarrow> Inl e | Inr waiver \<Rightarrow>
        if di_OwnerOrg i = '''' then Inl (OpResource ErrResourceOwnerOrgRequired)
        else case up_parse uc (di_OwnerOrg i) of None \<Rightarrow> Inl (OpFleet ErrOther) | Some owner \<Rightarrow>
         if di_ClaimKey i = '''' then Inl (OpResource ErrResourceClaimKeyRequired)
         else if di_SecretRefs i = [] then Inl (OpResource ErrResourceSecretsRequired)
         else if di_VaultToken i = '''' then Inl (OpResource ErrResourceVaultTokenRequired)
         else if de_Registry (up_engine uc) = '''' \<or> de_Repository (up_engine uc) = '''' \<or> de_Digest (up_engine uc) = ''''
         then Inl (OpWorkload ErrImageRefIncomplete)
         else case EndpointNaming_Validate (up_naming uc) of Some e \<Rightarrow> Inl (OpResource e)
          | None \<Rightarrow> Inr (durability, waiver, owner, bnd))))"

definition accepted_claim ::
  "ProvisionDedicatedInput \<Rightarrow> uuid \<Rightarrow> uuid \<Rightarrow> uuid \<Rightarrow> int \<Rightarrow> AvailabilityClass \<Rightarrow> Durability \<Rightarrow> int option \<Rightarrow> ProtectionWaiver option \<Rightarrow>
   instant \<Rightarrow> FleetResource" where
  "accepted_claim i rid owner app revision availability durability cadence waiver now =
     \<lparr>rs_ID = rid, rs_OwnerOrg = owner, rs_ClaimKey = di_ClaimKey i, rs_Env = di_Env i, rs_Revision = revision,
      rs_Class = resourceClassPostgres, rs_Tier = resourceTierDedicated, rs_Phase = FleetResourcePhaseProvisioning,
      rs_AppID = Some app, rs_DBName = '''', rs_RoleName = '''', rs_Endpoint = '''', rs_EndpointID = None, rs_Region = '''',
      rs_Generation = FleetResourceInitialGeneration, rs_AvailabilityClass = availability,
      rs_SyncDegradePolicy = SyncDegradePolicyFailClosed, rs_Durability = durability, rs_ProtectionCadenceSeconds = cadence,
      rs_ProtectionAttachedAt = (if durability = DurabilityDurable \<and> waiver = None then Some now else None),
      rs_ProtectionWaivedBy = (case waiver of Some x \<Rightarrow> if durability = DurabilityDurable then wv_Actor x else '''' | None \<Rightarrow> ''''),
      rs_ProtectionWaiverReason = (case waiver of Some x \<Rightarrow> if durability = DurabilityDurable then wv_Reason x else '''' | None \<Rightarrow> ''''),
      rs_ProtectionWaivedAt = (if durability = DurabilityDurable \<and> waiver \<noteq> None then Some now else None),
      rs_SecretRefs = di_SecretRefs i, rs_SystemID = di_SystemID i, rs_LastError = '''', rs_ConsecutiveSnapshotFailures = 0,
      rs_LastSnapshotFailureAt = None, rs_LastSnapshotError = '''', rs_LastSnapshotSuccessAt = None, rs_ExpiresAt = None,
      rs_CreatedAt = now, rs_UpdatedAt = now, rs_DecommissionedAt = None\<rparr>"

definition claim_output :: "'e FleetResourceProvisioner \<Rightarrow> FleetResource \<Rightarrow> ProvisionDedicatedOutput" where
  "claim_output uc r = \<lparr>do_Handle = up_string uc (rs_ID r), do_Phase = rs_Phase r\<rparr>"

definition adopt_winner ::
  "'e FleetResourceProvisioner \<Rightarrow> 'e ResourceVolumeBinder \<Rightarrow> FleetResource \<Rightarrow> op_error \<Rightarrow> 'e res_world \<Rightarrow>
   ProvisionDedicatedOutput op_result \<times> 'e res_world" where
  "adopt_winner uc bnd res saveErr w =
     (case FindResource (rs_OwnerOrg res) (rs_ClaimKey res) (rs_Env res) w of
        (Inl e, w1) \<Rightarrow> (Inl saveErr, w1)
      | (Inr winner, w1) \<Rightarrow>
          (case rs_AppID winner of
             None \<Rightarrow> (Inr (claim_output uc winner), w1)
           | Some app \<Rightarrow> and_then (rb_BindToResource bnd app (rs_ID winner) w1) (\<lambda>_ w2. (Inr (claim_output uc winner), w2))))"

fun mint_and_save ::
  "nat \<Rightarrow> 'e FleetResourceProvisioner \<Rightarrow> 'e ResourceVolumeBinder \<Rightarrow> uuid \<Rightarrow> FleetResource \<Rightarrow> 'e res_world \<Rightarrow>
   ProvisionDedicatedOutput op_result \<times> 'e res_world" where
  "mint_and_save 0 uc bnd app res w = (Inl (OpResource ErrEndpointMintExhausted), w)"
| "mint_and_save (Suc n) uc bnd app res w =
     (case mint (up_entropy uc (rw_tick w)) (up_naming uc) of
        Inl e \<Rightarrow> (Inl (OpResource e), w\<lparr>rw_tick := Suc (rw_tick w)\<rparr>)
      | Inr ep \<Rightarrow>
          (let res1 = res\<lparr>rs_EndpointID := Some (ep_id ep), rs_Region := ep_region ep\<rparr> in
           case SaveResource res1 (w\<lparr>rw_tick := Suc (rw_tick w)\<rparr>) of
             (Inr _, w1) \<Rightarrow> and_then (rb_BindToResource bnd app (rs_ID res1) w1) (\<lambda>_ w2. (Inr (claim_output uc res1), w2))
           | (Inl e, w1) \<Rightarrow>
               if e = OpResource ErrEndpointTaken then mint_and_save n uc bnd app res1 w1
               else adopt_winner uc bnd res1 e w1))"

definition create_dedicated ::
  "'e FleetResourceProvisioner \<Rightarrow> 'e ResourceVolumeBinder \<Rightarrow> ProvisionDedicatedInput \<Rightarrow> uuid \<Rightarrow> int \<Rightarrow> AvailabilityClass \<Rightarrow>
   Durability \<Rightarrow> ProtectionWaiver option \<Rightarrow> 'e res_world \<Rightarrow> ProvisionDedicatedOutput op_result \<times> 'e res_world" where
  "create_dedicated uc bnd i owner revision availability durability waiver w =
     and_then (attachProtection uc durability waiver w) (\<lambda>cadence w1.
     and_then (fv_Provision (up_provisioner uc) (dedicatedDescriptor uc i) w1) (\<lambda>handle w2.
       case up_parse uc handle of
         None \<Rightarrow> (Inl (OpFleet ErrOther), w2)
       | Some app \<Rightarrow>
           (case uc_now uc w2 of (now, w3) \<Rightarrow>
              mint_and_save endpointMintAttempts uc bnd app
                (accepted_claim i (up_newID uc (rw_tick w3)) owner app revision availability durability cadence waiver now)
                (w3\<lparr>rw_tick := Suc (rw_tick w3)\<rparr>))))"

definition recoverExisting ::
  "'e FleetResourceProvisioner \<Rightarrow> FleetResource \<Rightarrow> ProvisionDedicatedInput \<Rightarrow> 'e res_world \<Rightarrow> 'e res_world" where
  "recoverExisting uc res i w =
     (if rs_Phase res = FleetResourcePhaseDecommissioned then w
      else case rs_AppID res of
        None \<Rightarrow> w
      | Some app \<Rightarrow> (case fv_Health (up_provisioner uc) (up_string uc app) w of
          (Inl e, w1) \<Rightarrow> w1
        | (Inr _, w1) \<Rightarrow> (case fv_Provision (up_provisioner uc) (dedicatedDescriptor uc i) w1 of
            (Inl e, w2) \<Rightarrow> w2
          | (Inr _, w2) \<Rightarrow> (case up_binder uc of
              None \<Rightarrow> w2
            | Some bnd \<Rightarrow> snd (rb_BindToResource bnd app (rs_ID res) w2)))))"

definition ProvisionDedicated ::
  "'e FleetResourceProvisioner \<Rightarrow> ProvisionDedicatedInput \<Rightarrow> 'e res_world \<Rightarrow> ProvisionDedicatedOutput op_result \<times> 'e res_world" where
  "ProvisionDedicated uc i w =
     (case validate_dedicated uc i of
        Inl e \<Rightarrow> (Inl e, w)
      | Inr (durability, waiver, owner, bnd) \<Rightarrow>
          and_then (resolveAvailability uc (di_AvailabilityClass i) w) (\<lambda>availability w1.
            let revision = (if di_Revision i \<le> 0 then 1 else di_Revision i) in
            case FindResource owner (di_ClaimKey i) (di_Env i) w1 of
              (Inr existing, w2) \<Rightarrow>
                if rs_Revision existing = revision
                then (Inr (claim_output uc existing), recoverExisting uc existing i (attachOnRecover uc existing w2))
                else (Inl (OpResource ErrResourceConvergeNotSupported), w2)
            | (Inl e, w2) \<Rightarrow>
                if e = OpResource ErrResourceNotFound
                then create_dedicated uc bnd i owner revision availability durability waiver w2
                else (Inl e, w2)))"

section \<open>Status\<close>

definition conditionBackingAppMissing :: string where "conditionBackingAppMissing = ''backing-app-missing''"

definition conditionHealthUnavailable :: string where "conditionHealthUnavailable = ''health-unavailable''"

definition conditionEngineNotAdmitting :: string where "conditionEngineNotAdmitting = ''engine-not-admitting''"

definition conditionSnapshotFailing :: string where "conditionSnapshotFailing = ''snapshot-failing''"

definition conditionVolumeOwnershipUnstamped :: string where "conditionVolumeOwnershipUnstamped = ''volume-ownership-unstamped''"

definition conditionProtectionOffsiteUnavailable :: string where
  "conditionProtectionOffsiteUnavailable = ''protection-offsite-unavailable''"

definition conditionProtectionCadenceUnattached :: string where
  "conditionProtectionCadenceUnattached = ''protection-cadence-unattached''"

definition conditionProtectionCadenceStalled :: string where "conditionProtectionCadenceStalled = ''protection-cadence-stalled''"

definition conditionProtectionWaived :: string where "conditionProtectionWaived = ''protection-waived''"

record ResourceStatus =
  st_Handle :: string
  st_Phase :: FleetResourcePhase
  st_Tier :: string
  st_Endpoint :: string
  st_SecretRefs :: "string list"
  st_ConnBudget :: int
  st_Conditions :: "string list"
  st_LastRecoveryPoint :: "FleetResourceRecoveryPoint option"

definition healthCondition :: "op_error \<Rightarrow> string" where
  "healthCondition e =
     (if e = OpWorkload ErrWorkloadNotFound \<or> e = OpFleet ErrFleetAppNotFound then conditionBackingAppMissing
      else conditionHealthUnavailable)"

definition volumeOwnershipUnstamped :: "'e FleetResourceProvisioner \<Rightarrow> uuid \<Rightarrow> 'e res_world \<Rightarrow> bool \<times> 'e res_world" where
  "volumeOwnershipUnstamped uc app w =
     (case up_binder uc of
        None \<Rightarrow> (True, w)
      | Some bnd \<Rightarrow> (case rb_HasUnstampedVolumes bnd app w of (Inl e, w1) \<Rightarrow> (True, w1) | (Inr b, w1) \<Rightarrow> (b, w1)))"

fun probe_residents :: "(string \<Rightarrow> int \<Rightarrow> bool) \<Rightarrow> Replica list \<Rightarrow> nat option" where
  "probe_residents ready [] = Some 0"
| "probe_residents ready (r # rs) =
     (if re_State r \<noteq> ReplicaStateResident then probe_residents ready rs
      else if re_GuestIP r = '''' \<or> re_Port r \<le> 0 then None
      else if \<not> ready (re_GuestIP r) (re_Port r) then None
      else map_option Suc (probe_residents ready rs))"

definition engineAdmits :: "'e FleetResourceProvisioner \<Rightarrow> Replica list op_result \<Rightarrow> 'e res_world \<Rightarrow> bool" where
  "engineAdmits uc reps w =
     (case up_pgReady uc of
        None \<Rightarrow> False
      | Some ready \<Rightarrow> (case reps of
          Inl e \<Rightarrow> False
        | Inr rs \<Rightarrow> (case probe_residents (\<lambda>ip port. ready ip port w) rs of None \<Rightarrow> False | Some n \<Rightarrow> n \<noteq> 0)))"

definition residentEndpointOf :: "Replica list \<Rightarrow> string" where
  "residentEndpointOf rs =
     (case find (\<lambda>r. re_State r = ReplicaStateResident \<and> re_GuestIP r \<noteq> '''') rs of
        None \<Rightarrow> '''' | Some r \<Rightarrow> re_GuestIP r @ '':'' @ show_int residentPGPort)"

definition protectionConditions ::
  "'e FleetResourceProvisioner \<Rightarrow> FleetResource \<Rightarrow> 'e res_world \<Rightarrow> string list \<times> 'e res_world" where
  "protectionConditions uc res w =
     (if rs_Durability res \<noteq> DurabilityDurable \<or> rs_Phase res = FleetResourcePhaseDecommissioned then ([], w)
      else let enrolled = (case rs_ProtectionCadenceSeconds res of None \<Rightarrow> 0 | Some n \<Rightarrow> n) in
        (case statusScopes uc res w of (scopes, w1) \<Rightarrow>
           (case evaluateProtection uc scopes enrolled w1 of (eval, w2) \<Rightarrow>
              ((if rs_ProtectionWaivedBy res \<noteq> '''' then [conditionProtectionWaived] else []) @
               (if \<not> cr_Attached (ev_Offsite eval) then [conditionProtectionOffsiteUnavailable] else []) @
               (if rs_ProtectionCadenceSeconds res = None then [conditionProtectionCadenceUnattached]
                else if \<not> cr_Attached (ev_Cadence eval) then [conditionProtectionCadenceStalled] else []), w2))))"

text \<open>The block of a live dedicated claim: the phase to report, its conditions and the private endpoint.\<close>

definition live_status ::
  "'e FleetResourceProvisioner \<Rightarrow> FleetResource \<Rightarrow> uuid \<Rightarrow> 'e res_world \<Rightarrow> (FleetResourcePhase \<times> string list \<times> string) \<times> 'e res_world" where
  "live_status uc res app w =
     (case volumeOwnershipUnstamped uc app w of (unstamped, w1) \<Rightarrow>
      (case fv_Health (up_provisioner uc) (up_string uc app) w1 of (h, w2) \<Rightarrow>
       (case up_replicas uc app w2 of (reps, w3) \<Rightarrow>
        let phase0 = (if unstamped then FleetResourcePhaseDegraded else rs_Phase res);
            conds0 = (if unstamped then [conditionVolumeOwnershipUnstamped] else []) @
                     (case h of Inl e \<Rightarrow> [healthCondition e] | Inr _ \<Rightarrow> []);
            ep = (case reps of Inl _ \<Rightarrow> '''' | Inr rs \<Rightarrow> residentEndpointOf rs);
            endpoint = (if ep \<noteq> '''' then ep else rs_Endpoint res);
            healthy = (case h of Inl _ \<Rightarrow> False | Inr out \<Rightarrow> fh_Healthy out) in
        if \<not> unstamped \<and> healthy \<and> rs_Phase res \<noteq> FleetResourcePhaseRestoring then
          (if engineAdmits uc reps w3 then
             ((FleetResourcePhaseReady, conds0, endpoint),
              if rs_Phase res \<noteq> FleetResourcePhaseReady
              then snd (UpdateResourcePhase (up_now uc (rw_tick w3)) (rs_ID res) FleetResourcePhaseReady (w3\<lparr>rw_tick := Suc (rw_tick w3)\<rparr>))
              else w3)
           else ((FleetResourcePhaseDegraded, conds0 @ [conditionEngineNotAdmitting], endpoint), w3))
        else ((phase0, conds0, endpoint), w3))))"

definition StatusOf :: "'e FleetResourceProvisioner \<Rightarrow> uuid \<Rightarrow> 'e res_world \<Rightarrow> ResourceStatus op_result \<times> 'e res_world" where
  "StatusOf uc resourceID w =
     and_then (GetResourceByHandle resourceID w) (\<lambda>res w1.
       case (case rs_AppID res of
               Some app \<Rightarrow> if rs_Tier res = resourceTierDedicated \<and> rs_Phase res \<noteq> FleetResourcePhaseDecommissioned
                 then live_status uc res app w1 else ((rs_Phase res, [], rs_Endpoint res), w1)
             | None \<Rightarrow> ((rs_Phase res, [], rs_Endpoint res), w1)) of
         ((phase, conds, endpoint), w2) \<Rightarrow>
           (case protectionConditions uc res w2 of (prot, w3) \<Rightarrow>
              (case ListRecoveryPoints (rs_ID res) w3 of (rps, w4) \<Rightarrow>
                 (Inr \<lparr>st_Handle = up_string uc (rs_ID res), st_Phase = phase, st_Tier = rs_Tier res, st_Endpoint = endpoint,
                    st_SecretRefs = rs_SecretRefs res, st_ConnBudget = de_ConnBudget (up_engine uc),
                    st_Conditions = conds @
                      (if 0 < rs_ConsecutiveSnapshotFailures res \<and> rs_Phase res \<noteq> FleetResourcePhaseDecommissioned
                       then [conditionSnapshotFailing] else []) @ prot,
                    st_LastRecoveryPoint = (case rps of Inr (p # _) \<Rightarrow> Some p | _ \<Rightarrow> None)\<rparr>, w4))))"

section \<open>Decommission\<close>

text \<open>The recovery point a teardown leaves behind, or the refusal.\<close>

definition final_point ::
  "'e FleetResourceProvisioner \<Rightarrow> FleetResource \<Rightarrow> 'e res_world \<Rightarrow> FleetResourceRecoveryPoint op_result \<times> 'e res_world" where
  "final_point uc res w =
     (case up_snapshotter uc of
        None \<Rightarrow> (Inl (OpResource ErrResourceFinalSnapshotRequired), w)
      | Some snap \<Rightarrow> (case rs_AppID res of
          None \<Rightarrow> (Inl (OpFleet ErrOther), w)
        | Some app \<Rightarrow> (case snap (rs_ID res) app w of ((points, serr), w1) \<Rightarrow>
            let backingGone = (serr = Some (OpResource ErrVolumeBackingFileMissing)) in
            if serr \<noteq> None \<and> \<not> backingGone then (Inl (the serr), w1)
            else (case (if backingGone then [] else points) of
                p # _ \<Rightarrow> (Inr p, w1)
              | [] \<Rightarrow> (case ListRecoveryPoints (rs_ID res) w1 of
                  (Inl e, w2) \<Rightarrow> (Inl e, w2)
                | (Inr [], w2) \<Rightarrow> (Inl (OpResource ErrResourceFinalSnapshotRequired), w2)
                | (Inr (p # _), w2) \<Rightarrow> (Inr p, w2))))))"

text \<open>The teardown of the backing app, with the roll-back of the intent stamp.\<close>

definition drop_app ::
  "'e FleetResourceProvisioner \<Rightarrow> FleetResource \<Rightarrow> bool \<Rightarrow> 'e res_world \<Rightarrow> unit op_result \<times> 'e res_world" where
  "drop_app uc res intentStamped w =
     (case rs_AppID res of
        None \<Rightarrow> (Inr (), w)
      | Some app \<Rightarrow> (case fv_Decommission (up_provisioner uc) (up_string uc app) w of
          (Inr _, w1) \<Rightarrow> (Inr (), w1)
        | (Inl e, w1) \<Rightarrow>
            if e = OpWorkload ErrWorkloadNotFound \<or> e = OpFleet ErrFleetAppNotFound then (Inr (), w1)
            else (Inl e, if intentStamped
              then (case uc_now uc w1 of (now, w2) \<Rightarrow> snd (SaveResource (res\<lparr>rs_DecommissionedAt := None, rs_UpdatedAt := now\<rparr>) w2))
              else w1)))"

text \<open>From the intent stamp to the tombstone.\<close>

definition tear_down ::
  "'e FleetResourceProvisioner \<Rightarrow> FleetResource \<Rightarrow> 'e res_world \<Rightarrow> unit op_result \<times> 'e res_world" where
  "tear_down uc res w =
     (case uc_now uc w of (now, w1) \<Rightarrow>
      let stamping = (rs_DecommissionedAt res = None);
          res1 = (if stamping then res\<lparr>rs_DecommissionedAt := Some now, rs_UpdatedAt := now\<rparr> else res) in
      and_then (if stamping then SaveResource res1 w1 else (Inr (), w1)) (\<lambda>_ w2.
      and_then (drop_app uc res1 stamping w2) (\<lambda>_ w3.
        case uc_now uc w3 of (now', w4) \<Rightarrow>
          SaveResource (res1\<lparr>rs_Phase := FleetResourcePhaseDecommissioned, rs_UpdatedAt := now'\<rparr>) w4)))"

definition DecommissionDedicated ::
  "'e FleetResourceProvisioner \<Rightarrow> uuid \<Rightarrow> bool \<Rightarrow> 'e res_world \<Rightarrow> FleetResourceRecoveryPoint option op_result \<times> 'e res_world" where
  "DecommissionDedicated uc resourceID finalSnapshot w =
     and_then (GetResourceByHandle resourceID w) (\<lambda>res w1.
       if rs_Phase res = FleetResourcePhaseDecommissioned then (Inr None, w1)
       else if \<not> finalSnapshot \<and> rs_Tier res = resourceTierDedicated then (Inl (OpResource ErrResourceFinalSnapshotRequired), w1)
       else and_then (if finalSnapshot then and_then (final_point uc res w1) (\<lambda>p w2. (Inr (Some p), w2)) else (Inr None, w1))
         (\<lambda>final w2. and_then (tear_down uc res w2) (\<lambda>_ w3. (Inr final, w3))))"

end
