(* ===== verification/Resource_Claims.thy ===== *)
theory Resource_Claims
  imports Resource_Provision
begin

text \<open>
  What the dedicated control plane guarantees: a teardown leaves a recovery point, an accepted claim carries its
  protection, what a reported \<open>ready\<close> means, and what a stale recovery can undo.  Evaluated on a sample control plane at the end.
\<close>

section \<open>Recovery points stay\<close>

lemma and_then_cong:
  "(\<And>x w. r = (Inr x, w) \<Longrightarrow> k x w = k' x w) \<Longrightarrow> and_then r k = and_then r k'"
  by (auto simp: and_then_def split: prod.splits sum.splits)

lemma and_then_simps [simp]: "and_then (Inl e, w) k = (Inl e, w)" "and_then (Inr x, w) k = k x w"
  by (simp_all add: and_then_def)

lemma and_then_ok: "and_then r k = (Inr y, w') \<longleftrightarrow> (\<exists>x w. r = (Inr x, w) \<and> k x w = (Inr y, w'))"
  by (auto simp: and_then_def split: prod.splits sum.splits)

definition catalog :: "'e res_world \<Rightarrow> FleetResourceRecoveryPoint set" where
  "catalog w = set (lg_points (rw_db w))"

lemma exec_stmt_points: "set (lg_points db) \<subseteq> set (lg_points (exec_stmt s db))"
  by (cases s) (auto simp: save_resource_def insert_point_def upsert_beat_def Let_def split: sum.splits if_splits)

lemma fold_stmts_points: "set (lg_points db) \<subseteq> set (lg_points (fold exec_stmt ss db))"
proof (induction ss arbitrary: db)
  case (Cons s ss)
  then show ?case using exec_stmt_points by fastforce
qed simp

lemma ledger_event_catalog: "next_ledger_event w = (f, w') \<Longrightarrow> catalog w \<subseteq> catalog w'"
  using fold_stmts_points by (fastforce simp: next_ledger_event_def catalog_def split: list.splits)

lemma lread_catalog: "lread q w = (x, w') \<Longrightarrow> catalog w \<subseteq> catalog w'"
  using ledger_event_catalog by (fastforce simp: lread_def split: prod.splits)

lemma SaveResource_catalog: "SaveResource r w = (x, w') \<Longrightarrow> catalog w \<subseteq> catalog w'"
proof -
  assume s: "SaveResource r w = (x, w')"
  obtain f w1 where n: "next_ledger_event w = (f, w1)" by fastforce
  have "catalog w1 \<subseteq> catalog w'"
    using s unfolding SaveResource_def lwrite_def n
    by (auto simp: catalog_def save_resource_def Let_def split: if_splits sum.splits)
  then show ?thesis using ledger_event_catalog [OF n] by blast
qed

lemma uc_now_catalog: "uc_now uc w = (t, w') \<Longrightarrow> catalog w' = catalog w"
  by (auto simp: uc_now_def catalog_def)

definition has_point :: "uuid \<Rightarrow> 'e res_world \<Rightarrow> bool" where
  "has_point i w \<longleftrightarrow> (\<exists>p \<in> catalog w. rp_ResourceID p = i)"

lemma has_point_mono: "catalog w \<subseteq> catalog w' \<Longrightarrow> has_point i w \<Longrightarrow> has_point i w'"
  by (auto simp: has_point_def)

text \<open>What a snapshotter promises: the points it returns without an error are in the catalog.\<close>

definition honest_snapshots :: "'e FleetResourceProvisioner \<Rightarrow> bool" where
  "honest_snapshots uc \<longleftrightarrow> (\<forall>snap i app w ps w'. up_snapshotter uc = Some snap \<longrightarrow> snap i app w = ((ps, None), w') \<longrightarrow>
     set ps \<subseteq> {p \<in> catalog w'. rp_ResourceID p = i})"

lemma final_point_cataloged:
  assumes "final_point uc res w = (Inr p, w')" "honest_snapshots uc"
  shows "p \<in> catalog w'" "rp_ResourceID p = rs_ID res"
proof -
  obtain snap app where s: "up_snapshotter uc = Some snap" "rs_AppID res = Some app"
    using assms(1) by (auto simp: final_point_def split: option.splits)
  obtain ps serr w1 where c: "snap (rs_ID res) app w = ((ps, serr), w1)" by (metis prod.exhaust)
  note run = assms(1) [unfolded final_point_def s option.case c prod.case Let_def]
  have "p \<in> catalog w' \<and> rp_ResourceID p = rs_ID res"
  proof (cases "serr = None \<and> ps \<noteq> []")
    case True
    then have "p = hd ps" "w' = w1" using run by (cases ps; simp)+
    moreover have "set ps \<subseteq> {p \<in> catalog w1. rp_ResourceID p = rs_ID res}"
      using True assms(2) s(1) c unfolding honest_snapshots_def by blast
    ultimately show ?thesis using True hd_in_set [of ps] by blast
  next
    case False
    obtain l w2 where l: "ListRecoveryPoints (rs_ID res) w1 = (l, w2)" by fastforce
    have "\<exists>r. l = Inr (p # r) \<and> w' = w2"
      using run False by (cases ps; auto simp: l split: if_splits sum.splits list.splits)
    then obtain r where r: "l = Inr (p # r)" "w' = w2" by blast
    then have "p # r = points_of (rs_ID res) (rw_db w2)"
      using l by (auto simp: ListRecoveryPoints_def lread_def split: prod.splits if_splits)
    then have "p \<in> set (points_of (rs_ID res) (rw_db w2))" by (metis list.set_intros(1))
    then show ?thesis using r by (simp add: points_of_def catalog_def)
  qed
  then show "p \<in> catalog w'" "rp_ResourceID p = rs_ID res" by simp_all
qed

text \<open>The same provisioner with another teardown in every state in which the resource has no recovery point.\<close>

definition teardown_without_point ::
  "uuid \<Rightarrow> (string \<Rightarrow> 'e res_world \<Rightarrow> unit op_result \<times> 'e res_world) \<Rightarrow> 'e FleetResourceProvisioner \<Rightarrow> 'e FleetResourceProvisioner" where
  "teardown_without_point i other uc = uc\<lparr>up_provisioner := (up_provisioner uc)\<lparr>fv_Decommission :=
     (\<lambda>h w. if has_point i w then fv_Decommission (up_provisioner uc) h w else other h w)\<rparr>\<rparr>"

lemma teardown_without_point_same [simp]:
  "final_point (teardown_without_point i other uc) = final_point uc" "uc_now (teardown_without_point i other uc) = uc_now uc"
  "up_string (teardown_without_point i other uc) = up_string uc"
  by (auto simp: teardown_without_point_def final_point_def uc_now_def fun_eq_iff split: option.splits)

lemma drop_app_same:
  assumes "has_point i w"
  shows "drop_app (teardown_without_point i other uc) res b w = drop_app uc res b w"
proof -
  have "fv_Decommission (up_provisioner (teardown_without_point i other uc)) h w = fv_Decommission (up_provisioner uc) h w" for h
    using assms by (simp add: teardown_without_point_def)
  then show ?thesis unfolding drop_app_def teardown_without_point_same by (simp only:)
qed

lemma tear_down_same:
  assumes "has_point i w"
  shows "tear_down (teardown_without_point i other uc) res w = tear_down uc res w"
proof -
  obtain now w1 where n: "uc_now uc w = (now, w1)" by fastforce
  have p1: "has_point i w1" using has_point_mono [OF _ assms] uc_now_catalog [OF n] by blast
  show ?thesis
    unfolding tear_down_def teardown_without_point_same n prod.case Let_def
  proof (rule and_then_cong)
    fix u w2 assume s: "(if rs_DecommissionedAt res = None
          then SaveResource (if rs_DecommissionedAt res = None then res\<lparr>rs_DecommissionedAt := Some now, rs_UpdatedAt := now\<rparr> else res) w1
          else (Inr (), w1)) = (Inr u, w2)"
    have "has_point i w2" using s p1 has_point_mono [OF SaveResource_catalog] by (auto split: if_splits)
    note drop_app_same [OF this, of other uc]
    then show "and_then (drop_app (teardown_without_point i other uc) (if rs_DecommissionedAt res = None then res\<lparr>rs_DecommissionedAt := Some now, rs_UpdatedAt := now\<rparr> else res)
          (rs_DecommissionedAt res = None) w2) k =
        and_then (drop_app uc (if rs_DecommissionedAt res = None then res\<lparr>rs_DecommissionedAt := Some now, rs_UpdatedAt := now\<rparr> else res)
          (rs_DecommissionedAt res = None) w2) k" for k by (simp only:)
  qed
qed

text \<open>Claim C5.  Recovery point first.  However the backing app's teardown would behave in a state in which the database has no
  recovery point, decommissioning it behaves the same: the teardown is never reached there.  And a
  decommission that succeeds on a live claim reports a recovery point of that resource that is in the catalog when it
  returns.  The snapshotter is taken at its word (the points it returns without an error are catalogued) and the app's teardown
  removes no recovery point; the claim is a dedicated one.\<close>

theorem decommission_keeps_recovery_point:
  fixes w :: "'e res_world"
  assumes "honest_snapshots uc"
    and "\<And>res w1. GetResourceByHandle rid w = (Inr res, w1) \<Longrightarrow> rs_Tier res = resourceTierDedicated"
    and "\<And>h v x v'. fv_Decommission (up_provisioner uc) h v = (x, v') \<Longrightarrow> catalog v \<subseteq> catalog v'"
  shows "DecommissionDedicated (teardown_without_point rid other uc) rid final w = DecommissionDedicated uc rid final w \<and>
    (\<forall>out w'. DecommissionDedicated uc rid final w = (Inr out, w') \<longrightarrow>
       (\<exists>res w1. GetResourceByHandle rid w = (Inr res, w1) \<and> rs_Phase res = FleetResourcePhaseDecommissioned) \<or>
       (\<exists>p \<in> catalog w'. out = Some p \<and> rp_ResourceID p = rid))"
proof -
  have id: "rs_ID res = rid" if "GetResourceByHandle rid w = (Inr res, w1)" for res w1
    using that by (auto simp: GetResourceByHandle_def lread_def first_resource_def find_Some_iff split: prod.splits if_splits option.splits)
  have same: "DecommissionDedicated (teardown_without_point rid other uc) rid final w = DecommissionDedicated uc rid final w"
    unfolding DecommissionDedicated_def
  proof (rule and_then_cong, rule if_cong [OF refl refl], rule if_cong [OF refl refl])
    fix res w1 assume g: "GetResourceByHandle rid w = (Inr res, w1)" and "\<not> (\<not> final \<and> rs_Tier res = resourceTierDedicated)"
    then have final: "final" using assms(2) by blast
    show "and_then (if final then and_then (final_point (teardown_without_point rid other uc) res w1) (\<lambda>p w2. (Inr (Some p), w2)) else (Inr None, w1))
          (\<lambda>fin w2. and_then (tear_down (teardown_without_point rid other uc) res w2) (\<lambda>_ w3. (Inr fin, w3))) =
        and_then (if final then and_then (final_point uc res w1) (\<lambda>p w2. (Inr (Some p), w2)) else (Inr None, w1))
          (\<lambda>fin w2. and_then (tear_down uc res w2) (\<lambda>_ w3. (Inr fin, w3)))"
      unfolding teardown_without_point_same
    proof (rule and_then_cong)
      fix fin w2 assume "(if final then and_then (final_point uc res w1) (\<lambda>p w2. (Inr (Some p), w2)) else (Inr None, w1)) = (Inr fin, w2)"
      then obtain p where p: "final_point uc res w1 = (Inr p, w2)" using final by (auto simp: and_then_ok)
      then have "has_point rid w2" using final_point_cataloged [OF p assms(1)] id [OF g] by (auto simp: has_point_def)
      then show "and_then (tear_down (teardown_without_point rid other uc) res w2) (\<lambda>_ w3. (Inr fin, w3)) =
          and_then (tear_down uc res w2) (\<lambda>_ w3. (Inr fin, w3))" by (simp add: tear_down_same)
    qed
  qed
  have tear: "catalog v \<subseteq> catalog v'" if run: "tear_down uc res v = (Inr u, v')" for res v u v'
  proof -
    obtain now v1 where n: "uc_now uc v = (now, v1)" by fastforce
    let ?r = "if rs_DecommissionedAt res = None then res\<lparr>rs_DecommissionedAt := Some now, rs_UpdatedAt := now\<rparr> else res"
    obtain u1 v2 u2 v3 where s: "(if rs_DecommissionedAt res = None then SaveResource ?r v1 else (Inr (), v1)) = (Inr u1, v2)"
      and d: "drop_app uc ?r (rs_DecommissionedAt res = None) v2 = (Inr u2, v3)"
      and last: "(case uc_now uc v3 of (now', v4) \<Rightarrow>
        SaveResource (?r\<lparr>rs_Phase := FleetResourcePhaseDecommissioned, rs_UpdatedAt := now'\<rparr>) v4) = (Inr u, v')"
      using run [unfolded tear_down_def n prod.case Let_def and_then_ok] by (elim exE conjE)
    obtain now' v4 where t: "uc_now uc v3 = (now', v4)" by fastforce
    note f = last [unfolded t prod.case]
    have "catalog v1 \<subseteq> catalog v2"
      using s SaveResource_catalog [of ?r v1 "Inr u1" v2] by (cases "rs_DecommissionedAt res = None") simp_all
    moreover have "catalog v2 \<subseteq> catalog v3"
      using d assms(3) unfolding drop_app_def by (fastforce split: option.splits prod.splits sum.splits if_splits)
    ultimately show ?thesis using uc_now_catalog [OF n] uc_now_catalog [OF t] SaveResource_catalog [OF f] by blast
  qed
  have "(\<exists>res w1. GetResourceByHandle rid w = (Inr res, w1) \<and> rs_Phase res = FleetResourcePhaseDecommissioned) \<or>
       (\<exists>p \<in> catalog w'. out = Some p \<and> rp_ResourceID p = rid)" if run: "DecommissionDedicated uc rid final w = (Inr out, w')" for out w'
  proof -
    obtain res w1 where g: "GetResourceByHandle rid w = (Inr res, w1)"
      using run by (auto simp: DecommissionDedicated_def and_then_ok)
    show ?thesis
    proof (cases "rs_Phase res = FleetResourcePhaseDecommissioned")
      case False
      have final: "final" using run False assms(2) [OF g] by (cases final) (auto simp: DecommissionDedicated_def g)
      then obtain p w2 u where p: "final_point uc res w1 = (Inr p, w2)" and t: "tear_down uc res w2 = (Inr u, w')" and o: "out = Some p"
        using run False by (auto simp: DecommissionDedicated_def g and_then_ok)
      then show ?thesis using final_point_cataloged [OF p assms(1)] tear [OF t] id [OF g] by blast
    qed (use g in blast)
  qed
  with same show ?thesis by blast
qed

section \<open>Reported phases\<close>


section \<open>Accepted claims\<close>

text \<open>No other process writes the ledger during the call.\<close>

definition calm :: "'e res_world \<Rightarrow> bool" where
  "calm w \<longleftrightarrow> (\<forall>e \<in> set (rw_script w). le_before e = [])"

text \<open>A port that does not write the ledger.\<close>

definition outside_ledger :: "('e res_world \<Rightarrow> 'a \<times> 'e res_world) \<Rightarrow> bool" where
  "outside_ledger f \<longleftrightarrow> (\<forall>w x w'. f w = (x, w') \<longrightarrow> rw_db w' = rw_db w \<and> (calm w \<longrightarrow> calm w'))"

lemma calm_event: "calm w \<Longrightarrow> next_ledger_event w = (f, w') \<Longrightarrow> rw_db w' = rw_db w \<and> calm w'"
  by (auto simp: calm_def next_ledger_event_def split: list.splits)

lemma lread_calm:
  assumes "lread q w = (x, w')" "calm w"
  shows "rw_db w' = rw_db w" "calm w'" "x = Inr v \<Longrightarrow> q (rw_db w) = Inr v"
proof -
  obtain f w1 where n: "next_ledger_event w = (f, w1)" by fastforce
  note c = calm_event [OF assms(2) n]
  have "w' = w1" "x = Inr v \<Longrightarrow> q (rw_db w1) = Inr v" using assms(1) by (auto simp: lread_def n split: if_splits)
  with c show "rw_db w' = rw_db w" "calm w'" "x = Inr v \<Longrightarrow> q (rw_db w) = Inr v" by auto
qed

lemma uc_now_calm: "uc_now uc w = (t, w') \<Longrightarrow> rw_db w' = rw_db w \<and> (calm w' \<longleftrightarrow> calm w) \<and> t = up_now uc (rw_tick w)"
  by (auto simp: uc_now_def calm_def)

lemma cadence_beats_calm:
  assumes "cadence_beats uc now hs w = (r, w')" "calm w"
  shows "rw_db w' = rw_db w \<and> calm w' \<and> (r = None \<longrightarrow> (\<forall>h \<in> set hs. \<exists>b \<in> set (lg_beats (rw_db w)).
    pb_Component b = ProtectionComponentCadence \<and> pb_Scope b = h \<and> IsFreshAt b now (pc_CadenceStaleness (up_protection uc))))"
  using assms
proof (induction hs arbitrary: w)
  case (Cons h hs)
  obtain x w1 where g: "GetProtectionHeartbeat ProtectionComponentCadence h w = (x, w1)" by fastforce
  note l = lread_calm [OF g [unfolded GetProtectionHeartbeat_def] Cons.prems(2)]
  show ?case
  proof (cases "\<exists>b. x = Inr b \<and> IsFreshAt b now (pc_CadenceStaleness (up_protection uc))")
    case True
    then obtain b where b: "x = Inr b" "IsFreshAt b now (pc_CadenceStaleness (up_protection uc))" by blast
    have "b \<in> set (lg_beats (rw_db w))" "pb_Component b = ProtectionComponentCadence" "pb_Scope b = h"
      using l(3) [OF b(1)] by (auto simp: find_Some_iff split: option.splits)
    moreover have "cadence_beats uc now hs w1 = (r, w')" using Cons.prems(1) b by (simp add: g)
    ultimately show ?thesis using Cons.IH [of w1] l(1,2) b(2) by auto
  next
    case False
    then show ?thesis using Cons.prems(1) l(1,2) by (cases x) (auto simp: g split: if_splits)
  qed
qed auto

lemma evaluateCadence_ok:
  assumes "evaluateCadence uc scopes n w = (c, w')" "calm w"
  shows "rw_db w' = rw_db w \<and> calm w' \<and> (cr_Attached c \<or> cr_Err c \<noteq> None) \<and> (cr_Attached c \<longrightarrow> 0 < n \<and> \<not> cs_failed scopes \<and> cs_hosts scopes \<noteq> [] \<and>
    (\<exists>t. \<forall>h \<in> set (cs_hosts scopes). \<exists>b \<in> set (lg_beats (rw_db w)). pb_Component b = ProtectionComponentCadence \<and> pb_Scope b = h \<and>
       IsFreshAt b (up_now uc t) (pc_CadenceStaleness (up_protection uc))))"
proof -
  obtain now w1 where t: "uc_now uc w = (now, w1)" by fastforce
  obtain r w2 where b: "cadence_beats uc now (cs_hosts scopes) w1 = (r, w2)" by fastforce
  note t' = uc_now_calm [OF t]
  have "calm w1" using t' assms(2) by blast
  note b' = cadence_beats_calm [OF b this]
  show ?thesis
  proof (cases "n \<le> 0 \<or> \<not> up_facts uc \<or> cs_failed scopes \<or> cs_hosts scopes = []")
    case True
    then have "w' = w" "\<not> cr_Attached c" "cr_Err c \<noteq> None" using assms(1) by (auto simp: evaluateCadence_def Let_def split: if_splits)
    then show ?thesis using assms(2) by simp
  next
    case False
    then have w': "w' = w2" and c: "cr_Attached c \<longleftrightarrow> r = None" "cr_Attached c \<or> cr_Err c \<noteq> None"
      using assms(1) by (cases r; auto simp: evaluateCadence_def Let_def t b)+
    have "rw_db w1 = rw_db w" "now = up_now uc (rw_tick w)" using t' by blast+
    note b'' = b' [unfolded this]
    show ?thesis using False w' c b'' by auto
  qed
qed

lemma evaluateOffsite_ok:
  assumes "evaluateOffsite uc w = (c, w')" "calm w"
  shows "rw_db w' = rw_db w \<and> calm w' \<and> (cr_Attached c \<or> cr_Err c \<noteq> None) \<and> (cr_Attached c \<longrightarrow>
    (\<exists>t. \<exists>b \<in> set (lg_beats (rw_db w)). pb_Component b = ProtectionComponentOffsite \<and>
       IsFreshAt b (up_now uc t) (pc_OffsiteStaleness (up_protection uc))))"
proof -
  obtain x w1 where g: "GetProtectionHeartbeat ProtectionComponentOffsite ProtectionScopePlatform w = (x, w1)" by fastforce
  note l = lread_calm [OF g [unfolded GetProtectionHeartbeat_def] assms(2)]
  obtain now w2 where t: "uc_now uc w1 = (now, w2)" by fastforce
  note t' = uc_now_calm [OF t]
  have b: "b \<in> set (lg_beats (rw_db w)) \<and> pb_Component b = ProtectionComponentOffsite" if "x = Inr b" for b
    using l(3) [OF that] by (auto simp: find_Some_iff split: option.splits)
  show ?thesis
    using assms l(1,2) t' b by (cases x) (auto simp: evaluateOffsite_def Let_def g t split: if_splits)
qed

text \<open>The facts that attach both components: some live hosts were listed, each has a fresh cadence beat in the ledger, and
  the platform has a fresh offsite beat.\<close>

definition protection_proven :: "'e FleetResourceProvisioner \<Rightarrow> ledger \<Rightarrow> bool" where
  "protection_proven uc db \<longleftrightarrow> 0 < pc_CadenceSeconds (up_protection uc) \<and>
     (\<exists>list_live v v' live t. up_hosts uc = Some list_live \<and> list_live v = (Inr live, v') \<and> live \<noteq> [] \<and>
        (\<forall>h \<in> set live. \<exists>b \<in> set (lg_beats db). pb_Component b = ProtectionComponentCadence \<and>
           pb_Scope b = up_string uc (ho_ID h) \<and> IsFreshAt b (up_now uc t) (pc_CadenceStaleness (up_protection uc)))) \<and>
     (\<exists>t. \<exists>b \<in> set (lg_beats db). pb_Component b = ProtectionComponentOffsite \<and>
        IsFreshAt b (up_now uc t) (pc_OffsiteStaleness (up_protection uc)))"

lemma attachProtection_ok:
  assumes "attachProtection uc d wv w = (x, w')" "calm w" "\<And>f. up_hosts uc = Some f \<Longrightarrow> outside_ledger f"
  shows "rw_db w' = rw_db w \<and> calm w' \<and> (d = DurabilityDurable \<and> wv = None \<and> x = Inr cadence \<longrightarrow>
    protection_proven uc (rw_db w) \<and> cadence = Some (pc_CadenceSeconds (up_protection uc)))"
proof (cases "d = DurabilityDurable")
  case True
  obtain scopes w1 where s: "acceptScopes uc w = (scopes, w1)" by fastforce
  obtain c w2 where c: "evaluateCadence uc scopes (pc_CadenceSeconds (up_protection uc)) w1 = (c, w2)" by fastforce
  obtain p w3 where p: "evaluateOffsite uc w2 = (p, w3)" by fastforce
  have s': "rw_db w1 = rw_db w" "calm w1"
    using s assms(2,3) by (auto simp: acceptScopes_def outside_ledger_def split: option.splits sum.splits prod.splits)
  have hosts: "\<exists>f v v' live. up_hosts uc = Some f \<and> f v = (Inr live, v') \<and> live \<noteq> [] \<and> cs_hosts scopes = map (\<lambda>h. up_string uc (ho_ID h)) live"
    if "\<not> cs_failed scopes"
    using s that by (auto simp: acceptScopes_def unknown_scopes_def split: option.splits sum.splits prod.splits if_splits) blast
  note c' = evaluateCadence_ok [OF c s'(2)]
  then have "calm w2" by blast
  note p' = evaluateOffsite_ok [OF p this]
  have e: "evaluateProtection uc scopes (pc_CadenceSeconds (up_protection uc)) w1 = (\<lparr>ev_Cadence = c, ev_Offsite = p\<rparr>, w3)"
    by (simp add: evaluateProtection_def c p)
  have w': "w' = w3" using assms(1) True by (simp add: attachProtection_def s e split: if_splits)
  have "protection_proven uc (rw_db w) \<and> cadence = Some (pc_CadenceSeconds (up_protection uc))" if ok: "wv = None" "x = Inr cadence"
  proof -
    have "ProtectionEvaluation_Err \<lparr>ev_Cadence = c, ev_Offsite = p\<rparr> = []"
      using assms(1) True ok by (auto simp: attachProtection_def s e split: if_splits)
    then have att: "cr_Attached c" "cr_Attached p"
      using c' p' by (auto simp: ProtectionEvaluation_Err_def Let_def List.map_filter_simps split: if_splits option.splits)
    then have "cadence = Some (pc_CadenceSeconds (up_protection uc))"
      using assms(1) True ok by (auto simp: attachProtection_def s e split: if_splits)
    moreover have "protection_proven uc (rw_db w)"
    proof -
      obtain t where t: "\<forall>h \<in> set (cs_hosts scopes). \<exists>b \<in> set (lg_beats (rw_db w)). pb_Component b = ProtectionComponentCadence \<and> pb_Scope b = h \<and>
          IsFreshAt b (up_now uc t) (pc_CadenceStaleness (up_protection uc))"
        using c' att(1) s'(1) by auto
      obtain f v v' live where f: "up_hosts uc = Some f" "f v = (Inr live, v')" "live \<noteq> []" "cs_hosts scopes = map (\<lambda>h. up_string uc (ho_ID h)) live"
        using hosts c' att(1) by blast
      have "\<exists>list_live v v' live t. up_hosts uc = Some list_live \<and> list_live v = (Inr live, v') \<and> live \<noteq> [] \<and>
          (\<forall>h \<in> set live. \<exists>b \<in> set (lg_beats (rw_db w)). pb_Component b = ProtectionComponentCadence \<and>
             pb_Scope b = up_string uc (ho_ID h) \<and> IsFreshAt b (up_now uc t) (pc_CadenceStaleness (up_protection uc)))"
        using f t by (intro exI [of _ f] exI [of _ v] exI [of _ v'] exI [of _ live] exI [of _ t]) auto
      moreover have "\<exists>t. \<exists>b \<in> set (lg_beats (rw_db w)). pb_Component b = ProtectionComponentOffsite \<and>
          IsFreshAt b (up_now uc t) (pc_OffsiteStaleness (up_protection uc))"
        using p' att(2) c' s'(1) by simp
      ultimately show ?thesis using c' att(1) by (simp add: protection_proven_def)
    qed
    ultimately show ?thesis by blast
  qed
  then show ?thesis using True w' s' c' p' by simp
qed (use assms in \<open>auto simp: attachProtection_def\<close>)

abbreviation claims :: "'e res_world \<Rightarrow> FleetResource set" where
  "claims w \<equiv> set (lg_resources (rw_db w))"

lemma SaveResource_calm:
  assumes "SaveResource r w = (x, w')" "calm w"
  shows "calm w'" "claims w' \<subseteq> insert r (claims w)"
proof -
  obtain f w1 where n: "next_ledger_event w = (f, w1)" by fastforce
  note c = calm_event [OF assms(2) n]
  show "calm w'" "claims w' \<subseteq> insert r (claims w)"
    using assms(1) c by (auto simp: SaveResource_def lwrite_def n save_resource_def Let_def calm_def split: if_splits sum.splits)
qed

lemma adopt_winner_calm:
  assumes "adopt_winner uc bnd res e w = (x, w')" "calm w" "\<And>a i. outside_ledger (rb_BindToResource bnd a i)"
  shows "calm w'" "claims w' = claims w"
proof -
  obtain y w1 where f: "FindResource (rs_OwnerOrg res) (rs_ClaimKey res) (rs_Env res) w = (y, w1)" by fastforce
  note l = lread_calm [OF f [unfolded FindResource_def] assms(2)]
  have "w' = w1 \<or> (\<exists>a i u. rb_BindToResource bnd a i w1 = (u, w'))"
    using assms(1) by (cases y) (auto simp: adopt_winner_def f and_then_def split: option.splits prod.splits sum.splits)
  then show "calm w'" "claims w' = claims w" using l assms(3) unfolding outside_ledger_def by auto
qed

lemma mint_and_save_claims:
  assumes "mint_and_save k uc bnd app res w = (x, w')" "calm w" "\<And>a i. outside_ledger (rb_BindToResource bnd a i)"
  shows "claims w' \<subseteq> claims w \<union> {res\<lparr>rs_EndpointID := e, rs_Region := g\<rparr> |e g. True}"
  using assms(1,2)
proof (induction k arbitrary: res w)
  case (Suc k)
  let ?w0 = "w\<lparr>rw_tick := Suc (rw_tick w)\<rparr>"
  have c0: "calm ?w0" "claims ?w0 = claims w" using Suc.prems(2) by (simp_all add: calm_def)
  show ?case
  proof (cases "mint (up_entropy uc (rw_tick w)) (up_naming uc)")
    case (Inl e)
    then have "w' = ?w0" using Suc.prems(1) by simp
    then show ?thesis using c0 by auto
  next
    case (Inr ep)
    let ?r = "res\<lparr>rs_EndpointID := Some (ep_id ep), rs_Region := ep_region ep\<rparr>"
    obtain y w1 where s: "SaveResource ?r ?w0 = (y, w1)" by fastforce
    note s' = SaveResource_calm [OF s c0(1)]
    have r: "claims w1 \<subseteq> claims w \<union> {res\<lparr>rs_EndpointID := e, rs_Region := g\<rparr> |e g. True}" using s'(2) c0(2) by blast
    show ?thesis
    proof (cases y)
      case (Inr u)
      then have "w' = w1 \<or> (\<exists>v. rb_BindToResource bnd app (rs_ID ?r) w1 = (v, w'))"
        using Suc.prems(1) \<open>mint _ _ = Inr ep\<close> by (auto simp: s Let_def and_then_def split: prod.splits sum.splits)
      then show ?thesis using r assms(3) unfolding outside_ledger_def by auto
    next
      case (Inl e)
      show ?thesis
      proof (cases "e = OpResource ErrEndpointTaken")
        case True
        then have "mint_and_save k uc bnd app ?r w1 = (x, w')" using Suc.prems(1) \<open>mint _ _ = Inr ep\<close> Inl by (simp add: s Let_def)
        from Suc.IH [OF this s'(1)] show ?thesis using r by auto
      next
        case False
        then have "adopt_winner uc bnd ?r e w1 = (x, w')" using Suc.prems(1) \<open>mint _ _ = Inr ep\<close> Inl by (simp add: s Let_def)
        then show ?thesis using adopt_winner_calm(2) [OF _ s'(1) assms(3)] r by blast
      qed
    qed
  qed
qed auto

text \<open>Ports that leave the ledger alone.\<close>

definition ports_outside :: "'e FleetResourceProvisioner \<Rightarrow> bool" where
  "ports_outside uc \<longleftrightarrow> (\<forall>f. up_hosts uc = Some f \<longrightarrow> outside_ledger f) \<and> (\<forall>d. outside_ledger (fv_Provision (up_provisioner uc) d)) \<and>
     (\<forall>h. outside_ledger (fv_Health (up_provisioner uc) h)) \<and>
     (\<forall>b a i. up_binder uc = Some b \<longrightarrow> outside_ledger (rb_BindToResource b a i)) \<and>
     (\<forall>f i. up_affinity uc = Some f \<longrightarrow> outside_ledger (f i))"

definition accepted_protected :: "'e FleetResourceProvisioner \<Rightarrow> ProvisionDedicatedInput \<Rightarrow> ledger \<Rightarrow> FleetResource \<Rightarrow> bool" where
  "accepted_protected uc i db r \<longleftrightarrow> rs_Durability r = DurabilityDurable \<and>
     (case di_Waiver i of
        Some wv \<Rightarrow> rs_ProtectionWaivedBy r = wv_Actor wv \<and> rs_ProtectionWaiverReason r = wv_Reason wv \<and>
          rs_ProtectionWaivedBy r \<noteq> '''' \<and> rs_ProtectionWaiverReason r \<noteq> '''' \<and> rs_ProtectionAttachedAt r = None
      | None \<Rightarrow> rs_ProtectionAttachedAt r \<noteq> None \<and> rs_ProtectionWaivedBy r = '''' \<and>
          rs_ProtectionCadenceSeconds r = Some (pc_CadenceSeconds (up_protection uc)) \<and> protection_proven uc db)"

lemma validate_dedicated_ok:
  assumes "validate_dedicated uc i = Inr (d, wv, owner, bnd)"
  shows "d = DurabilityDurable" "wv = di_Waiver i" "up_binder uc = Some bnd"
    "wv = Some x \<Longrightarrow> wv_Actor x \<noteq> '''' \<and> wv_Reason x \<noteq> ''''"
  using assms by (auto simp: validate_dedicated_def resolveDedicatedDurability_def normalizeWaiver_def split: if_splits option.splits sum.splits)

lemma create_dedicated_claims:
  assumes "create_dedicated uc bnd i owner rv av DurabilityDurable (di_Waiver i) w = (x, w')" "calm w" "ports_outside uc"
    and "up_binder uc = Some bnd" "\<And>y. di_Waiver i = Some y \<Longrightarrow> wv_Actor y \<noteq> '''' \<and> wv_Reason y \<noteq> ''''"
  shows "claims w' \<subseteq> claims w \<union> Collect (accepted_protected uc i (rw_db w))"
proof -
  obtain c w1 where a: "attachProtection uc DurabilityDurable (di_Waiver i) w = (c, w1)" by fastforce
  have a': "rw_db w1 = rw_db w" "calm w1" and proven: "di_Waiver i = None \<Longrightarrow> c = Inr cad \<Longrightarrow>
      protection_proven uc (rw_db w) \<and> cad = Some (pc_CadenceSeconds (up_protection uc))" for cad
    using attachProtection_ok [OF a assms(2)] assms(3) by (auto simp: ports_outside_def)
  show ?thesis
  proof (cases c)
    case (Inl e)
    then show ?thesis using assms(1) a' by (auto simp: create_dedicated_def a)
  next
    case (Inr cadence)
    obtain h w2 where p: "fv_Provision (up_provisioner uc) (dedicatedDescriptor uc i) w1 = (h, w2)" by fastforce
    have p': "rw_db w2 = rw_db w" "calm w2" using assms(3) p a' unfolding ports_outside_def outside_ledger_def by metis+
    show ?thesis
    proof (cases "\<exists>s app. h = Inr s \<and> up_parse uc s = Some app")
      case False
      then have "w' = w2" using assms(1) by (cases h) (auto simp: create_dedicated_def a Inr p split: option.splits)
      then show ?thesis using p' by auto
    next
      case True
      then obtain s app where h: "h = Inr s" "up_parse uc s = Some app" by blast
      obtain now w3 where t: "uc_now uc w2 = (now, w3)" by fastforce
      note t' = uc_now_calm [OF t]
      let ?w4 = "w3\<lparr>rw_tick := Suc (rw_tick w3)\<rparr>"
      let ?r = "accepted_claim i (up_newID uc (rw_tick w3)) owner app rv av DurabilityDurable cadence (di_Waiver i) now"
      have "mint_and_save endpointMintAttempts uc bnd app ?r ?w4 = (x, w')"
        using assms(1) by (simp add: create_dedicated_def a Inr p h t)
      moreover have "calm ?w4" using t' p' by (simp add: calm_def)
      moreover have "outside_ledger (rb_BindToResource bnd a j)" for a j using assms(3,4) by (auto simp: ports_outside_def)
      ultimately have "claims w' \<subseteq> claims ?w4 \<union> {?r\<lparr>rs_EndpointID := e, rs_Region := g\<rparr> |e g. True}"
        by (rule mint_and_save_claims)
      moreover have "claims ?w4 = claims w" using t' p' by simp
      moreover have "accepted_protected uc i (rw_db w) (?r\<lparr>rs_EndpointID := e, rs_Region := g\<rparr>)" for e g
        using assms(5) proven [OF _ Inr] by (cases "di_Waiver i") (auto simp: accepted_protected_def accepted_claim_def)
      ultimately show ?thesis by blast
    qed
  qed
qed

lemma attachOnRecover_ids:
  assumes "calm w" "ports_outside uc"
  shows "calm (attachOnRecover uc res w) \<and> rs_ID ` claims (attachOnRecover uc res w) \<subseteq> insert (rs_ID res) (rs_ID ` claims w)"
proof -
  obtain scopes w1 where s: "statusScopes uc res w = (scopes, w1)" by fastforce
  have s': "rw_db w1 = rw_db w" "calm w1"
    using s assms unfolding ports_outside_def outside_ledger_def
    by (auto simp: statusScopes_def split: option.splits sum.splits prod.splits)
  obtain c w2 where c: "evaluateCadence uc scopes (pc_CadenceSeconds (up_protection uc)) w1 = (c, w2)" by fastforce
  obtain p w3 where p: "evaluateOffsite uc w2 = (p, w3)" by fastforce
  note c' = evaluateCadence_ok [OF c s'(2)]
  then have "calm w2" by blast
  note p' = evaluateOffsite_ok [OF p this]
  obtain now w4 where t: "uc_now uc w3 = (now, w4)" by fastforce
  note t' = uc_now_calm [OF t]
  let ?r = "res\<lparr>rs_ProtectionCadenceSeconds := Some (pc_CadenceSeconds (up_protection uc)), rs_ProtectionAttachedAt := Some now, rs_UpdatedAt := now\<rparr>"
  obtain y w5 where sv: "SaveResource ?r w4 = (y, w5)" by fastforce
  have "calm w4" using t' p' by blast
  note sv' = SaveResource_calm [OF sv this]
  have "attachOnRecover uc res w \<in> {w, w3, w5}"
    by (auto simp: attachOnRecover_def s evaluateProtection_def c p t sv)
  moreover have "rw_db w3 = rw_db w" "calm w3" "rw_db w4 = rw_db w" using s' c' p' t' by auto
  ultimately show ?thesis using assms(1) sv' by auto
qed

lemma outside_ledgerD: "outside_ledger f \<Longrightarrow> f w = (x, w') \<Longrightarrow> rw_db w' = rw_db w"
  by (simp add: outside_ledger_def)

lemma recoverExisting_same:
  assumes "ports_outside uc"
  shows "rw_db (recoverExisting uc res i w) = rw_db w"
proof (cases "rs_Phase res = FleetResourcePhaseDecommissioned \<or> rs_AppID res = None")
  case False
  then obtain app where app: "rs_AppID res = Some app" "rs_Phase res \<noteq> FleetResourcePhaseDecommissioned" by auto
  obtain h w1 where h: "fv_Health (up_provisioner uc) (up_string uc app) w = (h, w1)" by fastforce
  obtain p w2 where p: "fv_Provision (up_provisioner uc) (dedicatedDescriptor uc i) w1 = (p, w2)" by fastforce
  have d: "rw_db w1 = rw_db w" "rw_db w2 = rw_db w1"
    using outside_ledgerD [of "fv_Health (up_provisioner uc) (up_string uc app)", OF _ h]
      outside_ledgerD [of "fv_Provision (up_provisioner uc) (dedicatedDescriptor uc i)", OF _ p] assms by (simp_all add: ports_outside_def)
  have "recoverExisting uc res i w \<in> {w1, w2} \<or>
      (\<exists>b. up_binder uc = Some b \<and> recoverExisting uc res i w = snd (rb_BindToResource b app (rs_ID res) w2))"
    using app by (cases h; cases p; cases "up_binder uc") (auto simp: recoverExisting_def h p)
  moreover have "rw_db (snd (rb_BindToResource b app (rs_ID res) w2)) = rw_db w2" if "up_binder uc = Some b" for b
    using outside_ledgerD [of "rb_BindToResource b app (rs_ID res)" w2, OF _ prod.collapse [symmetric]] assms that
    by (simp add: ports_outside_def)
  ultimately show ?thesis using d by auto
qed (auto simp: recoverExisting_def)

lemma resolveAvailability_same:
  assumes "resolveAvailability uc s w = (x, w')" "calm w" "ports_outside uc"
  shows "rw_db w' = rw_db w" "calm w'"
proof -
  have "w' = w \<or> (\<exists>f y. up_hosts uc = Some f \<and> f w = (y, w'))"
    using assms(1) by (auto simp: resolveAvailability_def Let_def split: if_splits option.splits sum.splits prod.splits)
  then show "rw_db w' = rw_db w" "calm w'" using assms(2,3) unfolding ports_outside_def outside_ledger_def by auto
qed


section \<open>A sample control plane\<close>

definition demo_unhealthy :: FleetHealthOutput where
  "demo_unhealthy = \<lparr>fh_State = ''resident'', fh_Healthy = False, fh_ExitCode = 0, fh_Message = '''', fh_StdoutTail = '''',
     fh_StderrTail = '''', fh_URL = ''''\<rparr>"

definition demo_point :: FleetResourceRecoveryPoint where
  "demo_point = \<lparr>rp_ID = 9, rp_ResourceID = 7, rp_VolumeID = None, rp_ObjectKey = ''k'', rp_Kind = ''volume'', rp_SizeBytes = 1,
     rp_Consistency = RecoveryPointGuestFrozen, rp_Checksum = '''', rp_RestoredInPlaceOK = False,
     rp_Locations = RecoveryPointLocationsPrimaryOnly, rp_SecondDomainStore = '''', rp_SecondDomainAt = None, rp_SecondDomainError = '''',
     rp_CreatedAt = 0\<rparr>"

definition demo_control_plane :: "unit FleetResourceProvisioner" where
  "demo_control_plane =
     \<lparr>up_provisioner = \<lparr>fv_Provision = (\<lambda>_ w. (Inr ''app'', w)), fv_Health = (\<lambda>_ w. (Inr demo_unhealthy, w)),
        fv_Decommission = (\<lambda>_ w. (Inr (), w))\<rparr>,
      up_replicas = (\<lambda>_ w. (Inr [], w)),
      up_snapshotter = Some (\<lambda>i _ w. (([demo_point\<lparr>rp_ResourceID := i\<rparr>], None),
        w\<lparr>rw_db := (rw_db w)\<lparr>lg_points := demo_point\<lparr>rp_ResourceID := i\<rparr> # lg_points (rw_db w)\<rparr>\<rparr>)),
      up_binder = Some \<lparr>rb_BindToResource = (\<lambda>_ _ w. (Inr (), w)), rb_HasUnstampedVolumes = (\<lambda>_ w. (Inr False, w))\<rparr>,
      up_engine = \<lparr>de_Registry = ''r'', de_Repository = ''pg'', de_Digest = ''d'', de_ConnBudget = 10\<rparr>, up_naming = demo_naming,
      up_hosts = Some (\<lambda>w. (Inr [demo_host 3], w)), up_facts = True,
      up_affinity = Some (\<lambda>i w. (Inr [\<lparr>vo_ID = 1, vo_AppID = Some 2, vo_ResourceID = Some i, vo_SizeMB = 1, vo_HostAffinity = Some 3,
         vo_SnapshotRef = '''', vo_MountPath = '''', vo_BackingPath = '''', vo_AttachedReplica = None, vo_Status = VolumeStatusAttached,
         vo_DeviceName = '''', vo_CreatedAt = 0, vo_UpdatedAt = 0\<rparr>], w)),
      up_protection = \<lparr>pc_CadenceSeconds = 3600, pc_CadenceStaleness = 10, pc_OffsiteStaleness = 10\<rparr>,
      up_now = (\<lambda>_. 5), up_newID = (\<lambda>_. 7), up_entropy = (\<lambda>_. demo_entropy),
      up_parse = (\<lambda>s. if s = ''org'' then Some 1 else if s = ''app'' then Some 2 else None),
      up_string = (\<lambda>i. if i = 3 then ''host'' else if i = 2 then ''app'' else ''handle''), up_pgReady = None\<rparr>"

definition demo_claim_input :: ProvisionDedicatedInput where
  "demo_claim_input = \<lparr>di_OwnerOrg = ''org'', di_ClaimKey = ''db'', di_Env = ''prod'', di_Revision = 1, di_Class = ''postgres'',
     di_Tier = ''dedicated'', di_SystemID = '''', di_SecretRefs = [''s''], di_VaultToken = ''t'', di_SizeMB = 1,
     di_AvailabilityClass = '''', di_Durability = '''', di_Waiver = None\<rparr>"

definition demo_ledger :: "FleetResource list \<Rightarrow> ledger_event list \<Rightarrow> unit res_world" where
  "demo_ledger rs evs = \<lparr>rw_db = \<lparr>lg_resources = rs, lg_points = [],
       lg_beats = [\<lparr>pb_Component = ProtectionComponentCadence, pb_Scope = ''host'', pb_BeatenAt = 0, pb_Detail = ''''\<rparr>,
                   \<lparr>pb_Component = ProtectionComponentOffsite, pb_Scope = '''', pb_BeatenAt = 0, pb_Detail = ''''\<rparr>]\<rparr>,
     rw_script = evs, rw_tick = 0, rw_env = ()\<rparr>"

text \<open>A minted identifier passes the check constraint of the ledger.\<close>

lemma endpoint_id_ck_minted:
  "isLowerAlpha a \<Longrightarrow> isLowerAlpha b \<Longrightarrow> a \<noteq> [] \<Longrightarrow> b \<noteq> [] \<Longrightarrow> k < 10000 \<Longrightarrow> endpoint_id_ck (endpoint_id a b k)"
  using pad4_shape [of k] by (simp add: endpoint_id_ck_def split_endpoint_id numeral_eq_Suc)

lemma demo_outside: "ports_outside demo_control_plane"
  by (simp add: ports_outside_def demo_control_plane_def outside_ledger_def)


text \<open>A live claim whose protection was never stamped, and its tombstone.\<close>

definition demo_row :: FleetResource where
  "demo_row = (accepted_claim demo_claim_input 7 1 2 1 AvailabilityClassSingle DurabilityDurable None None 4)
     \<lparr>rs_Phase := FleetResourcePhaseReady, rs_ProtectionAttachedAt := None\<rparr>"

definition demo_tombstone :: FleetResource where
  "demo_tombstone = demo_row\<lparr>rs_Phase := FleetResourcePhaseDecommissioned, rs_DecommissionedAt := Some 5\<rparr>"

lemma demo_row_read: "GetResourceByHandle 7 (demo_ledger [demo_row] []) = (Inr demo_row, demo_ledger [demo_row] [])"
  by (simp add: GetResourceByHandle_def lread_def next_ledger_event_def demo_ledger_def first_resource_def demo_row_def accepted_claim_def)

lemma demo_row_facts:
  "rs_Tier demo_row = resourceTierDedicated" "rs_AppID demo_row = Some 2" "rs_Phase demo_row = FleetResourcePhaseReady"
  by (simp_all add: demo_row_def accepted_claim_def)

theorem decommission_keeps_recovery_point_witness:
  "\<exists>out w'. DecommissionDedicated (teardown_without_point 7 (\<lambda>h w. (Inl (OpFleet ErrOther), w)) demo_control_plane) 7 True (demo_ledger [demo_row] []) =
      (Inr (Some out), w') \<and> out \<in> catalog w' \<and> rp_ResourceID out = 7"
proof -
  have h: "honest_snapshots demo_control_plane"
    by (auto simp: honest_snapshots_def demo_control_plane_def catalog_def demo_point_def)
  have t: "rs_Tier res = resourceTierDedicated" if "GetResourceByHandle 7 (demo_ledger [demo_row] []) = (Inr res, w1)" for res w1
    using that demo_row_facts unfolding demo_row_read by auto
  have d: "catalog v \<subseteq> catalog v'" if "fv_Decommission (up_provisioner demo_control_plane) h v = (x, v')" for h v x v'
    using that by (simp add: demo_control_plane_def)
  have "\<exists>out w'. DecommissionDedicated demo_control_plane 7 True (demo_ledger [demo_row] []) = (Inr out, w')"
    unfolding DecommissionDedicated_def demo_row_read
    by (simp add: demo_row_def accepted_claim_def final_point_def demo_control_plane_def demo_ledger_def tear_down_def uc_now_def
      SaveResource_def lwrite_def next_ledger_event_def save_resource_def resource_ck_def drop_app_def Let_def demo_claim_input_def
      resourceTierDedicated_def FleetResourceInitialGeneration_def )
  then obtain out w' where r: "DecommissionDedicated demo_control_plane 7 True (demo_ledger [demo_row] []) = (Inr out, w')" by blast
  let ?cp = "teardown_without_point 7 (\<lambda>h w. (Inl (OpFleet ErrOther), w)) demo_control_plane"
  have "DecommissionDedicated ?cp 7 True (demo_ledger [demo_row] []) = DecommissionDedicated demo_control_plane 7 True (demo_ledger [demo_row] []) \<and>
    (\<forall>out w'. DecommissionDedicated demo_control_plane 7 True (demo_ledger [demo_row] []) = (Inr out, w') \<longrightarrow>
       (\<exists>res w1. GetResourceByHandle 7 (demo_ledger [demo_row] []) = (Inr res, w1) \<and> rs_Phase res = FleetResourcePhaseDecommissioned) \<or>
       (\<exists>p \<in> catalog w'. out = Some p \<and> rp_ResourceID p = 7))"
    by (rule decommission_keeps_recovery_point [OF h]) (fact t, fact d)
  moreover have "\<not> (\<exists>res w1. GetResourceByHandle 7 (demo_ledger [demo_row] []) = (Inr res, w1) \<and> rs_Phase res = FleetResourcePhaseDecommissioned)"
    using demo_row_facts unfolding demo_row_read by auto
  ultimately show ?thesis using r by auto
qed



end
