(* ===== verification/Resource_Shared.thy ===== *)
theory Resource_Shared
  imports Resource_Claims
begin

text \<open>
  Shared databases (\<open>internal/usecase/fleet_resource_shared.go\<close>): logical databases on one engine, provisioned with a
  password out of the claim's secrets and reaped when their time is over.  The engine is a port; its state is the
  environment of the ledger's world.
\<close>

section \<open>Ports and inputs\<close>

definition resourceTierShared :: string where "resourceTierShared = ''shared''"

record LogicalProvisionRequest =
  lq_DBName :: string
  lq_RoleName :: string
  lq_Password :: string
  lq_SeedTemplate :: string
  lq_AllowedTemplates :: "string list"

record LogicalLease =
  ll_DBName :: string
  ll_RoleName :: string

record 'e LogicalProvisioner =
  lp_ProvisionLogical :: "LogicalProvisionRequest \<Rightarrow> 'e res_world \<Rightarrow> LogicalLease op_result \<times> 'e res_world"
  lp_DropLogical :: "string \<Rightarrow> string \<Rightarrow> 'e res_world \<Rightarrow> unit op_result \<times> 'e res_world"

record SharedEngineConfig =
  sc_Host :: string
  sc_Port :: int
  sc_TTL :: int
  sc_SeedTemplates :: "string list"

record 'e FleetResourceSharedProvisioner =
  sh_logical :: "'e LogicalProvisioner"
  sh_cfg :: SharedEngineConfig
  sh_resolver :: "(string \<Rightarrow> Principal \<Rightarrow> string op_result) option"
  sh_now :: "nat \<Rightarrow> instant"
  sh_newID :: "nat \<Rightarrow> uuid"
  sh_random :: "nat \<Rightarrow> nat \<Rightarrow> 8 word list option"
  sh_parse :: "string \<Rightarrow> uuid option"
  sh_string :: "uuid \<Rightarrow> string"

record ProvisionSharedInput =
  si_OwnerOrg :: string
  si_ClaimKey :: string
  si_Env :: string
  si_Revision :: int
  si_Class :: string
  si_Tier :: string
  si_SecretRefs :: "string list"
  si_VaultToken :: string
  si_SeedTemplate :: string
  si_Durability :: string

record ProvisionSharedOutput =
  so_Handle :: string
  so_Phase :: FleetResourcePhase
  so_Endpoint :: string

text \<open>The clock, the fresh identifiers and the random bytes are read at the next tick.\<close>

definition at_tick :: "(nat \<Rightarrow> 'a) \<Rightarrow> 'e res_world \<Rightarrow> 'a \<times> 'e res_world" where
  "at_tick f w = (f (rw_tick w), w\<lparr>rw_tick := Suc (rw_tick w)\<rparr>)"

section \<open>Names and passwords\<close>

text \<open>\<open>strings.EqualFold\<close> against a text of ASCII letters: the long s and the Kelvin sign are the two runes outside ASCII that
  fold to one.\<close>

fun fold_ascii :: "string \<Rightarrow> string" where
  "fold_ascii [] = []"
| "fold_ascii (c # s) =
     (if take 2 (c # s) = [CHR 0xC5, CHR 0xBF] then CHR ''s'' # fold_ascii (drop 1 s)
      else if take 3 (c # s) = [CHR 0xE2, CHR 0x84, CHR 0xAA] then CHR ''k'' # fold_ascii (drop 2 s)
      else ascii_lower c # fold_ascii s)"

definition pickSharedPassword :: "HostSecret list \<Rightarrow> string op_result" where
  "pickSharedPassword secrets =
     (case secrets of
        [x] \<Rightarrow> Inr (hs_Val x)
      | _ \<Rightarrow> (case find (\<lambda>x. fold_ascii (hs_Name x) = ''password'') secrets of
          Some x \<Rightarrow> Inr (hs_Val x)
        | None \<Rightarrow> Inl (OpResource ErrResourceSharedPasswordAmbiguous)))"

text \<open>The number of bytes of the first rune of a string as Go's decoder reads it; a byte that starts no
  well-formed sequence is a rune of its own.\<close>

definition rune_len :: "string \<Rightarrow> nat" where
  "rune_len s =
     (let b = map (of_char :: char \<Rightarrow> nat) (take 4 s);
          within = (\<lambda>i lo hi. i < length b \<and> lo \<le> b ! i \<and> b ! i \<le> hi);
          cont = (\<lambda>i. within i 0x80 0xBF) in
      if within 0 0xC2 0xDF \<and> cont 1 then 2
      else if (within 0 0xE0 0xE0 \<and> within 1 0xA0 0xBF \<or> within 0 0xE1 0xEC \<and> cont 1 \<or> within 0 0xED 0xED \<and> within 1 0x80 0x9F \<or>
               within 0 0xEE 0xEF \<and> cont 1) \<and> cont 2 then 3
      else if (within 0 0xF0 0xF0 \<and> within 1 0x90 0xBF \<or> within 0 0xF1 0xF3 \<and> cont 1 \<or> within 0 0xF4 0xF4 \<and> within 1 0x80 0x8F) \<and>
              cont 2 \<and> cont 3 then 4
      else 1)"

definition ident_char :: "char \<Rightarrow> bool" where
  "ident_char c \<longleftrightarrow> slug_char c \<or> c = CHR ''_''"

fun ident_runes :: "string \<Rightarrow> string" where
  "ident_runes [] = []"
| "ident_runes (c # s) = (if ident_char c then c else CHR ''_'') # ident_runes (drop (rune_len (c # s) - 1) s)"

definition sanitizeIdent :: "string \<Rightarrow> string" where
  "sanitizeIdent s = ident_runes (ToLower s)"

definition pgIdentMax :: nat where "pgIdentMax = 63"

definition randHex :: "'e FleetResourceSharedProvisioner \<Rightarrow> nat \<Rightarrow> 'e res_world \<Rightarrow> string op_result \<times> 'e res_world" where
  "randHex uc n w =
     (case at_tick (sh_random uc) w of (r, w1) \<Rightarrow>
        (case r n of None \<Rightarrow> (Inl (OpFleet ErrOther), w1) | Some bs \<Rightarrow> (Inr (hex_EncodeToString bs), w1)))"

definition deriveSharedDBName ::
  "'e FleetResourceSharedProvisioner \<Rightarrow> string \<Rightarrow> 'e res_world \<Rightarrow> string op_result \<times> 'e res_world" where
  "deriveSharedDBName uc claimKey w =
     and_then (randHex uc 6 w) (\<lambda>suffix w1.
       let maxSan = pgIdentMax - length ''res_'' - 1 - length suffix in
       (Inr (''res_'' @ take maxSan (sanitizeIdent claimKey) @ ''_'' @ suffix), w1))"

definition deriveSharedRoleName :: "'e FleetResourceSharedProvisioner \<Rightarrow> 'e res_world \<Rightarrow> string op_result \<times> 'e res_world" where
  "deriveSharedRoleName uc w = and_then (randHex uc 8 w) (\<lambda>h w1. (Inr (''r_'' @ h), w1))"

section \<open>Provisioning\<close>

definition validate_shared ::
  "'e FleetResourceSharedProvisioner \<Rightarrow> ProvisionSharedInput \<Rightarrow> uuid op_result" where
  "validate_shared uc i =
     (if si_Class i \<noteq> resourceClassPostgres then Inl (OpResource ErrResourceClassUnsupported)
      else if si_Tier i \<noteq> resourceTierShared then Inl (OpResource ErrResourceTierUnsupported)
      else case resolveSharedDurability (si_Durability i) of Inl e \<Rightarrow> Inl e | Inr _ \<Rightarrow>
        if si_OwnerOrg i = '''' then Inl (OpResource ErrResourceOwnerOrgRequired)
        else case sh_parse uc (si_OwnerOrg i) of None \<Rightarrow> Inl (OpFleet ErrOther) | Some owner \<Rightarrow>
          if si_ClaimKey i = '''' then Inl (OpResource ErrResourceClaimKeyRequired)
          else if si_SecretRefs i = [] then Inl (OpResource ErrResourceSecretsRequired)
          else if si_VaultToken i = '''' then Inl (OpResource ErrResourceVaultTokenRequired)
          else Inr owner)"

definition shared_claim ::
  "SharedEngineConfig \<Rightarrow> ProvisionSharedInput \<Rightarrow> uuid \<Rightarrow> uuid \<Rightarrow> int \<Rightarrow> LogicalLease \<Rightarrow> instant \<Rightarrow> FleetResource" where
  "shared_claim cfg i rid owner revision lease now =
     \<lparr>rs_ID = rid, rs_OwnerOrg = owner, rs_ClaimKey = si_ClaimKey i, rs_Env = si_Env i, rs_Revision = revision,
      rs_Class = resourceClassPostgres, rs_Tier = resourceTierShared, rs_Phase = FleetResourcePhaseReady,
      rs_AppID = None, rs_DBName = ll_DBName lease, rs_RoleName = ll_RoleName lease,
      rs_Endpoint = sc_Host cfg @ '':'' @ show_int (sc_Port cfg), rs_EndpointID = None, rs_Region = '''',
      rs_Generation = FleetResourceInitialGeneration, rs_AvailabilityClass = AvailabilityClassSingle,
      rs_SyncDegradePolicy = SyncDegradePolicyFailClosed, rs_Durability = DurabilityEphemeral, rs_ProtectionCadenceSeconds = None,
      rs_ProtectionAttachedAt = None, rs_ProtectionWaivedBy = '''', rs_ProtectionWaiverReason = '''', rs_ProtectionWaivedAt = None,
      rs_SecretRefs = si_SecretRefs i, rs_SystemID = '''', rs_LastError = '''', rs_ConsecutiveSnapshotFailures = 0,
      rs_LastSnapshotFailureAt = None, rs_LastSnapshotError = '''', rs_LastSnapshotSuccessAt = None,
      rs_ExpiresAt = Some (now + sc_TTL cfg), rs_CreatedAt = now, rs_UpdatedAt = now, rs_DecommissionedAt = None\<rparr>"

definition shared_output :: "'e FleetResourceSharedProvisioner \<Rightarrow> FleetResource \<Rightarrow> ProvisionSharedOutput" where
  "shared_output uc r = \<lparr>so_Handle = sh_string uc (rs_ID r), so_Phase = rs_Phase r, so_Endpoint = rs_Endpoint r\<rparr>"

text \<open>From the lease to the row, with the roll-back of a save that failed.\<close>

definition persist_shared ::
  "'e FleetResourceSharedProvisioner \<Rightarrow> ProvisionSharedInput \<Rightarrow> uuid \<Rightarrow> int \<Rightarrow> LogicalLease \<Rightarrow> 'e res_world \<Rightarrow>
   ProvisionSharedOutput op_result \<times> 'e res_world" where
  "persist_shared uc i owner revision lease w =
     (case at_tick (sh_now uc) w of (now, w1) \<Rightarrow>
      (case at_tick (sh_newID uc) w1 of (rid, w2) \<Rightarrow>
       let res = shared_claim (sh_cfg uc) i rid owner revision lease now in
       (case SaveResource res w2 of
          (Inr _, w3) \<Rightarrow> (Inr (shared_output uc res), w3)
        | (Inl e, w3) \<Rightarrow>
            (case FindResource owner (si_ClaimKey i) (si_Env i) w3 of
               (Inl _, w4) \<Rightarrow> (Inl e, w4)
             | (Inr winner, w4) \<Rightarrow>
                 (Inr (shared_output uc winner), snd (lp_DropLogical (sh_logical uc) (ll_DBName lease) (ll_RoleName lease) w4))))))"

definition create_shared ::
  "'e FleetResourceSharedProvisioner \<Rightarrow> ProvisionSharedInput \<Rightarrow> uuid \<Rightarrow> int \<Rightarrow> 'e res_world \<Rightarrow>
   ProvisionSharedOutput op_result \<times> 'e res_world" where
  "create_shared uc i owner revision w =
     (case resolveBootSecrets (sh_resolver uc) (si_SecretRefs i) (si_OwnerOrg i) (si_VaultToken i) of
        Inl e \<Rightarrow> (Inl e, w)
      | Inr secrets \<Rightarrow> (case pickSharedPassword secrets of
          Inl e \<Rightarrow> (Inl e, w)
        | Inr password \<Rightarrow>
            and_then (deriveSharedDBName uc (si_ClaimKey i) w) (\<lambda>dbName w1.
            and_then (deriveSharedRoleName uc w1) (\<lambda>roleName w2.
            and_then (lp_ProvisionLogical (sh_logical uc) \<lparr>lq_DBName = dbName, lq_RoleName = roleName, lq_Password = password,
                lq_SeedTemplate = si_SeedTemplate i, lq_AllowedTemplates = sc_SeedTemplates (sh_cfg uc)\<rparr> w2)
              (persist_shared uc i owner revision)))))"

definition ProvisionShared ::
  "'e FleetResourceSharedProvisioner \<Rightarrow> ProvisionSharedInput \<Rightarrow> 'e res_world \<Rightarrow> ProvisionSharedOutput op_result \<times> 'e res_world" where
  "ProvisionShared uc i w =
     (case validate_shared uc i of
        Inl e \<Rightarrow> (Inl e, w)
      | Inr owner \<Rightarrow>
          let revision = (if si_Revision i \<le> 0 then 1 else si_Revision i) in
          (case FindResource owner (si_ClaimKey i) (si_Env i) w of
             (Inr existing, w1) \<Rightarrow>
               if rs_Revision existing = revision then (Inr (shared_output uc existing), w1)
               else (Inl (OpResource ErrResourceConvergeNotSupported), w1)
           | (Inl e, w1) \<Rightarrow>
               if e = OpResource ErrResourceNotFound then create_shared uc i owner revision w1 else (Inl e, w1)))"

section \<open>Reaping\<close>

definition reap_tombstone :: "instant \<Rightarrow> FleetResource \<Rightarrow> FleetResource" where
  "reap_tombstone now r = r\<lparr>rs_Phase := FleetResourcePhaseDecommissioned, rs_DecommissionedAt := Some now, rs_UpdatedAt := now\<rparr>"

fun reap_rows :: "'e FleetResourceSharedProvisioner \<Rightarrow> FleetResource list \<Rightarrow> 'e res_world \<Rightarrow> 'e res_world" where
  "reap_rows uc [] w = w"
| "reap_rows uc (r # rs) w =
     (case lp_DropLogical (sh_logical uc) (rs_DBName r) (rs_RoleName r) w of
        (Inl e, w1) \<Rightarrow> reap_rows uc rs w1
      | (Inr _, w1) \<Rightarrow> (case at_tick (sh_now uc) w1 of (now, w2) \<Rightarrow>
          reap_rows uc rs (snd (SaveResource (reap_tombstone now r) w2))))"

definition reapOnce :: "'e FleetResourceSharedProvisioner \<Rightarrow> 'e res_world \<Rightarrow> 'e res_world" where
  "reapOnce uc w =
     (case at_tick (sh_now uc) w of (now, w1) \<Rightarrow>
        (case ListExpiredShared now w1 of
           (Inl e, w2) \<Rightarrow> w2
         | (Inr rs, w2) \<Rightarrow> reap_rows uc rs w2))"

text \<open>The loop up to its stop: the number of ticks it saw.\<close>

fun runReaper :: "nat \<Rightarrow> 'e FleetResourceSharedProvisioner \<Rightarrow> 'e res_world \<Rightarrow> 'e res_world" where
  "runReaper 0 uc w = w"
| "runReaper (Suc n) uc w = runReaper n uc (reapOnce uc w)"

section \<open>Identifiers\<close>

lemma ident_runes_chars: "c \<in> set (ident_runes s) \<Longrightarrow> ident_char c"
  by (induction s rule: ident_runes.induct) (auto simp: ident_char_def)

text \<open>A derived name is a Postgres identifier of at most 63 bytes that ends in its random suffix.\<close>

lemma deriveSharedDBName_ident:
  assumes "deriveSharedDBName uc key w = (Inr n, w')" "\<And>k bs. sh_random uc k 6 = Some bs \<Longrightarrow> length bs = 6"
  shows "length n \<le> pgIdentMax" "\<forall>c \<in> set n. ident_char c"
proof -
  obtain bs where b: "sh_random uc (rw_tick w) 6 = Some bs"
    and n: "n = ''res_'' @ take (pgIdentMax - 4 - 1 - 12) (sanitizeIdent key) @ ''_'' @ hex_EncodeToString bs"
    using assms by (auto simp: deriveSharedDBName_def randHex_def at_tick_def and_then_ok Let_def length_hex split: option.splits)
  have l: "length (hex_EncodeToString bs) = 12" using assms(2) [OF b] by (simp add: length_hex)
  then show "length n \<le> pgIdentMax" by (simp add: n pgIdentMax_def)
  have "ident_char c" if "c \<in> set (sanitizeIdent key)" for c using that ident_runes_chars by (auto simp: sanitizeIdent_def)
  moreover have "\<forall>c \<in> set ''res_''. ident_char c" by (simp add: ident_char_def slug_char_def)
  ultimately show "\<forall>c \<in> set n. ident_char c"
    using hex_slug by (auto simp: n ident_char_def dest: in_set_takeD)
qed

section \<open>What the reaper drops\<close>

text \<open>What the engine's port promises: it leaves the ledger alone, a drop affects no other database and creates none, and one that
  succeeds removes its database.\<close>

definition drops_only :: "('e \<Rightarrow> string \<Rightarrow> bool) \<Rightarrow> 'e LogicalProvisioner \<Rightarrow> bool" where
  "drops_only has lp \<longleftrightarrow> (\<forall>d r w x w'. lp_DropLogical lp d r w = (x, w') \<longrightarrow>
     rw_db w' = rw_db w \<and> (calm w \<longrightarrow> calm w') \<and> (\<forall>n. has (rw_env w') n \<longrightarrow> has (rw_env w) n) \<and>
     (\<forall>n. n \<noteq> d \<longrightarrow> has (rw_env w) n \<longrightarrow> has (rw_env w') n) \<and> (x = Inr () \<longrightarrow> \<not> has (rw_env w') d))"

text \<open>The states the passes of a reaper can reach from \<open>w0\<close>: databases only go, and only those of the claims in \<open>E\<close>; a
  changed row is the tombstone of one of these, and its database is gone.\<close>

definition reaped_from :: "('e \<Rightarrow> string \<Rightarrow> bool) \<Rightarrow> FleetResource set \<Rightarrow> 'e res_world \<Rightarrow> 'e res_world \<Rightarrow> bool" where
  "reaped_from has E w0 w \<longleftrightarrow> calm w \<and> (\<forall>n. has (rw_env w) n \<longrightarrow> has (rw_env w0) n) \<and>
     (\<forall>n. has (rw_env w0) n \<longrightarrow> n \<notin> rs_DBName ` E \<longrightarrow> has (rw_env w) n) \<and>
     (\<forall>r' \<in> claims w. r' \<in> claims w0 \<or> (\<exists>r \<in> E. \<exists>t. r' = reap_tombstone t r \<and> \<not> has (rw_env w) (rs_DBName r)))"

lemma reaped_from_refl: "calm w \<Longrightarrow> reaped_from has E w w"
  by (simp add: reaped_from_def)

lemma reaped_from_same:
  assumes "reaped_from has E w0 w" "rw_db w' = rw_db w" "calm w'" "rw_env w' = rw_env w"
  shows "reaped_from has E w0 w'"
  using assms by (simp add: reaped_from_def)

lemma reaped_from_drop:
  assumes "reaped_from has E w0 w" "r \<in> E" "drops_only has lp" "lp_DropLogical lp (rs_DBName r) role w = (x, w')"
  shows "reaped_from has E w0 w'" "x = Inr () \<Longrightarrow> \<not> has (rw_env w') (rs_DBName r)"
proof -
  have d: "rw_db w' = rw_db w" "calm w \<longrightarrow> calm w'" "\<forall>n. has (rw_env w') n \<longrightarrow> has (rw_env w) n"
    "\<forall>n. n \<noteq> rs_DBName r \<longrightarrow> has (rw_env w) n \<longrightarrow> has (rw_env w') n" "x = Inr () \<longrightarrow> \<not> has (rw_env w') (rs_DBName r)"
    using assms(3,4) unfolding drops_only_def by blast+
  show "reaped_from has E w0 w'"
    using assms(1,2) d(1-4) unfolding reaped_from_def by (metis image_eqI)
  show "x = Inr () \<Longrightarrow> \<not> has (rw_env w') (rs_DBName r)" using d(5) by blast
qed

lemma SaveResource_env: "SaveResource r w = (x, w') \<Longrightarrow> rw_env w' = rw_env w"
  by (auto simp: SaveResource_def lwrite_def next_ledger_event_def split: list.splits if_splits sum.splits)

lemma reaped_from_save:
  assumes "reaped_from has E w0 w" "r \<in> E" "\<not> has (rw_env w) (rs_DBName r)" "SaveResource (reap_tombstone t r) w = (x, w')"
  shows "reaped_from has E w0 w'"
proof -
  have c: "calm w" using assms(1) by (simp add: reaped_from_def)
  show ?thesis
    using assms(1-3) SaveResource_calm [OF assms(4) c] SaveResource_env [OF assms(4)] unfolding reaped_from_def by auto
qed

lemma reap_rows_from:
  assumes "drops_only has (sh_logical uc)" "set rs \<subseteq> E" "reaped_from has E w0 w"
  shows "reaped_from has E w0 (reap_rows uc rs w)"
  using assms(2,3)
proof (induction rs arbitrary: w)
  case (Cons r rs)
  obtain x w1 where d: "lp_DropLogical (sh_logical uc) (rs_DBName r) (rs_RoleName r) w = (x, w1)" by fastforce
  have r: "r \<in> E" "set rs \<subseteq> E" using Cons.prems(1) by auto
  note d' = reaped_from_drop [OF Cons.prems(2) r(1) assms(1) d]
  show ?case
  proof (cases x)
    case (Inl e)
    then show ?thesis using Cons.IH [OF r(2) d'(1)] by (simp add: d)
  next
    case (Inr u)
    let ?w2 = "w1\<lparr>rw_tick := Suc (rw_tick w1)\<rparr>"
    have "calm ?w2" using d'(1) by (simp add: reaped_from_def calm_def)
    then have w2: "reaped_from has E w0 ?w2" using reaped_from_same [OF d'(1), of ?w2] by simp
    obtain y w3 where s: "SaveResource (reap_tombstone (sh_now uc (rw_tick w1)) r) ?w2 = (y, w3)" by fastforce
    have "\<not> has (rw_env ?w2) (rs_DBName r)" using d'(2) Inr by simp
    then show ?thesis using Cons.IH [OF r(2) reaped_from_save [OF w2 r(1) _ s]] Inr by (simp add: d at_tick_def s)
  qed
qed simp

text \<open>The claims of a ledger that are over at some reading of the clock.\<close>

definition expiring :: "'e FleetResourceSharedProvisioner \<Rightarrow> 'e res_world \<Rightarrow> FleetResource set" where
  "expiring uc w = {r \<in> claims w. \<exists>k. expired_shared (sh_now uc k) r}"

lemma reapOnce_from:
  assumes "drops_only has (sh_logical uc)" "reaped_from has (expiring uc w0) w0 w"
  shows "reaped_from has (expiring uc w0) w0 (reapOnce uc w)"
proof -
  let ?w1 = "w\<lparr>rw_tick := Suc (rw_tick w)\<rparr>"
  let ?now = "sh_now uc (rw_tick w)"
  have c1: "calm ?w1" using assms(2) by (simp add: reaped_from_def calm_def)
  obtain l w2 where l: "ListExpiredShared ?now ?w1 = (l, w2)" by fastforce
  note l' = lread_calm [OF l [unfolded ListExpiredShared_def] c1]
  have e: "rw_env w2 = rw_env w"
    using l by (auto simp: ListExpiredShared_def lread_def next_ledger_event_def split: list.splits)
  have w2: "reaped_from has (expiring uc w0) w0 w2" using reaped_from_same [OF assms(2), of w2] l' e by simp
  have "set rs \<subseteq> expiring uc w0" if "l = Inr rs" for rs
  proof
    fix r assume "r \<in> set rs"
    then have r: "r \<in> claims w" "expired_shared ?now r" using l'(3) [of rs] that by auto
    then have "r \<in> claims w0"
      using assms(2) unfolding reaped_from_def by (auto simp: expired_shared_def reap_tombstone_def)
    then show "r \<in> expiring uc w0" using r by (auto simp: expiring_def)
  qed
  then show ?thesis using reap_rows_from [OF assms(1) _ w2] w2 by (cases l) (simp_all add: reapOnce_def at_tick_def l)
qed


section \<open>A sample engine\<close>

text \<open>An engine that keeps a list of databases.\<close>

definition demo_engine :: "string list LogicalProvisioner" where
  "demo_engine = \<lparr>lp_ProvisionLogical = (\<lambda>q w. (Inr \<lparr>ll_DBName = lq_DBName q, ll_RoleName = lq_RoleName q\<rparr>,
       w\<lparr>rw_env := lq_DBName q # rw_env w\<rparr>)),
     lp_DropLogical = (\<lambda>d r w. (Inr (), w\<lparr>rw_env := filter (\<lambda>n. n \<noteq> d) (rw_env w)\<rparr>))\<rparr>"

definition demo_shared :: "string list FleetResourceSharedProvisioner" where
  "demo_shared = \<lparr>sh_logical = demo_engine, sh_cfg = \<lparr>sc_Host = ''h'', sc_Port = 5432, sc_TTL = 60, sc_SeedTemplates = []\<rparr>,
     sh_resolver = Some (\<lambda>_ _. Inr ''pw''), sh_now = (\<lambda>k. 10 * int k), sh_newID = (\<lambda>_. 7), sh_random = (\<lambda>_ n. Some (replicate n 0)),
     sh_parse = (\<lambda>_. Some 1), sh_string = (\<lambda>_. ''id'')\<rparr>"

definition demo_shared_input :: ProvisionSharedInput where
  "demo_shared_input = \<lparr>si_OwnerOrg = ''org'', si_ClaimKey = ''a-B'', si_Env = '''', si_Revision = 0, si_Class = ''postgres'',
     si_Tier = ''shared'', si_SecretRefs = [''s''], si_VaultToken = ''t'', si_SeedTemplate = '''', si_Durability = ''''\<rparr>"

definition demo_shared_world :: "FleetResource list \<Rightarrow> string list \<Rightarrow> ledger_event list \<Rightarrow> nat \<Rightarrow> string list res_world" where
  "demo_shared_world rs dbs evs k = \<lparr>rw_db = \<lparr>lg_resources = rs, lg_points = [], lg_beats = []\<rparr>, rw_script = evs, rw_tick = k, rw_env = dbs\<rparr>"

definition demo_shared_row :: FleetResource where
  "demo_shared_row = shared_claim (sh_cfg demo_shared) demo_shared_input 7 1 1 \<lparr>ll_DBName = ''res_a_b_000000000000'', ll_RoleName = ''r_0000000000000000''\<rparr> 20"

lemma demo_engine_drops: "drops_only (\<lambda>e n. n \<in> set e) demo_engine"
  by (auto simp: drops_only_def demo_engine_def calm_def)



end
