(* ===== verification/Resource_Cadence.thy ===== *)
theory Resource_Cadence
  imports Resource_Shared
begin

text \<open>
  The worker that takes the scheduled recovery points of one host (\<open>internal/usecase/fleet_protection_cadence.go\<close>) and
  records, in the ledger the accept gate reads, that it does.  Captures go through a port; the volume table is
  read out of the environment.
\<close>

section \<open>The worker\<close>

definition protectionCadenceBatch :: int where "protectionCadenceBatch = 3"

definition protectionCadenceRetryAfter :: int where "protectionCadenceRetryAfter = 10 * 60 * second"

type_synonym 'e ProtectionCapture = "uuid \<Rightarrow> uuid \<Rightarrow> 'e res_world \<Rightarrow> op_error option \<times> 'e res_world"

definition volumeSnapshotCapture :: "'e VolumeSnapshotter \<Rightarrow> 'e ProtectionCapture" where
  "volumeSnapshotCapture snap i app w = (case snap i app w of ((_, e), w1) \<Rightarrow> (e, w1))"

definition NewVolumeSnapshotCapture :: "'e VolumeSnapshotter option \<Rightarrow> 'e ProtectionCapture option" where
  "NewVolumeSnapshotCapture snap = map_option volumeSnapshotCapture snap"

text \<open>\<open>cw_done\<close> says whether the context of the call is cancelled at a tick.\<close>

record 'e FleetProtectionCadenceWorker =
  cw_volumes :: "'e \<Rightarrow> Volume list"
  cw_capture :: "'e ProtectionCapture"
  cw_selfHost :: uuid
  cw_batch :: int
  cw_retryAfter :: int
  cw_now :: "nat \<Rightarrow> instant"
  cw_done :: "nat \<Rightarrow> op_error option"
  cw_string :: "uuid \<Rightarrow> string"

definition NewFleetProtectionCadenceWorker ::
  "('e \<Rightarrow> Volume list) option \<Rightarrow> 'e ProtectionCapture option \<Rightarrow> uuid \<Rightarrow> (nat \<Rightarrow> instant) \<Rightarrow> (nat \<Rightarrow> op_error option) \<Rightarrow> (uuid \<Rightarrow> string) \<Rightarrow>
   'e FleetProtectionCadenceWorker option" where
  "NewFleetProtectionCadenceWorker ledger capture selfHost now cancelled str =
     (case ledger of None \<Rightarrow> None | Some vols \<Rightarrow>
      (case capture of None \<Rightarrow> None | Some cap \<Rightarrow>
        if selfHost = 0 then None
        else Some \<lparr>cw_volumes = vols, cw_capture = cap, cw_selfHost = selfHost, cw_batch = protectionCadenceBatch,
          cw_retryAfter = protectionCadenceRetryAfter, cw_now = now, cw_done = cancelled, cw_string = str\<rparr>))"

definition beat :: "'e FleetProtectionCadenceWorker \<Rightarrow> 'e res_world \<Rightarrow> 'e res_world" where
  "beat cw w =
     (case at_tick (cw_now cw) w of (now, w1) \<Rightarrow>
        snd (UpsertProtectionHeartbeat ProtectionComponentCadence (cw_string cw (cw_selfHost cw)) now '''' w1))"

fun capture_rows ::
  "'e FleetProtectionCadenceWorker \<Rightarrow> FleetResource list \<Rightarrow> 'e res_world \<Rightarrow> op_error list \<times> 'e res_world" where
  "capture_rows cw [] w = ([], w)"
| "capture_rows cw (r # rs) w =
     (case at_tick (cw_done cw) w of
        (Some e, w1) \<Rightarrow> ([e], w1)
      | (None, w1) \<Rightarrow> (case rs_AppID r of
          None \<Rightarrow> capture_rows cw rs w1
        | Some app \<Rightarrow> (case cw_capture cw (rs_ID r) app w1 of
            (None, w2) \<Rightarrow> capture_rows cw rs w2
          | (Some e, w2) \<Rightarrow> (case capture_rows cw rs w2 of (es, w3) \<Rightarrow> (e # es, w3)))))"

text \<open>The errors are joined in the order in which they occur.\<close>

definition RunOnce :: "'e FleetProtectionCadenceWorker \<Rightarrow> 'e res_world \<Rightarrow> op_error list \<times> 'e res_world" where
  "RunOnce cw w =
     (case at_tick (cw_now cw) (beat cw w) of (now, w1) \<Rightarrow>
        (case ListResourcesDueSnapshot (cw_volumes cw) (cw_selfHost cw) now (cw_retryAfter cw) (cw_batch cw) w1 of
           (Inl e, w2) \<Rightarrow> ([e], w2)
         | (Inr due, w2) \<Rightarrow> capture_rows cw due w2))"

text \<open>\<open>Start\<close> and the loop up to its stop.\<close>

definition run_worker :: "nat \<Rightarrow> 'e FleetProtectionCadenceWorker \<Rightarrow> 'e res_world \<Rightarrow> 'e res_world" where
  "run_worker n cw w = ((\<lambda>v. snd (RunOnce cw v)) ^^ n) (beat cw w)"

section \<open>A worker stays on its host\<close>

lemma beat_frame:
  assumes "calm w"
  shows "lg_resources (rw_db (beat cw w)) = lg_resources (rw_db w)" "rw_env (beat cw w) = rw_env w"
    "rw_tick (beat cw w) = Suc (rw_tick w)" "calm (beat cw w)"
  using assms
  by (auto simp: beat_def at_tick_def UpsertProtectionHeartbeat_def lwrite_def next_ledger_event_def upsert_beat_def calm_def
      split: list.splits if_splits sum.splits)

text \<open>The claims of a state that this worker has to protect: live, durable, enrolled, not in a restore, past their own
  cadence, and with volumes that are all on its host.\<close>

definition due_here :: "'e FleetProtectionCadenceWorker \<Rightarrow> instant \<Rightarrow> 'e res_world \<Rightarrow> FleetResource set" where
  "due_here cw now w = {r \<in> claims w. rs_Durability r = DurabilityDurable \<and> live_claim r \<and> rs_Phase r \<noteq> FleetResourcePhaseRestoring \<and>
     (\<exists>n. rs_ProtectionCadenceSeconds r = Some n \<and> (\<forall>t. rs_LastSnapshotSuccessAt r = Some t \<longrightarrow> t + n * second < now)) \<and>
     (\<exists>v \<in> set (cw_volumes cw (rw_env w)). vo_ResourceID v = Some (rs_ID r)) \<and>
     (\<forall>v \<in> set (cw_volumes cw (rw_env w)). vo_ResourceID v = Some (rs_ID r) \<longrightarrow> vo_HostAffinity v = Some (cw_selfHost cw))}"

lemma due_snapshot_here:
  assumes "r \<in> claims w" "due_snapshot (cw_volumes cw (rw_env w)) (cw_selfHost cw) now (cw_retryAfter cw) r"
  shows "r \<in> due_here cw now w"
  using assms by (auto simp: due_here_def due_snapshot_def live_claim_def split: option.splits)

definition capture_otherwise ::
  "FleetResource set \<Rightarrow> 'e ProtectionCapture \<Rightarrow> 'e FleetProtectionCadenceWorker \<Rightarrow> 'e FleetProtectionCadenceWorker" where
  "capture_otherwise D other cw = cw\<lparr>cw_capture :=
     (\<lambda>i app. if \<exists>r \<in> D. rs_ID r = i \<and> rs_AppID r = Some app then cw_capture cw i app else other i app)\<rparr>"

lemma capture_rows_otherwise:
  "set rs \<subseteq> D \<Longrightarrow> capture_rows (capture_otherwise D other cw) rs w = capture_rows cw rs w"
proof (induction rs arbitrary: w)
  case (Cons r rs)
  have "cw_capture (capture_otherwise D other cw) (rs_ID r) app = cw_capture cw (rs_ID r) app" if "rs_AppID r = Some app" for app
    using Cons.prems that by (auto simp: capture_otherwise_def)
  moreover have "cw_done (capture_otherwise D other cw) = cw_done cw" by (simp add: capture_otherwise_def)
  ultimately show ?case using Cons by (auto split: option.splits prod.splits)
qed simp

lemma nulls_first_set: "set (nulls_first rs) = set rs"
  by (auto simp: nulls_first_def)

text \<open>Claim C39.  A cadence worker snapshots only what is due on its own host.  However the capture of any other database would behave, a pass
  behaves the same: every database it captures is live, durable, enrolled, past its own cadence and not
  in a restore, and all of its volumes are pinned to the worker's host.  No other process writes the ledger during the pass.\<close>

theorem RunOnce_own_host_only:
  assumes "calm w"
  shows "RunOnce (capture_otherwise (due_here cw (cw_now cw (Suc (rw_tick w))) w) other cw) w = RunOnce cw w"
proof -
  let ?now = "cw_now cw (Suc (rw_tick w))"
  let ?D = "due_here cw ?now w"
  let ?cw = "capture_otherwise ?D other cw"
  have same: "beat ?cw = beat cw" "cw_now ?cw = cw_now cw" "cw_volumes ?cw = cw_volumes cw" "cw_selfHost ?cw = cw_selfHost cw"
    "cw_retryAfter ?cw = cw_retryAfter cw" "cw_batch ?cw = cw_batch cw"
    by (simp_all add: capture_otherwise_def beat_def fun_eq_iff)
  let ?w1 = "(beat cw w)\<lparr>rw_tick := Suc (rw_tick (beat cw w))\<rparr>"
  note f = beat_frame [OF assms, of cw]
  have t: "at_tick (cw_now cw) (beat cw w) = (?now, ?w1)" by (simp add: at_tick_def f)
  have c1: "calm ?w1" using f(4) by (simp add: calm_def)
  obtain l w2 where l: "ListResourcesDueSnapshot (cw_volumes cw) (cw_selfHost cw) ?now (cw_retryAfter cw) (cw_batch cw) ?w1 = (l, w2)" by fastforce
  have "set due \<subseteq> ?D" if "l = Inr due" for due
  proof (cases "cw_batch cw \<le> 0")
    case False
    from lread_calm(3) [OF l [unfolded ListResourcesDueSnapshot_def, simplified False if_False] c1 that]
    have "due = take (nat (cw_batch cw)) (nulls_first (filter (due_snapshot (cw_volumes cw (rw_env w)) (cw_selfHost cw) ?now (cw_retryAfter cw))
        (lg_resources (rw_db w))))" by (simp add: f)
    then show ?thesis by (auto simp: nulls_first_set intro!: due_snapshot_here dest: in_set_takeD)
  qed (use that l in \<open>auto simp: ListResourcesDueSnapshot_def\<close>)
  then show ?thesis
    unfolding RunOnce_def same t prod.case l by (cases l) (simp_all add: capture_rows_otherwise)
qed

section \<open>A pass proves the cadence\<close>

text \<open>A ledger every statement of which is answered, and captures that keep it so and write no heartbeat.\<close>

definition answered :: "'e res_world \<Rightarrow> bool" where
  "answered w \<longleftrightarrow> (\<forall>e \<in> set (rw_script w). le_fault e = NoFault \<and> le_before e = [])"

definition keeps_beats :: "'e ProtectionCapture \<Rightarrow> bool" where
  "keeps_beats cap \<longleftrightarrow> (\<forall>i app w e w'. cap i app w = (e, w') \<longrightarrow> lg_beats (rw_db w') = lg_beats (rw_db w) \<and> (answered w \<longrightarrow> answered w'))"

lemma answered_event: "answered w \<Longrightarrow> \<exists>w'. next_ledger_event w = (NoFault, w') \<and> rw_db w' = rw_db w \<and> answered w'"
  by (cases "rw_script w") (auto simp: answered_def next_ledger_event_def)

lemma answered_lread:
  assumes "lread q w = (x, w')" "answered w"
  shows "x = q (rw_db w)" "rw_db w' = rw_db w" "answered w'"
proof -
  obtain v where "next_ledger_event w = (NoFault, v)" "rw_db v = rw_db w" "answered v" using answered_event [OF assms(2)] by blast
  then show "x = q (rw_db w)" "rw_db w' = rw_db w" "answered w'" using assms(1) by (auto simp: lread_def)
qed

lemma capture_rows_beats:
  assumes "capture_rows cw rs w = (es, w')" "keeps_beats (cw_capture cw)" "answered w"
  shows "lg_beats (rw_db w') = lg_beats (rw_db w) \<and> answered w'"
  using assms(1,3)
proof (induction rs arbitrary: w es)
  case (Cons r rs)
  let ?w1 = "w\<lparr>rw_tick := Suc (rw_tick w)\<rparr>"
  have a: "answered ?w1" using Cons.prems(2) by (simp add: answered_def)
  show ?case
  proof (cases "cw_done cw (rw_tick w) = None \<and> rs_AppID r \<noteq> None")
    case False
    then show ?thesis using Cons.prems Cons.IH [OF _ a] a by (auto simp: at_tick_def split: option.splits)
  next
    case True
    then obtain app where app: "cw_done cw (rw_tick w) = None" "rs_AppID r = Some app" by auto
    obtain e w2 where c: "cw_capture cw (rs_ID r) app ?w1 = (e, w2)" by fastforce
    have k: "lg_beats (rw_db w2) = lg_beats (rw_db w) \<and> answered w2"
      using assms(2) a c unfolding keeps_beats_def by fastforce
    obtain es' where "capture_rows cw rs w2 = (es', w')"
      using Cons.prems(1) by (auto simp: at_tick_def app c split: option.splits prod.splits)
    with Cons.IH k show ?thesis by force
  qed
qed simp

lemma RunOnce_beats:
  assumes "RunOnce cw w = (es, w')" "keeps_beats (cw_capture cw)" "answered w" "cw_string cw (cw_selfHost cw) \<noteq> ''''"
  shows "\<exists>bs. lg_beats (rw_db w') = \<lparr>pb_Component = ProtectionComponentCadence, pb_Scope = cw_string cw (cw_selfHost cw),
      pb_BeatenAt = cw_now cw (rw_tick w), pb_Detail = ''''\<rparr> # bs" "answered w'"
proof -
  let ?b = "\<lparr>pb_Component = ProtectionComponentCadence, pb_Scope = cw_string cw (cw_selfHost cw),
      pb_BeatenAt = cw_now cw (rw_tick w), pb_Detail = ''''\<rparr>"
  have "answered (w\<lparr>rw_tick := Suc (rw_tick w)\<rparr>)" using assms(3) by (simp add: answered_def)
  then obtain v where v: "next_ledger_event (w\<lparr>rw_tick := Suc (rw_tick w)\<rparr>) = (NoFault, v)" "answered v" using answered_event by blast
  have ck: "beat_ck ?b" using assms(4) by (simp add: beat_ck_def)
  have b: "\<exists>bs. lg_beats (rw_db (beat cw w)) = ?b # bs" "answered (beat cw w)"
    using v ck by (simp_all add: beat_def at_tick_def UpsertProtectionHeartbeat_def lwrite_def upsert_beat_def answered_def)
  obtain now w1 where t: "at_tick (cw_now cw) (beat cw w) = (now, w1)" by fastforce
  have w1: "rw_db w1 = rw_db (beat cw w)" "answered w1" using t b(2) by (auto simp: at_tick_def answered_def)
  obtain l w2 where l: "ListResourcesDueSnapshot (cw_volumes cw) (cw_selfHost cw) now (cw_retryAfter cw) (cw_batch cw) w1 = (l, w2)" by fastforce
  have w2: "rw_db w2 = rw_db w1 \<and> answered w2"
  proof (cases "cw_batch cw \<le> 0")
    case False
    from answered_lread(2,3) [OF l [unfolded ListResourcesDueSnapshot_def, simplified False if_False] w1(2)] show ?thesis by blast
  qed (use l w1 in \<open>auto simp: ListResourcesDueSnapshot_def\<close>)
  have "lg_beats (rw_db w') = lg_beats (rw_db w2) \<and> answered w'"
  proof (cases l)
    case (Inl e)
    then show ?thesis using assms(1) w2 by (simp add: RunOnce_def t l)
  next
    case (Inr due)
    then have "capture_rows cw due w2 = (es, w')" using assms(1) by (simp add: RunOnce_def t l)
    from capture_rows_beats [OF this assms(2)] w2 show ?thesis by blast
  qed
  then show "\<exists>bs. lg_beats (rw_db w') = ?b # bs" "answered w'" using b w1 w2 by auto
qed

text \<open>Claim C40.  The worker's pass is the fact the accept gate asks for.  After a pass whose statements were answered, found work or not,
  captures failed or not, the gate attaches the cadence component for this worker's host as long as its clock is within the
  staleness window of the pass.\<close>

theorem pass_attaches_cadence:
  assumes "RunOnce cw w = (es, w')" "keeps_beats (cw_capture cw)" "answered w" "cw_string cw (cw_selfHost cw) \<noteq> ''''"
    and "up_facts uc" "0 < enrolled" "up_now uc (rw_tick w') - cw_now cw (rw_tick w) \<le> pc_CadenceStaleness (up_protection uc)"
  shows "cr_Attached (fst (evaluateCadence uc \<lparr>cs_hosts = [cw_string cw (cw_selfHost cw)], cs_failed = False\<rparr> enrolled w'))"
proof -
  obtain bs where b: "lg_beats (rw_db w') = \<lparr>pb_Component = ProtectionComponentCadence, pb_Scope = cw_string cw (cw_selfHost cw),
      pb_BeatenAt = cw_now cw (rw_tick w), pb_Detail = ''''\<rparr> # bs"
    using RunOnce_beats(1) [OF assms(1-4)] by blast
  let ?w1 = "w'\<lparr>rw_tick := Suc (rw_tick w')\<rparr>"
  have "answered ?w1" using RunOnce_beats(2) [OF assms(1-4)] by (simp add: answered_def)
  moreover obtain x w2 where g: "GetProtectionHeartbeat ProtectionComponentCadence (cw_string cw (cw_selfHost cw)) ?w1 = (x, w2)" by fastforce
  ultimately have "x = Inr (hd (lg_beats (rw_db w')))"
    using answered_lread(1) [OF g [unfolded GetProtectionHeartbeat_def]] b by simp
  then show ?thesis using assms(5-7) by (simp add: evaluateCadence_def uc_now_def IsFreshAt_def g b)
qed

section \<open>A sample worker\<close>

definition demo_worker :: "unit FleetProtectionCadenceWorker" where
  "demo_worker = \<lparr>cw_volumes = (\<lambda>_. [\<lparr>vo_ID = 1, vo_AppID = Some 2, vo_ResourceID = Some 7, vo_SizeMB = 1, vo_HostAffinity = Some 3,
       vo_SnapshotRef = '''', vo_MountPath = '''', vo_BackingPath = '''', vo_AttachedReplica = None, vo_Status = VolumeStatusAttached,
       vo_DeviceName = '''', vo_CreatedAt = 0, vo_UpdatedAt = 0\<rparr>]),
     cw_capture = (\<lambda>_ _ w. (Some (OpFleet ErrOther), w)), cw_selfHost = 3, cw_batch = protectionCadenceBatch,
     cw_retryAfter = protectionCadenceRetryAfter, cw_now = (\<lambda>_. 5), cw_done = (\<lambda>_. None), cw_string = up_string demo_control_plane\<rparr>"

definition demo_enrolled :: FleetResource where
  "demo_enrolled = demo_row\<lparr>rs_ProtectionCadenceSeconds := Some 3600\<rparr>"

theorem RunOnce_own_host_only_witness:
  "demo_enrolled \<in> due_here demo_worker 5 (demo_ledger [demo_enrolled] []) \<and>
   RunOnce (capture_otherwise (due_here demo_worker 5 (demo_ledger [demo_enrolled] [])) (\<lambda>_ _ w. (None, w\<lparr>rw_tick := 0\<rparr>)) demo_worker)
     (demo_ledger [demo_enrolled] []) = RunOnce demo_worker (demo_ledger [demo_enrolled] [])"
proof
  show "demo_enrolled \<in> due_here demo_worker 5 (demo_ledger [demo_enrolled] [])"
    by (simp add: due_here_def live_claim_def demo_ledger_def demo_enrolled_def demo_row_def accepted_claim_def demo_worker_def)
  have "calm (demo_ledger [demo_enrolled] [])" "cw_now demo_worker (Suc (rw_tick (demo_ledger [demo_enrolled] []))) = 5"
    by (simp_all add: calm_def demo_ledger_def demo_worker_def)
  then show "RunOnce (capture_otherwise (due_here demo_worker 5 (demo_ledger [demo_enrolled] [])) (\<lambda>_ _ w. (None, w\<lparr>rw_tick := 0\<rparr>)) demo_worker)
     (demo_ledger [demo_enrolled] []) = RunOnce demo_worker (demo_ledger [demo_enrolled] [])"
    using RunOnce_own_host_only [of "demo_ledger [demo_enrolled] []" demo_worker] by simp
qed

theorem pass_attaches_cadence_witness:
  "cr_Attached (fst (evaluateCadence demo_control_plane \<lparr>cs_hosts = [''host''], cs_failed = False\<rparr> 3600
     (snd (RunOnce demo_worker (demo_ledger [demo_enrolled] [])))))"
proof -
  let ?w = "demo_ledger [demo_enrolled] []"
  have k: "keeps_beats (cw_capture demo_worker)" "answered ?w" by (simp_all add: keeps_beats_def demo_worker_def answered_def demo_ledger_def)
  have h: "cw_string demo_worker (cw_selfHost demo_worker) = ''host''" by (simp add: demo_worker_def demo_control_plane_def)
  have u: "up_facts demo_control_plane" "up_now demo_control_plane n - cw_now demo_worker m \<le> pc_CadenceStaleness (up_protection demo_control_plane)" for n m
    by (simp_all add: demo_control_plane_def demo_worker_def)
  show ?thesis
    using pass_attaches_cadence [OF prod.collapse [symmetric] k, of demo_control_plane 3600] u h by simp
qed

end
