(* ===== verification/Spec2Isabelle.thy ===== *)
theory Spec2Isabelle
  imports Subnet_Pool Fleet_Reconcile Net_Fabric Resource_Cadence
begin

text \<open>
  A verification development of the Sentiae runtime-service, a Go control plane that places, boots, watches
  and tears down Firecracker microVMs on a fleet of hosts.  Paths below are relative to \<open>src/internal\<close>
  of the repository.

  \<^bold>\<open>How the program works.\<close>  Every fleet host runs one process of the service against one
  Postgres database.  A deployment arrives at \<open>FleetOrchestrator.ProvisionApp\<close>
  (\<open>usecase/fleet_orchestrator.go\<close>), which writes an app row, makes its volumes
  (\<open>usecase/fleet_volume_manager.go\<close>, \<open>infrastructure/volume/backing.go\<close>) and its ingress
  route, and reconciles: the scheduler (\<open>usecase/fleet_scheduler.go\<close>) picks a live host of the registry
  (\<open>usecase/fleet_host_registry.go\<close>) and a replica row is placed there.  The process of that host boots
  the row (\<open>usecase/fleet_replica_runtime.go\<close>) through the image booter
  (\<open>infrastructure/firecracker/image_boot.go\<close>, \<open>jail.go\<close>), whose addresses, TAP device, uid and
  jail are a lease (\<open>usecase/fleet_net_allocator.go\<close>, \<open>domain/fleet_net_lease.go\<close>,
  \<open>repository/postgres/fleet_net_lease_repo.go\<close>).  At start-up, and before every boot, the leases are
  compared with the owners (\<open>usecase/fleet_net_lease_reconcile.go\<close>).  An app scaled to zero is woken by a
  request (\<open>usecase/fleet_activator.go\<close>).  Traffic between microVMs passes the host's packet filter
  (\<open>infrastructure/netfabric/iptables_enforcer.go\<close>), which the network fabric
  (\<open>usecase/fleet_network_fabric.go\<close>) fills from the tables of networks and policies.  A database is a claim in a ledger
  (\<open>domain/fleet_resource.go\<close>, \<open>repository/postgres/fleet_resource_repo.go\<close>) whose backing app, volumes and public
  name (\<open>domain/resource_endpoint.go\<close>) the resource provisioner (\<open>usecase/fleet_resource_provision.go\<close>,
  \<open>fleet_resource_protection.go\<close>) makes, watches and tears down; small ones are logical databases of a shared engine
  (\<open>usecase/fleet_resource_shared.go\<close>), and a worker per host takes the scheduled recovery points
  (\<open>usecase/fleet_protection_cadence.go\<close>).

  \<^bold>\<open>The theories.\<close>

  \<^item> \<open>Prelude\<close>: Go's \<open>int\<close> with its wrap-around, decimal numerals, splitting and joining, white
    space, results as sums.  \<open>Netip\<close>, \<open>Paths\<close>: the parts of \<open>net/netip\<close> and
    \<open>path/filepath\<close> the program uses.  \<open>Errors\<close>: the sentinel errors as datatypes.
  \<^item> \<open>Net_Lease\<close>, \<open>Net_Lease_Repo\<close>, \<open>Net_Allocator\<close>: the coordinates of a lease, the lease table with
    its unique indexes under interleaved statements and lost calls, the allocator over the locale of a
    lease store, and the plane as a step relation.  \<open>Subnet_Pool\<close>: the egress subnet pool.
  \<^item> \<open>Jail\<close>, \<open>Image_Teardown\<close>: jail names and identities, the proof of a VM's end, the order of the
    teardown, the set-up of a VM's network.
  \<^item> \<open>Net_Reconcile\<close>: the start-up pass, the verdict before a boot and the guarded booter.
  \<^item> \<open>Fleet_Entities\<close>, \<open>Host_Facts\<close>, \<open>Host_Registry\<close>, \<open>Fleet_Scheduler\<close>: rows, capacities and
    failure domains, registration and heartbeat, placement.
  \<^item> \<open>Fleet_Volumes\<close>, \<open>Ext4_Probe\<close>: backing files, the volume ledger, the volume manager and the superblock
    probe.
  \<^item> \<open>Fleet_Store\<close>, \<open>Fleet_Runtime\<close>, \<open>Ingress_Names\<close>, \<open>Fleet_Orchestrator\<close>, \<open>Fleet_Activator\<close>: the
    shared tables, the replica runtime, host names (with SHA-256), every operation of the orchestrator,
    the wake path.  \<open>Fleet_Fence\<close> proves for each operation, over the locale \<open>fleet_host\<close>, what it
    leaves of other hosts' rows; \<open>Fleet_Reconcile\<close> holds the properties.
  \<^item> \<open>Net_Filter\<close>: the iptables adapter, command by command, the fate of a packet in a set of chains, the locales
    \<open>iptables\<close> (what the manual says of each command) and \<open>netfilter\<close> (what a match means), a small kernel that
    has these laws.  \<open>Net_Fabric\<close>: the tables of networks and policies and every operation of the fabric.
  \<^item> \<open>Resource_Endpoint\<close>: the minting and validation of public names.  \<open>Resource_Ledger\<close>: claims, recovery points and
    heartbeats with their statements.  \<open>Resource_Provision\<close>: the evaluation of protection, provisioning, status
    and decommission of dedicated databases over the ledger and the ports of the Go type.  \<open>Resource_Claims\<close>: their properties.
    \<open>Resource_Shared\<close>: shared databases and their reaper.  \<open>Resource_Cadence\<close>: the snapshot worker.

  \<^bold>\<open>How state and effects correspond.\<close>  A struct is a record whose fields carry a prefix per type, a Go interface
  a record of functions or a locale.  An error is a value of a sum type; texts of errors, log
  lines and metrics are left out.  A database table is a list of rows with the keys of the
  migrations; a script says which statements of a call are lost on the way out or on the way back, and in the lease, host,
  volume and claim tables also what other processes commit between two statements.  The clock and fresh identifiers are
  arguments.  File systems, kernels, guests, secret stores and object stores are parameters with the documented
  behaviour as hypotheses.  Machine integers are \<open>int\<close> with \<open>wrap64\<close> where the code can overflow,
  bytes and hashes are words.

  \<^bold>\<open>What is shown.\<close>  No two recorded leases collide, along every interleaving, and an acquired lease is exclusive,
  progress and idempotence included; derived coordinates meet their arithmetic
  specification; jails of live VMs have disjoint identities; no host resource of a VM is released before its end is
  proven; the start-up pass frees exactly the spent leases; the guard boots exactly on a proven plane;
  registration keeps one address block per host; placement is best among the admissible hosts and is refused
  only when none is; provisioning never changes a file it did not make and deletion touches only the app's
  own; no host changes another host's replica rows along any run of the fleet; decommissioning deletes
  last; the wake path returns and wakes only what opted in; the superblock parser equals unbounded
  arithmetic.  The packet filter refines an abstract policy along every run of the adapter, failures included; a
  proven posture leaves the decision on traffic between microVMs to one chain; applied policies admit exactly
  the flows between the live replicas they name.  A database is torn down only with a recovery point in the catalog; an
  accepted claim carries its protection or a named waiver; a minted name is valid and rebuilt from
  its parts; the reaper drops exactly what is over; the snapshot worker stays on its host, and its pass is what
  the accept gate asks for.  The theorems named as findings in their text show where the code departs from its comments.

  \<^bold>\<open>Bounds.\<close>  Loops are structural recursion, or \<open>function\<close> with a measure.  The poll loop of the
  wake path is a partial function, proved to return when the clock advances.  The bounded retry loops
  (\<open>netLeaseAcquireAttempts\<close>, \<open>maxRuleDeleteLoops\<close>) carry the code's own bound, so no other fuel is used.

  \<^bold>\<open>Not modelled.\<close>  Handlers, wiring and configuration, messaging and generated code carry no state of their own.  The
  legacy provider, warm pool, container and OCI layers are calls of external programs.  The snapshot and
  restore pipelines, the graph engine, test runs and builds are separate subsystems on top of the fleet core;
  the orchestrator and the volume manager read the claim ledger as a parameter.  Within the modelled parts, concurrency inside one process is limited to what its
  mutexes allow: operations of one process are atomic up to their database statements.
\<close>

end
